(* ===== verification/Prelude.thy ===== *)
theory Prelude
  imports Complex_Main "HOL-Library.AList" "HOL-Library.List_Lexorder" "HOL-Library.Char_ord"
begin

text \<open>
  What every component shares: the exceptions of the Python code as values, actions that
  pass a world and may raise, Python dictionaries as association lists in insertion order,
  the string operations the code uses (\<^verbatim>\<open>split(":", 1)\<close>, \<^verbatim>\<open>repr\<close>, fixed-point
  formatting, list slicing), and the collections of rewrite rules the component proofs use.
\<close>

named_theorems io_simps \<open>unfolding of world-passing actions\<close>
named_theorems frame_simps \<open>parts of a state that an operation leaves alone\<close>
named_theorems wf_intros \<open>operations that keep a well-formedness invariant\<close>

section \<open>Exceptions\<close>

datatype py_error =
    ValueError string
  | KeyError string
  | IndexError
  | ValidationError
  | TypeError
  | AttributeError
  | ZeroDivisionError
  | StopIteration
  | RuntimeError
  | JSONDecodeError
  | HTTPStatusError nat

type_synonym 'a result = "py_error + 'a"

text \<open>A raising computation without effects, and its sequencing.\<close>

definition bindR :: "'e + 'a \<Rightarrow> ('a \<Rightarrow> 'e + 'b) \<Rightarrow> 'e + 'b" where
  "bindR r f = (case r of Inl e \<Rightarrow> Inl e | Inr x \<Rightarrow> f x)"

lemma bindR_simps [simp]:
  "bindR (Inl e) f = Inl e"
  "bindR (Inr x) f = f x"
  by (simp_all add: bindR_def)

lemma bindR_Inr_iff: "bindR r f = Inr y \<longleftrightarrow> (\<exists>x. r = Inr x \<and> f x = Inr y)"
  by (cases r) simp_all

lemma bindR_Inl_iff: "bindR r f = Inl e \<longleftrightarrow> r = Inl e \<or> (\<exists>x. r = Inr x \<and> f x = Inl e)"
  by (cases r) simp_all

text \<open>
  An action takes the world and returns a result and the new world. An exception keeps
  what the action had already changed: Python does not undo effects when it raises.
\<close>

type_synonym ('w, 'a) io = "'w \<Rightarrow> 'a result \<times> 'w"

definition returnE :: "'a \<Rightarrow> ('w, 'a) io" where
  "returnE x w = (Inr x, w)"

definition raiseE :: "py_error \<Rightarrow> ('w, 'a) io" where
  "raiseE e w = (Inl e, w)"

definition bindE :: "('w, 'a) io \<Rightarrow> ('a \<Rightarrow> ('w, 'b) io) \<Rightarrow> ('w, 'b) io" where
  "bindE m f w = (case m w of (Inl e, w') \<Rightarrow> (Inl e, w') | (Inr x, w') \<Rightarrow> f x w')"

definition liftE :: "'a result \<Rightarrow> ('w, 'a) io" where
  "liftE r w = (r, w)"

lemma returnE_app [simp, io_simps]: "returnE x w = (Inr x, w)"
  by (simp add: returnE_def)

lemma raiseE_app [simp, io_simps]: "raiseE e w = (Inl e, w)"
  by (simp add: raiseE_def)

lemma liftE_app [simp, io_simps]: "liftE r w = (r, w)"
  by (simp add: liftE_def)

lemma bindE_Inr [simp]: "m w = (Inr x, w') \<Longrightarrow> bindE m f w = f x w'"
  by (simp add: bindE_def)

lemma bindE_Inl [simp]: "m w = (Inl e, w') \<Longrightarrow> bindE m f w = (Inl e, w')"
  by (simp add: bindE_def)

lemma bindE_InrD:
  "bindE m f w = (Inr y, w2) \<Longrightarrow> \<exists>x w1. m w = (Inr x, w1) \<and> f x w1 = (Inr y, w2)"
  by (auto simp: bindE_def split: prod.splits sum.splits)

section \<open>Dictionaries\<close>

text \<open>
  A dictionary is an association list in insertion order: \<open>map_of\<close> looks up,
  \<open>AList.update\<close> assigns (in place when the key exists, at the end otherwise, as Python
  does), \<open>AList.delete\<close> pops.
\<close>

type_synonym ('k, 'v) dict = "('k \<times> 'v) list"

definition dict_get :: "('k, 'v) dict \<Rightarrow> 'k \<Rightarrow> py_error \<Rightarrow> 'v result" where
  "dict_get d k e = (case map_of d k of None \<Rightarrow> Inl e | Some v \<Rightarrow> Inr v)"

definition dict_setdefault :: "'k \<Rightarrow> 'v \<Rightarrow> ('k, 'v) dict \<Rightarrow> ('k, 'v) dict" where
  "dict_setdefault k v d = (if map_of d k = None then AList.update k v d else d)"

lemma dict_get_Inr [simp]: "dict_get d k e = Inr v \<longleftrightarrow> map_of d k = Some v"
  by (simp add: dict_get_def split: option.splits)

lemma dict_get_Some [simp]: "map_of d k = Some v \<Longrightarrow> dict_get d k e = Inr v"
  by simp

lemma dict_get_None [simp]: "map_of d k = None \<Longrightarrow> dict_get d k e = Inl e"
  by (simp add: dict_get_def)

lemma map_of_setdefault:
  "map_of (dict_setdefault k v d) k' =
     (if k' = k then (case map_of d k of None \<Rightarrow> Some v | Some v0 \<Rightarrow> Some v0) else map_of d k')"
  by (simp add: dict_setdefault_def update_conv' split: option.split)

lemma update_fst_same: "map_of d k \<noteq> None \<Longrightarrow> map fst (AList.update k v d) = map fst d"
  by (auto simp: update_keys map_of_eq_None_iff)

lemma update_fst_keys: "set (map fst (AList.update k v d)) = insert k (set (map fst d))"
  by (simp add: dom_update)

section \<open>Strings\<close>

text \<open>\<^verbatim>\<open>s.split(":", 1)\<close> unpacked into two names: \<^verbatim>\<open>None\<close> where the unpacking raises.\<close>

definition split_colon :: "string \<Rightarrow> (string \<times> string) option" where
  "split_colon s =
     (case dropWhile (\<lambda>c. c \<noteq> CHR '':'') s of
        [] \<Rightarrow> None
      | _ # t \<Rightarrow> Some (takeWhile (\<lambda>c. c \<noteq> CHR '':'') s, t))"

definition split_action :: "string \<Rightarrow> (string \<times> string) result" where
  "split_action s =
     (case split_colon s of
        None \<Rightarrow> Inl (ValueError ''not enough values to unpack (expected 2, got 1)'')
      | Some p \<Rightarrow> Inr p)"

text \<open>\<^verbatim>\<open>s.split(":", 1)[0]\<close> never raises.\<close>

definition split_head :: "string \<Rightarrow> string" where
  "split_head s = takeWhile (\<lambda>c. c \<noteq> CHR '':'') s"

definition join_action :: "string \<Rightarrow> string \<Rightarrow> string" where
  "join_action tool target = tool @ '':'' @ target"

lemma split_colon_join:
  "CHR '':'' \<notin> set tool \<Longrightarrow> split_colon (join_action tool target) = Some (tool, target)"
proof -
  assume a: "CHR '':'' \<notin> set tool"
  then have "\<And>c. c \<in> set tool \<Longrightarrow> c \<noteq> CHR '':''" by auto
  then have "takeWhile (\<lambda>c. c \<noteq> CHR '':'') (tool @ '':'' @ target) = tool"
    and "dropWhile (\<lambda>c. c \<noteq> CHR '':'') (tool @ '':'' @ target) = '':'' @ target"
    by (simp_all add: takeWhile_append2 dropWhile_append2)
  then show ?thesis by (simp add: split_colon_def join_action_def)
qed

lemma split_colon_SomeD:
  assumes "split_colon s = Some (tool, target)"
  shows "s = join_action tool target" and "CHR '':'' \<notin> set tool"
proof -
  let ?P = "\<lambda>c. c \<noteq> CHR '':''"
  from assms obtain c where d: "dropWhile ?P s = c # target" and t: "tool = takeWhile ?P s"
    by (auto simp: split_colon_def split: list.splits)
  from d have "c = CHR '':''" using hd_dropWhile [of ?P s] by simp
  with d t show "s = join_action tool target"
    using takeWhile_dropWhile_id [of ?P s] by (simp add: join_action_def)
  show "CHR '':'' \<notin> set tool" using t set_takeWhileD by fastforce
qed

lemma split_colon_iff:
  "split_colon s = Some (tool, target) \<longleftrightarrow> s = join_action tool target \<and> CHR '':'' \<notin> set tool"
  using split_colon_SomeD split_colon_join by blast

lemma split_colon_join_total: "\<exists>p. split_colon (join_action tool target) = Some p"
proof -
  have "dropWhile (\<lambda>c. c \<noteq> CHR '':'') (join_action tool target) \<noteq> []"
    by (auto simp: join_action_def)
  then show ?thesis by (auto simp: split_colon_def split: list.splits)
qed

lemma split_action_Inr: "split_action s = Inr p \<longleftrightarrow> split_colon s = Some p"
  by (simp add: split_action_def split: option.splits)

lemma split_head_eq: "split_colon s = Some (tool, target) \<Longrightarrow> split_head s = tool"
  by (auto simp: split_colon_def split_head_def split: list.splits)

text \<open>Python slicing \<^verbatim>\<open>xs[:n]\<close>: a negative bound counts from the end.\<close>

definition slice_to :: "int \<Rightarrow> 'a list \<Rightarrow> 'a list" where
  "slice_to n xs = (if n \<ge> 0 then take (nat n) xs else take (length xs - nat (- n)) xs)"

lemma slice_to_all: "int (length xs) \<le> n \<Longrightarrow> slice_to n xs = xs"
  by (simp add: slice_to_def)

text \<open>Decimal notation.\<close>

definition digit_char :: "nat \<Rightarrow> char" where
  "digit_char n = char_of (48 + n)"

fun show_nat :: "nat \<Rightarrow> string" where
  "show_nat n = (if n < 10 then [digit_char n] else show_nat (n div 10) @ [digit_char (n mod 10)])"

declare show_nat.simps [simp del]

definition show_int :: "int \<Rightarrow> string" where
  "show_int i = (if i < 0 then ''-'' @ show_nat (nat (- i)) else show_nat (nat i))"

definition round_half_even :: "rat \<Rightarrow> int" where
  "round_half_even x =
     (let f = \<lfloor>x\<rfloor>; r = x - of_int f
      in if r < 1/2 then f else if r > 1/2 then f + 1 else if even f then f else f + 1)"

text \<open>The format \<^verbatim>\<open>f"{x:.df}"\<close> of a number.\<close>

definition format_fixed :: "nat \<Rightarrow> rat \<Rightarrow> string" where
  "format_fixed d x =
     (let s = show_nat (nat (round_half_even (\<bar>x\<bar> * 10 ^ d)));
          z = replicate (Suc d - length s) (CHR ''0'') @ s;
          k = length z - d
      in (if x < 0 then ''-'' else []) @ take k z @ (if d = 0 then [] else ''.'' @ drop k z))"

text \<open>\<^verbatim>\<open>", ".join(xs)\<close> and its kin.\<close>

fun join_with :: "string \<Rightarrow> string list \<Rightarrow> string" where
  "join_with sep [] = []"
| "join_with sep [x] = x"
| "join_with sep (x # y # ys) = x @ sep @ join_with sep (y # ys)"

text \<open>
  \<^verbatim>\<open>repr\<close> of a string of code points below 256: the quote is a single one unless the string
  holds a single quote and no double quote; a backslash, the quote and the characters that
  are not printable are escaped.
\<close>

definition hex_digit :: "nat \<Rightarrow> char" where
  "hex_digit n = (if n < 10 then char_of (48 + n) else char_of (87 + n))"

definition hex2 :: "nat \<Rightarrow> string" where
  "hex2 n = [hex_digit (n div 16), hex_digit (n mod 16)]"

definition repr_char :: "char \<Rightarrow> char \<Rightarrow> string" where
  "repr_char q c =
     (let n = of_char c :: nat in
      if c = q \<or> c = CHR 0x5C then [CHR 0x5C, c]
      else if n = 9 then [CHR 0x5C, CHR ''t'']
      else if n = 10 then [CHR 0x5C, CHR ''n'']
      else if n = 13 then [CHR 0x5C, CHR ''r'']
      else if n < 32 \<or> (127 \<le> n \<and> n \<le> 160) \<or> n = 173 then [CHR 0x5C, CHR ''x''] @ hex2 n
      else [c])"

definition py_repr :: "string \<Rightarrow> string" where
  "py_repr s =
     (let q = (if CHR 0x27 \<in> set s \<and> CHR 0x22 \<notin> set s then CHR 0x22 else CHR 0x27)
      in [q] @ concat (map (repr_char q) s) @ [q])"

definition repr_list :: "string list \<Rightarrow> string" where
  "repr_list xs = ''['' @ join_with '', '' (map py_repr xs) @ '']''"

text \<open>\<^verbatim>\<open>repr\<close> of a value that may be \<^verbatim>\<open>None\<close>, and of a tuple of at least two strings.\<close>

definition repr_optional :: "string option \<Rightarrow> string" where
  "repr_optional v = (case v of None \<Rightarrow> ''None'' | Some s \<Rightarrow> py_repr s)"

definition repr_tuple :: "string list \<Rightarrow> string" where
  "repr_tuple xs = ''('' @ join_with '', '' (map py_repr xs) @ '')''"

text \<open>\<^verbatim>\<open>f"{s:<n}"\<close> and \<^verbatim>\<open>f"{s:>n}"\<close> (also \<^verbatim>\<open>ljust\<close>) pad with
  spaces and never cut.\<close>

definition pad_right :: "nat \<Rightarrow> string \<Rightarrow> string" where
  "pad_right n s = s @ replicate (n - length s) (CHR '' '')"

definition pad_left :: "nat \<Rightarrow> string \<Rightarrow> string" where
  "pad_left n s = replicate (n - length s) (CHR '' '') @ s"

end
