(* ===== verification/Pyval.thy ===== *)
theory Pyval
  imports Prelude
begin

text \<open>
  The dynamically typed dictionaries that travel through the agent: tool results,
  compensations, tool arguments and proposal parameters, and the canonical JSON text that
  the state fingerprint hashes. Floats are kept as exact rationals; how a float is
  printed is a parameter of \<open>json_dumps\<close>.
\<close>

datatype pyval =
    PNone
  | PBool bool
  | PInt int
  | PFloat rat
  | PStr string
  | PList "pyval list"
  | PDict "(string \<times> pyval) list"

type_synonym pydict = "(string, pyval) dict"

section \<open>Reading a dynamic value\<close>

text \<open>\<^verbatim>\<open>d[k]\<close> raises on a missing key, \<^verbatim>\<open>d.get(k)\<close> returns \<^verbatim>\<open>None\<close>.\<close>

definition pd_item :: "pydict \<Rightarrow> string \<Rightarrow> pyval result" where
  "pd_item d k = dict_get d k (KeyError k)"

definition pd_get :: "pydict \<Rightarrow> string \<Rightarrow> pyval" where
  "pd_get d k = (case map_of d k of None \<Rightarrow> PNone | Some v \<Rightarrow> v)"

fun as_dict :: "pyval \<Rightarrow> pydict result" where
  "as_dict (PDict d) = Inr d"
| "as_dict _ = Inl ValidationError"

fun as_str :: "pyval \<Rightarrow> string result" where
  "as_str (PStr s) = Inr s"
| "as_str _ = Inl ValidationError"

fun as_int :: "pyval \<Rightarrow> int result" where
  "as_int (PInt i) = Inr i"
| "as_int _ = Inl ValidationError"

fun as_list :: "pyval \<Rightarrow> pyval list result" where
  "as_list (PList xs) = Inr xs"
| "as_list _ = Inl ValidationError"

lemma as_dict_Inr: "as_dict v = Inr d \<longleftrightarrow> v = PDict d"
  by (cases v) auto

lemma as_str_Inr: "as_str v = Inr s \<longleftrightarrow> v = PStr s"
  by (cases v) auto

lemma as_int_Inr: "as_int v = Inr i \<longleftrightarrow> v = PInt i"
  by (cases v) auto

lemma as_list_Inr: "as_list v = Inr xs \<longleftrightarrow> v = PList xs"
  by (cases v) auto

lemmas as_Inr = as_dict_Inr as_str_Inr as_int_Inr as_list_Inr

text \<open>The first error of a list of computations, or all their values.\<close>

fun collect :: "('e + 'a) list \<Rightarrow> 'e + 'a list" where
  "collect [] = Inr []"
| "collect (r # rs) = bindR r (\<lambda>x. bindR (collect rs) (\<lambda>xs. Inr (x # xs)))"

lemma collect_map_Inr: "(\<And>x. x \<in> set xs \<Longrightarrow> f (g x) = Inr x) \<Longrightarrow> collect (map (f \<circ> g) xs) = Inr xs"
  by (induction xs) auto

lemma collect_Inr_length: "collect rs = Inr xs \<Longrightarrow> length xs = length rs"
  by (induction rs arbitrary: xs) (auto simp: bindR_Inr_iff)

section \<open>JSON text\<close>

definition json_char :: "char \<Rightarrow> string" where
  "json_char c =
     (let n = of_char c :: nat in
      if n = 34 then [CHR 0x5C, CHR 0x22]
      else if n = 92 then [CHR 0x5C, CHR 0x5C]
      else if n = 10 then [CHR 0x5C, CHR ''n'']
      else if n = 13 then [CHR 0x5C, CHR ''r'']
      else if n = 9 then [CHR 0x5C, CHR ''t'']
      else if n = 12 then [CHR 0x5C, CHR ''f'']
      else if n = 8 then [CHR 0x5C, CHR ''b'']
      else if 32 \<le> n \<and> n \<le> 126 then [c]
      else [CHR 0x5C, CHR ''u'', CHR ''0'', CHR ''0''] @ hex2 n)"

definition json_string :: "string \<Rightarrow> string" where
  "json_string s = [CHR 0x22] @ concat (map json_char s) @ [CHR 0x22]"

text \<open>
  \<^verbatim>\<open>json.dumps(v)\<close>, with the keys of an object sorted when the first argument (the code's
  \<^verbatim>\<open>sort_keys\<close>) is true, and with the printing of floats as a parameter.
\<close>

fun json_dumps :: "bool \<Rightarrow> (rat \<Rightarrow> string) \<Rightarrow> pyval \<Rightarrow> string" where
  "json_dumps srt fr PNone = ''null''"
| "json_dumps srt fr (PBool b) = (if b then ''true'' else ''false'')"
| "json_dumps srt fr (PInt i) = show_int i"
| "json_dumps srt fr (PFloat x) = fr x"
| "json_dumps srt fr (PStr s) = json_string s"
| "json_dumps srt fr (PList xs) =
     ''['' @ join_with '', '' (map (json_dumps srt fr) xs) @ '']''"
| "json_dumps srt fr (PDict d) =
     (let members = map (\<lambda>p. (fst p, json_dumps srt fr (snd p))) d
      in ''{'' @ join_with '', '' (map (\<lambda>p. json_string (fst p) @ '': '' @ snd p)
           (if srt then sort_key fst members else members)) @ ''}'')"

text \<open>A value or \<^verbatim>\<open>None\<close>.\<close>

definition optional :: "('a \<Rightarrow> pyval) \<Rightarrow> 'a option \<Rightarrow> pyval" where
  "optional f v = (case v of None \<Rightarrow> PNone | Some x \<Rightarrow> f x)"

end
