(* ===== verification/Mock_Service.thy ===== *)
theory Mock_Service
  imports Pyval
begin

text \<open>
  \<^verbatim>\<open>src/env/registry.py\<close>, \<^verbatim>\<open>src/env/mock_service/state.py\<close> and
  \<^verbatim>\<open>src/env/mock_service/app.py\<close>: the services of the sandbox. A service is a record of its
  metrics, faults, configuration and version history; every method of \<^verbatim>\<open>ServiceState\<close> is a
  definition, and every endpoint of the FastAPI app is a function from the service to an
  HTTP answer and the new service. Percentages and rates are exact rationals (the code only
  stores and compares them).
\<close>

section \<open>Which services exist\<close>

definition SERVICE_ROLES :: "(string, string) dict" where
  "SERVICE_ROLES =
     [(''service_a'', ''compute''), (''service_b'', ''compute''), (''service_c'', ''disk'')]"

definition KNOWN_SERVICES :: "string list" where
  "KNOWN_SERVICES = map fst SERVICE_ROLES"

definition has_disk :: "string \<Rightarrow> bool" where
  "has_disk service \<longleftrightarrow> map_of SERVICE_ROLES service = Some ''disk''"

section \<open>Service state\<close>

datatype fault_type = MEMORY_LEAK | HIGH_ERROR_RATE | CPU_SPIKE | SERVICE_DOWN | DISK_FULL

datatype fault_rate = RATE_LOW | RATE_MEDIUM | RATE_HIGH

fun fault_type_value :: "fault_type \<Rightarrow> string" where
  "fault_type_value MEMORY_LEAK = ''memory_leak''"
| "fault_type_value HIGH_ERROR_RATE = ''high_error_rate''"
| "fault_type_value CPU_SPIKE = ''cpu_spike''"
| "fault_type_value SERVICE_DOWN = ''service_down''"
| "fault_type_value DISK_FULL = ''disk_full''"

fun fault_rate_value :: "fault_rate \<Rightarrow> string" where
  "fault_rate_value RATE_LOW = ''low''"
| "fault_rate_value RATE_MEDIUM = ''medium''"
| "fault_rate_value RATE_HIGH = ''high''"

fun RATE_MAGNITUDE :: "fault_rate \<Rightarrow> rat" where
  "RATE_MAGNITUDE RATE_LOW = 65"
| "RATE_MAGNITUDE RATE_MEDIUM = 80"
| "RATE_MAGNITUDE RATE_HIGH = 95"

fun RATE_ERROR_RATE :: "fault_rate \<Rightarrow> rat" where
  "RATE_ERROR_RATE RATE_LOW = 3/20"
| "RATE_ERROR_RATE RATE_MEDIUM = 3/10"
| "RATE_ERROR_RATE RATE_HIGH = 3/5"

definition BASELINE_MEMORY_PCT :: rat where "BASELINE_MEMORY_PCT = 20"
definition BASELINE_CPU_PCT :: rat where "BASELINE_CPU_PCT = 15"
definition BASELINE_DISK_PCT :: rat where "BASELINE_DISK_PCT = 30"
definition BASELINE_ERROR_RATE :: rat where "BASELINE_ERROR_RATE = 0"
definition BASELINE_REPLICAS :: int where "BASELINE_REPLICAS = 1"
definition BASELINE_CONFIG :: "(string, string) dict" where
  "BASELINE_CONFIG =
     [(''log_level'', ''info''), (''max_connections'', ''100''), (''cache_ttl_seconds'', ''300'')]"
definition BASELINE_VERSION_HISTORY :: "string list" where
  "BASELINE_VERSION_HISTORY = [''v1.0.0'', ''v1.1.0'', ''v1.2.0'']"

definition DEGRADED_THRESHOLD :: rat where "DEGRADED_THRESHOLD = 75"
definition UNHEALTHY_THRESHOLD :: rat where "UNHEALTHY_THRESHOLD = 90"
definition DEGRADED_ERROR_RATE :: rat where "DEGRADED_ERROR_RATE = 1/10"
definition UNHEALTHY_ERROR_RATE :: rat where "UNHEALTHY_ERROR_RATE = 1/2"

lemmas baseline_defs = BASELINE_MEMORY_PCT_def BASELINE_CPU_PCT_def BASELINE_DISK_PCT_def
  BASELINE_ERROR_RATE_def BASELINE_REPLICAS_def BASELINE_CONFIG_def BASELINE_VERSION_HISTORY_def

lemmas threshold_defs = DEGRADED_THRESHOLD_def UNHEALTHY_THRESHOLD_def
  DEGRADED_ERROR_RATE_def UNHEALTHY_ERROR_RATE_def

record service_state =
  svc_name :: string
  svc_has_disk :: bool
  memory_pct :: rat
  cpu_pct :: rat
  disk_pct :: rat
  error_rate :: rat
  forced_down :: bool
  restart_count :: int
  active_faults :: "string list"
  replicas :: int
  config :: "(string, string) dict"
  version_history :: "string list"

text \<open>\<^verbatim>\<open>ServiceState(name=..., has_disk=..., replicas=...)\<close> with the dataclass defaults.\<close>

definition new_service :: "string \<Rightarrow> bool \<Rightarrow> int \<Rightarrow> service_state" where
  "new_service nm disk reps =
     \<lparr>svc_name = nm, svc_has_disk = disk, memory_pct = BASELINE_MEMORY_PCT,
      cpu_pct = BASELINE_CPU_PCT, disk_pct = BASELINE_DISK_PCT,
      error_rate = BASELINE_ERROR_RATE, forced_down = False, restart_count = 0,
      active_faults = [], replicas = reps, config = BASELINE_CONFIG,
      version_history = BASELINE_VERSION_HISTORY\<rparr>"

text \<open>\<^verbatim>\<open>self.version_history[-1]\<close>, which raises on an empty history.\<close>

definition deployed_version :: "service_state \<Rightarrow> string result" where
  "deployed_version s = (case rev (version_history s) of [] \<Rightarrow> Inl IndexError | v # _ \<Rightarrow> Inr v)"

definition worst_pct :: "service_state \<Rightarrow> rat" where
  "worst_pct s = max (max (memory_pct s) (cpu_pct s)) (if svc_has_disk s then disk_pct s else 0)"

definition status :: "service_state \<Rightarrow> string" where
  "status s =
     (if forced_down s \<or> error_rate s \<ge> UNHEALTHY_ERROR_RATE then ''unhealthy''
      else if worst_pct s \<ge> UNHEALTHY_THRESHOLD then ''unhealthy''
      else if worst_pct s \<ge> DEGRADED_THRESHOLD \<or> error_rate s \<ge> DEGRADED_ERROR_RATE
        then ''degraded''
      else ''healthy'')"

text \<open>The fields that \<^verbatim>\<open>metrics()\<close> puts into its dictionary; \<^verbatim>\<open>disk_pct\<close> only with a disk.\<close>

record metrics_obs =
  m_service :: string
  m_memory_pct :: rat
  m_cpu_pct :: rat
  m_error_rate :: rat
  m_restart_count :: int
  m_replicas :: int
  m_deployed_version :: string
  m_disk_pct :: "rat option"

definition metrics :: "service_state \<Rightarrow> metrics_obs result" where
  "metrics s = bindR (deployed_version s) (\<lambda>v. Inr
     \<lparr>m_service = svc_name s, m_memory_pct = memory_pct s, m_cpu_pct = cpu_pct s,
      m_error_rate = error_rate s, m_restart_count = restart_count s,
      m_replicas = replicas s, m_deployed_version = v,
      m_disk_pct = (if svc_has_disk s then Some (disk_pct s) else None)\<rparr>)"

text \<open>\<^verbatim>\<open>logs(limit)\<close>; \<open>now\<close> is the timestamp that the call reads from the clock.\<close>

definition logs :: "string \<Rightarrow> int \<Rightarrow> service_state \<Rightarrow> string list" where
  "logs now limit s =
     slice_to limit (rev
       ([now @ '' INFO '' @ svc_name s @ '' heartbeat ok'']
        @ (if error_rate s \<ge> DEGRADED_ERROR_RATE
           then [now @ '' ERROR '' @ svc_name s @ '' elevated error rate='' @
                 format_fixed 2 (error_rate s)] else [])
        @ (if memory_pct s \<ge> DEGRADED_THRESHOLD
           then [now @ '' WARN '' @ svc_name s @ '' high memory usage='' @
                 format_fixed 0 (memory_pct s) @ ''% possible leak''] else [])
        @ (if cpu_pct s \<ge> DEGRADED_THRESHOLD
           then [now @ '' WARN '' @ svc_name s @ '' high cpu utilization='' @
                 format_fixed 0 (cpu_pct s) @ ''%''] else [])
        @ (if svc_has_disk s \<and> disk_pct s \<ge> DEGRADED_THRESHOLD
           then [now @ '' WARN '' @ svc_name s @ '' disk usage critical='' @
                 format_fixed 0 (disk_pct s) @ ''%''] else [])
        @ (if forced_down s
           then [now @ '' CRITICAL '' @ svc_name s @ '' service unresponsive''] else [])))"

definition add_fault :: "fault_type \<Rightarrow> service_state \<Rightarrow> service_state" where
  "add_fault f s =
     (if fault_type_value f \<in> set (active_faults s) then s
      else s\<lparr>active_faults := active_faults s @ [fault_type_value f]\<rparr>)"

fun apply_fault :: "fault_type \<Rightarrow> fault_rate \<Rightarrow> service_state \<Rightarrow> service_state result" where
  "apply_fault MEMORY_LEAK r s =
     Inr (add_fault MEMORY_LEAK (s\<lparr>memory_pct := RATE_MAGNITUDE r\<rparr>))"
| "apply_fault CPU_SPIKE r s = Inr (add_fault CPU_SPIKE (s\<lparr>cpu_pct := RATE_MAGNITUDE r\<rparr>))"
| "apply_fault HIGH_ERROR_RATE r s =
     Inr (add_fault HIGH_ERROR_RATE (s\<lparr>error_rate := RATE_ERROR_RATE r\<rparr>))"
| "apply_fault SERVICE_DOWN r s =
     Inr (add_fault SERVICE_DOWN (s\<lparr>forced_down := True, error_rate := 1\<rparr>))"
| "apply_fault DISK_FULL r s =
     (if svc_has_disk s then Inr (add_fault DISK_FULL (s\<lparr>disk_pct := RATE_MAGNITUDE r\<rparr>))
      else Inl (ValueError (svc_name s @ '' has no disk surface'')))"

text \<open>What \<^verbatim>\<open>restart\<close> and \<^verbatim>\<open>rollback\<close> both do: everything back to the baseline but the disk.\<close>

definition clear_transient :: "service_state \<Rightarrow> service_state" where
  "clear_transient s = s\<lparr>memory_pct := BASELINE_MEMORY_PCT, cpu_pct := BASELINE_CPU_PCT,
     error_rate := BASELINE_ERROR_RATE, forced_down := False,
     active_faults := [f \<leftarrow> active_faults s. f = fault_type_value DISK_FULL]\<rparr>"

definition restart :: "service_state \<Rightarrow> service_state" where
  "restart s = clear_transient (s\<lparr>restart_count := restart_count s + 1\<rparr>)"

definition clean_disk :: "service_state \<Rightarrow> service_state result" where
  "clean_disk s =
     (if svc_has_disk s
      then Inr (s\<lparr>disk_pct := BASELINE_DISK_PCT,
                 active_faults := [f \<leftarrow> active_faults s. f \<noteq> fault_type_value DISK_FULL]\<rparr>)
      else Inl (ValueError (svc_name s @ '' has no disk surface'')))"

definition scale :: "int \<Rightarrow> service_state \<Rightarrow> int \<times> service_state" where
  "scale n s = (replicas s, s\<lparr>replicas := n\<rparr>)"

definition set_config :: "string \<Rightarrow> string \<Rightarrow> service_state \<Rightarrow> string option \<times> service_state" where
  "set_config k v s = (map_of (config s) k, s\<lparr>config := AList.update k v (config s)\<rparr>)"

definition rollback :: "service_state \<Rightarrow> (string \<times> string \<times> service_state) result" where
  "rollback s =
     (if length (version_history s) < 2
      then Inl (ValueError (svc_name s @ '' has no prior version to roll back to''))
      else bindR (deployed_version s) (\<lambda>previous_current.
        let s' = clear_transient (s\<lparr>version_history := butlast (version_history s)\<rparr>)
        in bindR (deployed_version s') (\<lambda>new_current. Inr (previous_current, new_current, s'))))"

definition deploy :: "string \<Rightarrow> service_state \<Rightarrow> (string \<times> service_state) result" where
  "deploy version s = bindR (deployed_version s) (\<lambda>previous.
     Inr (previous,
       if version \<noteq> previous then s\<lparr>version_history := version_history s @ [version]\<rparr> else s))"

definition reset :: "service_state \<Rightarrow> service_state" where
  "reset s = s\<lparr>memory_pct := BASELINE_MEMORY_PCT, cpu_pct := BASELINE_CPU_PCT,
     disk_pct := BASELINE_DISK_PCT, error_rate := BASELINE_ERROR_RATE, forced_down := False,
     restart_count := 0, active_faults := [], replicas := BASELINE_REPLICAS,
     config := BASELINE_CONFIG, version_history := BASELINE_VERSION_HISTORY\<rparr>"

end
