(* ===== verification/Mock_App.thy ===== *)
theory Mock_App
  imports Mock_Service
begin

text \<open>
  The endpoints of \<^verbatim>\<open>src/env/mock_service/app.py\<close>. An answer is \<open>Inl\<close> of an HTTP error
  code or \<open>Inr\<close> of the JSON body; a handler that raises answers 500, a body that fails
  the request schema answers 422, and a route that is not mounted answers 404. The
  coercions that pydantic makes from other types to \<^verbatim>\<open>int\<close> are the parameter \<open>ci\<close>.
\<close>

type_synonym 'a response = "nat + 'a"

definition answer_500 :: "'a result \<Rightarrow> 'a response" where
  "answer_500 r = (case r of Inl _ \<Rightarrow> Inl 500 | Inr x \<Rightarrow> Inr x)"

definition raise_for_status :: "'a response \<Rightarrow> 'a result" where
  "raise_for_status r = (case r of Inl c \<Rightarrow> Inl (HTTPStatusError c) | Inr x \<Rightarrow> Inr x)"

lemma answer_500_simps [simp]: "answer_500 (Inl e) = Inl 500" "answer_500 (Inr x) = Inr x"
  by (simp_all add: answer_500_def)

lemma raise_for_status_simps [simp]:
  "raise_for_status (Inl c) = Inl (HTTPStatusError c)" "raise_for_status (Inr x) = Inr x"
  by (simp_all add: raise_for_status_def)

definition validate_int :: "(pyval \<Rightarrow> int option) \<Rightarrow> pyval \<Rightarrow> int option" where
  "validate_int ci v = (case v of PInt i \<Rightarrow> Some i | _ \<Rightarrow> ci v)"

lemma validate_int_PInt [simp]: "validate_int ci (PInt i) = Some i"
  by (simp add: validate_int_def)

section \<open>Read endpoints\<close>

record health_obs =
  h_service :: string
  h_status :: string
  h_restart_count :: int

definition app_health :: "service_state \<Rightarrow> health_obs response" where
  "app_health s = Inr \<lparr>h_service = svc_name s, h_status = status s, h_restart_count = restart_count s\<rparr>"

definition app_metrics :: "service_state \<Rightarrow> metrics_obs response" where
  "app_metrics s = answer_500 (metrics s)"

definition app_logs :: "string \<Rightarrow> int \<Rightarrow> service_state \<Rightarrow> string list response" where
  "app_logs now limit s = Inr (logs now limit s)"

definition app_disk :: "service_state \<Rightarrow> rat response" where
  "app_disk s = (if svc_has_disk s then Inr (disk_pct s) else Inl 404)"

definition app_get_config :: "service_state \<Rightarrow> pydict response" where
  "app_get_config s = Inr [(''service'', PStr (svc_name s)),
     (''config'', PDict (map (\<lambda>(k, v). (k, PStr v)) (config s)))]"

text \<open>An \<^verbatim>\<open>IndexError\<close> of the handler is a 500.\<close>

definition app_version :: "service_state \<Rightarrow> pydict response" where
  "app_version s =
     (case deployed_version s of
        Inl _ \<Rightarrow> Inl 500
      | Inr v \<Rightarrow> Inr [(''service'', PStr (svc_name s)), (''deployed_version'', PStr v),
                    (''history'', PList (map PStr (version_history s)))])"

section \<open>Endpoints that change the service\<close>

type_synonym post = "service_state \<Rightarrow> pydict response \<times> service_state"

definition app_restart :: post where
  "app_restart s =
     (let s' = restart s
      in (Inr [(''service'', PStr (svc_name s')), (''restart_count'', PInt (restart_count s')),
               (''status'', PStr (status s'))], s'))"

definition app_scale :: "(pyval \<Rightarrow> int option) \<Rightarrow> pyval \<Rightarrow> post" where
  "app_scale ci v s =
     (case validate_int ci v of
        None \<Rightarrow> (Inl 422, s)
      | Some n \<Rightarrow>
          (let (previous, s') = scale n s
           in (Inr [(''service'', PStr (svc_name s')), (''previous_replicas'', PInt previous),
                    (''replicas'', PInt (replicas s'))], s')))"

definition app_set_config :: "pyval \<Rightarrow> pyval \<Rightarrow> post" where
  "app_set_config k v s =
     (case (k, v) of
        (PStr key, PStr val) \<Rightarrow>
          (let (previous, s') = set_config key val s
           in (Inr [(''service'', PStr (svc_name s')), (''key'', PStr key),
                    (''previous_value'', case previous of None \<Rightarrow> PNone | Some p \<Rightarrow> PStr p),
                    (''value'', PStr val)], s'))
      | _ \<Rightarrow> (Inl 422, s))"

definition app_rollback :: post where
  "app_rollback s =
     (case rollback s of
        Inl (ValueError _) \<Rightarrow> (Inl 400, s)
      | Inl _ \<Rightarrow> (Inl 500, s)
      | Inr (previous_current, new_current, s') \<Rightarrow>
          (Inr [(''service'', PStr (svc_name s')), (''rolled_back_from'', PStr previous_current),
                (''deployed_version'', PStr new_current)], s'))"

definition app_deploy :: "pyval \<Rightarrow> post" where
  "app_deploy v s =
     (case v of
        PStr version \<Rightarrow>
          (case deploy version s of
             Inl _ \<Rightarrow> (Inl 500, s)
           | Inr (previous, s') \<Rightarrow>
               (case deployed_version s' of
                  Inl _ \<Rightarrow> (Inl 500, s')
                | Inr current \<Rightarrow>
                    (Inr [(''service'', PStr (svc_name s')), (''previous_version'', PStr previous),
                          (''deployed_version'', PStr current)], s')))
      | _ \<Rightarrow> (Inl 422, s))"

definition app_disk_clean :: post where
  "app_disk_clean s =
     (if svc_has_disk s
      then (case clean_disk s of
              Inl _ \<Rightarrow> (Inl 500, s)
            | Inr s' \<Rightarrow> (Inr [(''service'', PStr (svc_name s')),
                             (''used_pct'', PFloat (disk_pct s'))], s'))
      else (Inl 404, s))"

definition app_admin_fault :: "fault_type \<Rightarrow> fault_rate \<Rightarrow> post" where
  "app_admin_fault f r s =
     (case apply_fault f r s of
        Inl _ \<Rightarrow> (Inl 400, s)
      | Inr s' \<Rightarrow> (Inr [(''service'', PStr (svc_name s')), (''status'', PStr (status s')),
                       (''active_faults'', PList (map PStr (active_faults s')))], s'))"

definition app_admin_reset :: post where
  "app_admin_reset s =
     (let s' = reset s
      in (Inr [(''service'', PStr (svc_name s')), (''status'', PStr (status s'))], s'))"

lemmas app_post_defs = app_restart_def app_scale_def app_set_config_def app_rollback_def
  app_deploy_def app_disk_clean_def app_admin_fault_def app_admin_reset_def

lemmas app_get_defs = app_health_def app_metrics_def app_logs_def app_disk_def

section \<open>Well-formed services\<close>

text \<open>
  What every endpoint keeps: a version history that is never empty and never repeats a version
  right after itself, configuration keys that are distinct, a fault list without duplicates, and a full disk recorded only on a disk.
\<close>

definition wf_service :: "service_state \<Rightarrow> bool" where
  "wf_service s \<longleftrightarrow> version_history s \<noteq> [] \<and> distinct_adj (version_history s) \<and>
     distinct (map fst (config s)) \<and>
     distinct (active_faults s) \<and>
     (fault_type_value DISK_FULL \<in> set (active_faults s) \<longrightarrow> svc_has_disk s)"

lemma wf_service_fields [simp]:
  "wf_service (s\<lparr>memory_pct := x\<rparr>) = wf_service s"
  "wf_service (s\<lparr>cpu_pct := x\<rparr>) = wf_service s"
  "wf_service (s\<lparr>disk_pct := x\<rparr>) = wf_service s"
  "wf_service (s\<lparr>error_rate := x\<rparr>) = wf_service s"
  "wf_service (s\<lparr>forced_down := b\<rparr>) = wf_service s"
  "wf_service (s\<lparr>restart_count := i\<rparr>) = wf_service s"
  "wf_service (s\<lparr>replicas := i\<rparr>) = wf_service s"
  by (simp_all add: wf_service_def)

lemma wf_new_service [simp, wf_intros]: "wf_service (new_service nm d n)"
  by (simp add: wf_service_def new_service_def baseline_defs)

lemma deployed_version_Inr: "version_history s \<noteq> [] \<Longrightarrow> deployed_version s = Inr (last (version_history s))"
  by (cases "version_history s" rule: rev_cases) (simp_all add: deployed_version_def)

lemma deployed_version_wf [simp]:
  "wf_service s \<Longrightarrow> deployed_version s = Inr (last (version_history s))"
  by (simp add: wf_service_def deployed_version_Inr)

lemma restart_wf [wf_intros]: "wf_service s \<Longrightarrow> wf_service (restart s)"
  by (simp add: wf_service_def restart_def clear_transient_def)

lemma clean_disk_wf [wf_intros]: "wf_service s \<Longrightarrow> clean_disk s = Inr s' \<Longrightarrow> wf_service s'"
  by (auto simp: wf_service_def clean_disk_def split: if_splits)

lemma scale_wf [wf_intros]: "wf_service s \<Longrightarrow> wf_service (snd (scale n s))"
  by (simp add: wf_service_def scale_def)

lemma set_config_wf [wf_intros]: "wf_service s \<Longrightarrow> wf_service (snd (set_config k v s))"
  by (simp add: wf_service_def set_config_def distinct_update)

lemma rollback_Inr_iff:
  "wf_service s \<Longrightarrow> rollback s = Inr (p, n, s') \<longleftrightarrow>
     2 \<le> length (version_history s) \<and> p = last (version_history s) \<and>
     n = last (butlast (version_history s)) \<and>
     s' = clear_transient (s\<lparr>version_history := butlast (version_history s)\<rparr>)"
proof -
  assume "wf_service s"
  moreover have "deployed_version (clear_transient (s\<lparr>version_history := butlast (version_history s)\<rparr>))
      = Inr (last (butlast (version_history s)))" if "2 \<le> length (version_history s)"
  proof (rule trans [OF deployed_version_Inr])
    show "version_history (clear_transient (s\<lparr>version_history := butlast (version_history s)\<rparr>)) \<noteq> []"
      using that by (cases "version_history s" rule: rev_cases) (auto simp: clear_transient_def)
  qed (simp add: clear_transient_def)
  ultimately show ?thesis by (auto simp: rollback_def Let_def not_less)
qed

lemma rollback_wf [wf_intros]:
  assumes "wf_service s" and "rollback s = Inr (p, n, s')"
  shows "wf_service s'"
proof -
  from assms have len: "2 \<le> length (version_history s)"
    and s': "s' = clear_transient (s\<lparr>version_history := butlast (version_history s)\<rparr>)"
    by (simp_all add: rollback_Inr_iff)
  from len have "butlast (version_history s) \<noteq> []"
    by (cases "version_history s" rule: rev_cases) auto
  moreover have "distinct_adj (butlast (version_history s))"
    using assms(1) by (cases "version_history s" rule: rev_cases)
      (auto simp: wf_service_def distinct_adj_append_iff)
  ultimately show ?thesis using assms(1) by (simp add: s' wf_service_def clear_transient_def)
qed

lemma deploy_wf [wf_intros]: "wf_service s \<Longrightarrow> deploy v s = Inr (p, s') \<Longrightarrow> wf_service s'"
  by (auto simp: deploy_def wf_service_def distinct_adj_append_iff deployed_version_Inr split: if_splits)

lemma add_fault_wf:
  "wf_service s \<Longrightarrow> (f = DISK_FULL \<longrightarrow> svc_has_disk s) \<Longrightarrow> wf_service (add_fault f s)"
  by (cases f) (auto simp: wf_service_def add_fault_def)

lemma apply_fault_wf [wf_intros]: "wf_service s \<Longrightarrow> apply_fault f r s = Inr s' \<Longrightarrow> wf_service s'"
  by (cases f) (auto intro!: add_fault_wf split: if_splits)

lemma reset_wf [wf_intros]: "wf_service (reset s)"
  by (simp add: wf_service_def reset_def baseline_defs)

lemmas service_wf = restart_wf clean_disk_wf scale_wf set_config_wf rollback_wf deploy_wf
  apply_fault_wf reset_wf

lemma app_metrics_wf: "wf_service s \<Longrightarrow> app_metrics s = Inr
     \<lparr>m_service = svc_name s, m_memory_pct = memory_pct s, m_cpu_pct = cpu_pct s,
      m_error_rate = error_rate s, m_restart_count = restart_count s, m_replicas = replicas s,
      m_deployed_version = last (version_history s),
      m_disk_pct = (if svc_has_disk s then Some (disk_pct s) else None)\<rparr>"
  by (simp add: app_metrics_def metrics_def)

text \<open>Every endpoint keeps well-formedness, whatever it answers.\<close>

lemma app_posts_wf [wf_intros]:
  "wf_service s \<Longrightarrow> wf_service (snd (app_restart s))"
  "wf_service s \<Longrightarrow> wf_service (snd (app_scale ci v s))"
  "wf_service s \<Longrightarrow> wf_service (snd (app_set_config pk pv s))"
  "wf_service s \<Longrightarrow> wf_service (snd (app_rollback s))"
  "wf_service s \<Longrightarrow> wf_service (snd (app_deploy v s))"
  "wf_service s \<Longrightarrow> wf_service (snd (app_disk_clean s))"
  "wf_service s \<Longrightarrow> wf_service (snd (app_admin_fault f r s))"
  "wf_service s \<Longrightarrow> wf_service (snd (app_admin_reset s))"
  by (auto simp: app_post_defs Let_def split_beta restart_wf scale_wf set_config_wf reset_wf
      split: option.split pyval.split sum.split py_error.split
      dest: rollback_wf deploy_wf clean_disk_wf apply_fault_wf)

text \<open>A service is healthy exactly when nothing is above its threshold.\<close>

lemma status_healthy_iff:
  "status s = ''healthy'' \<longleftrightarrow>
     \<not> forced_down s \<and> error_rate s < DEGRADED_ERROR_RATE \<and> worst_pct s < DEGRADED_THRESHOLD"
  by (auto simp: status_def threshold_defs)

lemma status_values: "status s \<in> {''healthy'', ''degraded'', ''unhealthy''}"
  by (simp add: status_def)

end
