(* ===== verification/Record_Store.thy ===== *)
theory Record_Store
  imports Mock_App
begin

text \<open>
  The mock production table behind \<^verbatim>\<open>RecordsRepository\<close> (\<^verbatim>\<open>src/tools/context.py\<close>): the
  interface as the locale \<open>records_repository\<close>, the dictionary and the Postgres table as its
  interpretations, and the two clients that delete rows and put them back
  (\<^verbatim>\<open>delete_records\<close> of \<^verbatim>\<open>src/tools/mutating.py\<close> and the \<^verbatim>\<open>reinsert_records\<close> compensation of
  \<^verbatim>\<open>src/agent/execution.py\<close>).
\<close>

record db_row =
  r_id :: int
  r_kind :: string
  r_payload :: string

text \<open>A row to insert; without an id the store assigns one.\<close>

record new_row =
  n_id :: "int option"
  n_kind :: string
  n_payload :: string

definition with_id :: "db_row \<Rightarrow> new_row" where
  "with_id r = \<lparr>n_id = Some (r_id r), n_kind = r_kind r, n_payload = r_payload r\<rparr>"

definition matches_kind :: "string option \<Rightarrow> db_row \<Rightarrow> bool" where
  "matches_kind k r \<longleftrightarrow> (case k of None \<Rightarrow> True | Some x \<Rightarrow> r_kind r = x)"

definition rows_map :: "db_row list \<Rightarrow> int \<Rightarrow> db_row option" where
  "rows_map rs = map_of (map (\<lambda>r. (r_id r, r)) rs)"

lemma rows_map_None: "rows_map rs i = None \<longleftrightarrow> i \<notin> r_id ` set rs"
  by (simp add: rows_map_def map_of_eq_None_iff image_image)

lemma rows_map_SomeD: "rows_map rs i = Some r \<Longrightarrow> r \<in> set rs \<and> r_id r = i"
  by (auto simp: rows_map_def dest: map_of_SomeD)

lemma rows_map_append: "rows_map (xs @ ys) i = (case rows_map xs i of None \<Rightarrow> rows_map ys i | Some r \<Rightarrow> Some r)"
  by (simp add: rows_map_def map_add_def split: option.split)

lemma rows_map_in: "distinct (map r_id rs) \<Longrightarrow> r \<in> set rs \<Longrightarrow> rows_map rs (r_id r) = Some r"
  by (simp add: rows_map_def comp_def)

section \<open>The interface\<close>

text \<open>
  \<open>content w i\<close> is the row with id \<open>i\<close>, \<open>rsize w\<close> how many rows there are. \<open>get_by_kind\<close> answers in
  the order of the ids and complete when the limit allows; \<open>insert_many\<close> is only used with
  rows whose ids are free.
\<close>

locale records_repository =
  fixes get_by_kind :: "'w \<Rightarrow> string option \<Rightarrow> int \<Rightarrow> db_row list"
    and get_by_ids :: "'w \<Rightarrow> int list \<Rightarrow> db_row list"
    and delete :: "int list \<Rightarrow> 'w \<Rightarrow> 'w"
    and insert_many :: "new_row list \<Rightarrow> 'w \<Rightarrow> 'w"
    and content :: "'w \<Rightarrow> int \<Rightarrow> db_row option"
    and rsize :: "'w \<Rightarrow> nat"
    and invar :: "'w \<Rightarrow> bool"
  assumes kind_sound:
      "invar w \<Longrightarrow> r \<in> set (get_by_kind w k n) \<Longrightarrow> content w (r_id r) = Some r \<and> matches_kind k r"
    and kind_sorted: "invar w \<Longrightarrow> sorted_wrt (<) (map r_id (get_by_kind w k n))"
    and kind_complete:
      "invar w \<Longrightarrow> int (rsize w) \<le> n \<Longrightarrow> content w i = Some r \<Longrightarrow> matches_kind k r \<Longrightarrow>
       r \<in> set (get_by_kind w k n)"
    and ids_sound:
      "invar w \<Longrightarrow> r \<in> set (get_by_ids w ids) \<longleftrightarrow> r_id r \<in> set ids \<and> content w (r_id r) = Some r"
    and content_id: "invar w \<Longrightarrow> content w i = Some r \<Longrightarrow> r_id r = i"
    and delete_invar: "invar w \<Longrightarrow> invar (delete ids w)"
    and delete_content:
      "invar w \<Longrightarrow> content (delete ids w) i = (if i \<in> set ids then None else content w i)"
    and insert_invar: "invar w \<Longrightarrow> invar (insert_many ns w)"
    and insert_content:
      "invar w \<Longrightarrow> distinct (map r_id rs) \<Longrightarrow> (\<And>r. r \<in> set rs \<Longrightarrow> content w (r_id r) = None) \<Longrightarrow>
       content (insert_many (map with_id rs) w) i =
         (case rows_map rs i of None \<Rightarrow> content w i | Some r \<Rightarrow> Some r)"
begin

text \<open>After deleting what \<open>get_by_kind\<close> found, none of those rows is left.\<close>

lemma deleted_gone:
  assumes "invar w" and "ids = map r_id (get_by_kind w k n)"
    and "r \<in> set (get_by_kind (delete ids w) k' n')"
  shows "r_id r \<notin> set ids"
proof -
  from assms(1) have d: "invar (delete ids w)" by (rule delete_invar)
  from kind_sound [OF d assms(3)] have "content (delete ids w) (r_id r) = Some r" by simp
  with assms(1) show ?thesis by (auto simp: delete_content split: if_splits)
qed

text \<open>Deleting a set of stored rows and inserting them again gives back the same content.\<close>

lemma delete_reinsert:
  assumes inv: "invar w" and d: "distinct (map r_id rs)"
    and stored: "\<And>r. r \<in> set rs \<Longrightarrow> content w (r_id r) = Some r"
  shows "content (insert_many (map with_id rs) (delete (map r_id rs) w)) = content w"
proof (rule ext)
  fix i
  let ?w' = "delete (map r_id rs) w"
  have w': "invar ?w'" by (rule delete_invar [OF inv])
  have free: "content ?w' (r_id r) = None" if "r \<in> set rs" for r
    using that by (simp add: delete_content [OF inv])
  show "content (insert_many (map with_id rs) ?w') i = content w i"
  proof (cases "rows_map rs i")
    case None
    then have "i \<notin> r_id ` set rs" by (simp add: rows_map_None)
    with inv None show ?thesis
      by (simp add: insert_content [OF w' d free] delete_content)
  next
    case (Some r)
    then have "r \<in> set rs" "r_id r = i" by (auto dest: rows_map_SomeD)
    with stored have "content w i = Some r" by auto
    with Some show ?thesis by (simp add: insert_content [OF w' d free])
  qed
qed

lemma kind_distinct: "invar w \<Longrightarrow> distinct (map r_id (get_by_kind w k n))"
  using kind_sorted strict_sorted_iff by blast

lemma delete_reinsert_kind:
  "invar w \<Longrightarrow> rs = get_by_kind w k n \<Longrightarrow>
     content (insert_many (map with_id rs) (delete (map r_id rs) w)) = content w"
  by (rule delete_reinsert) (auto simp: kind_distinct dest: kind_sound)

lemma sorted_rows_unique:
  "invar w \<Longrightarrow> invar w' \<Longrightarrow> content w = content w' \<Longrightarrow> int (rsize w) \<le> n \<Longrightarrow>
     int (rsize w') \<le> n \<Longrightarrow> map r_id (get_by_kind w k n) = map r_id (get_by_kind w' k n)"
proof (rule strict_sorted_equal)
  assume a: "invar w" "invar w'" "content w = content w'" "int (rsize w) \<le> n" "int (rsize w') \<le> n"
  show "sorted_wrt (<) (map r_id (get_by_kind w' k n))" by (rule kind_sorted [OF a(2)])
  show "sorted_wrt (<) (map r_id (get_by_kind w k n))" by (rule kind_sorted [OF a(1)])
  have "set (get_by_kind w k n) = set (get_by_kind w' k n)"
    using a kind_sound kind_complete by (metis subset_antisym subsetI)
  then show "set (map r_id (get_by_kind w k n)) = set (map r_id (get_by_kind w' k n))" by simp
qed

end

section \<open>The dictionary repository\<close>

record records_repo =
  next_id :: int
  rows :: "(int, db_row) dict"

definition new_records :: "db_row list \<Rightarrow> records_repo" where
  "new_records rs =
     \<lparr>next_id = (if rs = [] then 1 else Max (set (map r_id rs)) + 1),
      rows = fold (\<lambda>r d. AList.update (r_id r) r d) rs []\<rparr>"

definition repo_get_by_kind :: "records_repo \<Rightarrow> string option \<Rightarrow> int \<Rightarrow> db_row list" where
  "repo_get_by_kind rp k limit =
     slice_to limit (sort_key r_id [r \<leftarrow> map snd (rows rp). matches_kind k r])"

definition repo_get_by_ids :: "records_repo \<Rightarrow> int list \<Rightarrow> db_row list" where
  "repo_get_by_ids rp ids = List.map_filter (map_of (rows rp)) ids"

definition repo_delete :: "int list \<Rightarrow> records_repo \<Rightarrow> records_repo" where
  "repo_delete ids rp = rp\<lparr>rows := fold AList.delete ids (rows rp)\<rparr>"

definition repo_insert :: "new_row \<Rightarrow> records_repo \<Rightarrow> records_repo" where
  "repo_insert n rp =
     (let i = (case n_id n of None \<Rightarrow> next_id rp | Some i \<Rightarrow> i);
          row = \<lparr>r_id = i, r_kind = n_kind n, r_payload = n_payload n\<rparr>
      in rp\<lparr>next_id := max (next_id rp) (i + 1), rows := AList.update i row (rows rp)\<rparr>)"

definition repo_insert_many :: "new_row list \<Rightarrow> records_repo \<Rightarrow> records_repo" where
  "repo_insert_many ns rp = fold repo_insert ns rp"

definition repo_content :: "records_repo \<Rightarrow> int \<Rightarrow> db_row option" where
  "repo_content rp = map_of (rows rp)"

definition repo_size :: "records_repo \<Rightarrow> nat" where
  "repo_size rp = length (rows rp)"

definition wf_repo :: "records_repo \<Rightarrow> bool" where
  "wf_repo rp \<longleftrightarrow> distinct (map fst (rows rp)) \<and>
     (\<forall>(i, r) \<in> set (rows rp). r_id r = i \<and> i < next_id rp)"

lemma wf_repo_lookup:
  "wf_repo rp \<Longrightarrow> (i, r) \<in> set (rows rp) \<longleftrightarrow> map_of (rows rp) i = Some r"
  by (simp add: wf_repo_def)

lemma wf_repo_row: "wf_repo rp \<Longrightarrow> map_of (rows rp) i = Some r \<Longrightarrow> r_id r = i \<and> i < next_id rp"
  by (auto simp: wf_repo_def dest: map_of_SomeD)

lemma wf_repo_values: "wf_repo rp \<Longrightarrow> map r_id (map snd (rows rp)) = map fst (rows rp)"
  by (auto simp: wf_repo_def)

lemma wf_repo_snd:
  "wf_repo rp \<Longrightarrow> r \<in> snd ` set (rows rp) \<longleftrightarrow> map_of (rows rp) (r_id r) = Some r"
  by (force simp: wf_repo_lookup [symmetric] wf_repo_def)

lemma map_of_fold_delete:
  "map_of (fold AList.delete ids d) i = (if i \<in> set ids then None else map_of d i)"
  by (induction ids arbitrary: d) (auto simp: AList.delete_conv')

lemma set_fold_delete: "set (fold AList.delete ids d) \<subseteq> set d"
proof (induction ids arbitrary: d)
  case (Cons k ids)
  have "set (AList.delete k d) \<subseteq> set d" by (simp add: AList.delete_eq)
  with Cons.IH [of "AList.delete k d"] show ?case by auto
qed simp

lemma distinct_fold_delete:
  "distinct (map fst d) \<Longrightarrow> distinct (map fst (fold AList.delete ids d))"
  by (induction ids arbitrary: d) (simp_all add: AList.distinct_delete)

lemma repo_delete_wf: "wf_repo rp \<Longrightarrow> wf_repo (repo_delete ids rp)"
  using set_fold_delete [of ids "rows rp"]
  by (auto simp: wf_repo_def repo_delete_def distinct_fold_delete)

lemma repo_insert_wf: "wf_repo rp \<Longrightarrow> wf_repo (repo_insert n rp)"
proof -
  assume wf: "wf_repo rp"
  have d: "distinct (map fst (AList.update i row (rows rp)))" for i row
    using wf by (simp add: wf_repo_def AList.distinct_update)
  have rows: "r_id r = j \<and> j < max (next_id rp) (i + 1)"
    if "(j, r) \<in> set (AList.update i row (rows rp))" "r_id row = i" for i j r row
  proof -
    from that(1) d have "map_of (AList.update i row (rows rp)) j = Some r" by simp
    then show ?thesis
      using wf_repo_row [OF wf, of j r] that(2) by (auto simp: AList.update_conv' split: if_splits)
  qed
  have wf': "wf_repo (rp\<lparr>next_id := max (next_id rp) (i + 1), rows := AList.update i row (rows rp)\<rparr>)"
    if "r_id row = i" for i row
    using d rows that by (auto simp: wf_repo_def simp del: less_max_iff_disj)
  show ?thesis unfolding repo_insert_def Let_def by (rule wf') simp
qed

lemma repo_insert_many_wf: "wf_repo rp \<Longrightarrow> wf_repo (repo_insert_many ns rp)"
  unfolding repo_insert_many_def by (induction ns arbitrary: rp) (simp_all add: repo_insert_wf)

lemma repo_insert_with_id:
  "repo_insert (with_id r) rp =
     rp\<lparr>next_id := max (next_id rp) (r_id r + 1), rows := AList.update (r_id r) r (rows rp)\<rparr>"
  by (cases r) (simp add: repo_insert_def with_id_def Let_def)

text \<open>Inserting rows with their ids overwrites; the last row of an id wins.\<close>

lemma repo_insert_many_content:
  "repo_content (repo_insert_many (map with_id rs) rp) i =
     (case rows_map (rev rs) i of None \<Rightarrow> repo_content rp i | Some r \<Rightarrow> Some r)"
proof (induction rs arbitrary: rp)
  case (Cons r rs)
  have "repo_content (repo_insert_many (map with_id (r # rs)) rp) i =
      (case rows_map (rev rs) i of None \<Rightarrow> repo_content (repo_insert (with_id r) rp) i | Some x \<Rightarrow> Some x)"
    using Cons.IH [of "repo_insert (with_id r) rp"] by (simp add: repo_insert_many_def)
  then show ?case
    by (auto simp: rows_map_append repo_insert_with_id repo_content_def AList.update_conv'
        rows_map_def split: option.splits)
qed (simp add: repo_insert_many_def rows_map_def)

lemma rows_map_rev: "distinct (map r_id rs) \<Longrightarrow> rows_map (rev rs) = rows_map rs"
proof (rule ext)
  fix i
  assume d: "distinct (map r_id rs)"
  then have d': "distinct (map r_id (rev rs))" by (simp add: rev_map [symmetric])
  show "rows_map (rev rs) i = rows_map rs i"
  proof (cases "rows_map rs i")
    case None
    then have "rows_map (rev rs) i = None" by (simp add: rows_map_None)
    with None show ?thesis by simp
  next
    case (Some r)
    then have "r \<in> set (rev rs)" "r_id r = i" by (auto dest: rows_map_SomeD)
    with rows_map_in [OF d'] Some show ?thesis by auto
  qed
qed

lemma repo_kind_set: "set (repo_get_by_kind rp k n) \<subseteq> {r \<in> snd ` set (rows rp). matches_kind k r}"
proof -
  have "set (slice_to n xs) \<subseteq> set xs" for xs :: "db_row list"
    by (auto simp: slice_to_def dest: in_set_takeD)
  then show ?thesis by (force simp: repo_get_by_kind_def)
qed

lemma strict_sorted_slice: "sorted_wrt (<) (map f xs) \<Longrightarrow> sorted_wrt (<) (map f (slice_to n xs))"
  by (simp add: slice_to_def take_map [symmetric] sorted_wrt_take)

lemma repo_kind_sorted: "wf_repo rp \<Longrightarrow> sorted_wrt (<) (map r_id (repo_get_by_kind rp k n))"
proof -
  assume wf: "wf_repo rp"
  then have "distinct (map r_id (map snd (rows rp)))"
    by (simp only: wf_repo_values) (simp add: wf_repo_def)
  then have "distinct (map r_id [r \<leftarrow> map snd (rows rp). matches_kind k r])"
    by (rule distinct_map_filter)
  then have "distinct (map r_id (sort_key r_id [r \<leftarrow> map snd (rows rp). matches_kind k r]))"
    by (simp add: distinct_map)
  then show ?thesis
    unfolding repo_get_by_kind_def
    by (intro strict_sorted_slice) (simp add: strict_sorted_iff)
qed

interpretation repo: records_repository repo_get_by_kind repo_get_by_ids repo_delete
  repo_insert_many repo_content repo_size wf_repo
proof (unfold_locales, goal_cases)
  case (1 w r k n)
  then show ?case using repo_kind_set [of w k n] by (auto simp: repo_content_def wf_repo_snd)
next
  case (2 w k n)
  then show ?case by (rule repo_kind_sorted)
next
  case (3 w n i r k)
  then have "r \<in> snd ` set (rows w)" "r_id r = i"
    using wf_repo_row [of w i r] by (force simp: repo_content_def dest: map_of_SomeD)+
  moreover have "slice_to n (sort_key r_id [r \<leftarrow> map snd (rows w). matches_kind k r]) =
      sort_key r_id [r \<leftarrow> map snd (rows w). matches_kind k r]"
  proof (rule slice_to_all)
    have "length [r \<leftarrow> map snd (rows w). matches_kind k r] \<le> repo_size w"
      using length_filter_le [of "matches_kind k" "map snd (rows w)"] by (simp add: repo_size_def)
    with 3(2) show "int (length (sort_key r_id [r \<leftarrow> map snd (rows w). matches_kind k r])) \<le> n"
      by (simp only: length_sort)
  qed
  ultimately show ?case using 3(4) by (auto simp: repo_get_by_kind_def)
next
  case (4 w r ids)
  then show ?case
    by (auto simp: repo_get_by_ids_def repo_content_def map_filter_def image_iff dest: wf_repo_row)
next
  case (5 w i r)
  then show ?case by (simp add: repo_content_def wf_repo_row)
next
  case (6 w ids)
  then show ?case by (rule repo_delete_wf)
next
  case (7 w ids i)
  then show ?case by (simp add: repo_content_def repo_delete_def map_of_fold_delete)
next
  case (8 w ns)
  then show ?case by (rule repo_insert_many_wf)
next
  case (9 w rs i)
  then show ?case by (simp add: repo_insert_many_content rows_map_rev)
qed

section \<open>The Postgres table\<close>

text \<open>
  The \<^verbatim>\<open>records\<close> table of \<^verbatim>\<open>src/env/db/init.sql\<close> under the statements of
  \<^verbatim>\<open>PostgresRecordsRepository\<close>: the ids are the primary key, queries are ordered by id, and an
  insert leaves an existing id alone. \<^verbatim>\<open>executemany\<close> reads \<^verbatim>\<open>r["id"]\<close> of every row first.
\<close>

type_synonym pg_records = "db_row list"

definition pg_get_by_kind :: "pg_records \<Rightarrow> string option \<Rightarrow> int \<Rightarrow> db_row list" where
  "pg_get_by_kind table k limit = take (nat limit) (sort_key r_id [r \<leftarrow> table. matches_kind k r])"

definition pg_get_by_ids :: "pg_records \<Rightarrow> int list \<Rightarrow> db_row list" where
  "pg_get_by_ids table ids =
     (if ids = [] then [] else sort_key r_id [r \<leftarrow> table. r_id r \<in> set ids])"

definition pg_delete :: "int list \<Rightarrow> pg_records \<Rightarrow> pg_records" where
  "pg_delete ids table = (if ids = [] then table else [r \<leftarrow> table. r_id r \<notin> set ids])"

definition pg_insert :: "db_row \<Rightarrow> pg_records \<Rightarrow> pg_records" where
  "pg_insert r table = (if r_id r \<in> r_id ` set table then table else table @ [r])"

definition pg_row :: "new_row \<Rightarrow> db_row result" where
  "pg_row n = (case n_id n of
     None \<Rightarrow> Inl (KeyError ''id'')
   | Some i \<Rightarrow> Inr \<lparr>r_id = i, r_kind = n_kind n, r_payload = n_payload n\<rparr>)"

definition pg_insert_many :: "new_row list \<Rightarrow> pg_records \<Rightarrow> pg_records result" where
  "pg_insert_many ns table = bindR (collect (map pg_row ns)) (\<lambda>rs. Inr (fold pg_insert rs table))"

definition pg_insert_rows :: "new_row list \<Rightarrow> pg_records \<Rightarrow> pg_records" where
  "pg_insert_rows ns table = (case pg_insert_many ns table of Inl _ \<Rightarrow> table | Inr t \<Rightarrow> t)"

definition wf_table :: "pg_records \<Rightarrow> bool" where
  "wf_table table \<longleftrightarrow> distinct (map r_id table)"

lemma pg_row_with_id [simp]: "pg_row (with_id r) = Inr r"
  by (simp add: pg_row_def with_id_def)

lemma pg_insert_many_with_id: "pg_insert_many (map with_id rs) table = Inr (fold pg_insert rs table)"
proof -
  have "collect (map pg_row (map with_id rs)) = Inr rs" by (induction rs) simp_all
  then show ?thesis by (simp add: pg_insert_many_def)
qed

lemma pg_insert_wf: "wf_table t \<Longrightarrow> wf_table (pg_insert r t)"
  by (simp add: wf_table_def pg_insert_def)

lemma pg_fold_wf: "wf_table t \<Longrightarrow> wf_table (fold pg_insert rs t)"
  by (induction rs arbitrary: t) (simp_all add: pg_insert_wf)

lemma pg_insert_rows_wf: "wf_table t \<Longrightarrow> wf_table (pg_insert_rows ns t)"
  by (auto simp: pg_insert_rows_def pg_insert_many_def bindR_Inr_iff pg_fold_wf split: sum.split)

lemma rows_map_iff: "wf_table t \<Longrightarrow> rows_map t i = Some r \<longleftrightarrow> r \<in> set t \<and> r_id r = i"
  using rows_map_in [of t r] rows_map_SomeD [of t i r] by (auto simp: wf_table_def)

lemma pg_insert_free: "rows_map t (r_id r) = None \<Longrightarrow> pg_insert r t = t @ [r]"
  by (simp add: pg_insert_def rows_map_None)

lemma pg_fold_free:
  "distinct (map r_id rs) \<Longrightarrow> \<forall>r \<in> set rs. rows_map t (r_id r) = None \<Longrightarrow> fold pg_insert rs t = t @ rs"
proof (induction rs arbitrary: t)
  case (Cons r rs)
  have "r_id x \<noteq> r_id r" if "x \<in> set rs" for x
    using Cons.prems(1) that by (force simp: image_iff)
  with Cons.prems(2) have "\<forall>x \<in> set rs. rows_map (t @ [r]) (r_id x) = None"
    by (simp add: rows_map_None)
  with Cons.IH [of "t @ [r]"] Cons.prems show ?case by (simp add: pg_insert_free)
qed simp

lemma rows_map_filter_ids:
  assumes "wf_table t"
  shows "rows_map [r \<leftarrow> t. r_id r \<notin> set ids] i = (if i \<in> set ids then None else rows_map t i)"
proof (cases "i \<in> set ids")
  case True
  then show ?thesis by (auto simp: rows_map_None)
next
  case False
  have "wf_table [r \<leftarrow> t. r_id r \<notin> set ids]" using assms by (simp add: wf_table_def distinct_map_filter)
  then have "rows_map [r \<leftarrow> t. r_id r \<notin> set ids] i = Some r \<longleftrightarrow> rows_map t i = Some r" for r
    using False assms by (auto simp: rows_map_iff)
  with False show ?thesis by (cases "rows_map t i") (auto intro: option.expand)
qed

interpretation pg_records: records_repository pg_get_by_kind pg_get_by_ids pg_delete
  pg_insert_rows rows_map length wf_table
proof (unfold_locales, goal_cases)
  case (1 w r k n)
  then show ?case by (auto simp: pg_get_by_kind_def rows_map_iff dest: in_set_takeD)
next
  case (2 w k n)
  then have "distinct (map r_id [r \<leftarrow> w. matches_kind k r])"
    by (simp add: wf_table_def distinct_map_filter)
  then have "distinct (map r_id (sort_key r_id [r \<leftarrow> w. matches_kind k r]))"
    by (simp add: distinct_map)
  then show ?case
    by (simp add: pg_get_by_kind_def take_map [symmetric] sorted_wrt_take strict_sorted_iff)
next
  case (3 w n i r k)
  have "length [r \<leftarrow> w. matches_kind k r] \<le> nat n"
    using 3(2) length_filter_le [of "matches_kind k" w] by linarith
  with 3 show ?case by (simp add: pg_get_by_kind_def rows_map_iff)
next
  case (4 w r ids)
  then show ?case by (auto simp: pg_get_by_ids_def rows_map_iff)
next
  case (5 w i r)
  then show ?case by (simp add: rows_map_iff)
next
  case (6 w ids)
  then show ?case by (simp add: pg_delete_def wf_table_def distinct_map_filter)
next
  case (7 w ids i)
  then show ?case by (simp add: pg_delete_def rows_map_filter_ids)
next
  case (8 w ns)
  then show ?case by (rule pg_insert_rows_wf)
next
  case (9 w rs i)
  have "rows_map w i = None" if "rows_map rs i = Some r" for r
    using rows_map_SomeD [OF that] 9(3) [of r] by simp
  with 9 show ?case
    by (auto simp: pg_insert_rows_def pg_insert_many_with_id pg_fold_free rows_map_append
        split: option.split)
qed

end
