(* ===== verification/Ledger.thy ===== *)
theory Ledger
  imports Pyval
begin

text \<open>
  The idempotency ledger of \<^verbatim>\<open>src/tools/context.py\<close> (\<^verbatim>\<open>ExecutedActionsStore\<close> and its two
  implementations) and the one function that uses it, \<^verbatim>\<open>_run_idempotent\<close> of
  \<^verbatim>\<open>src/tools/mutating.py\<close>. The interface is the locale \<open>idempotency_ledger\<close>; the dictionary
  and the Postgres table are its interpretations.
\<close>

section \<open>Rows and results\<close>

record ledger_row =
  lr_tool_name :: string
  lr_args :: pydict
  lr_result :: pyval
  lr_compensation :: pyval

record mutation_result =
  mr_tool :: string
  mr_idempotency_key :: string
  mr_idempotent_replay :: bool
  mr_result :: pydict
  mr_compensation :: pydict

text \<open>\<^verbatim>\<open>MutationResult(...)\<close> validates that result and compensation are dictionaries.\<close>

definition make_mutation_result ::
  "string \<Rightarrow> string \<Rightarrow> bool \<Rightarrow> pyval \<Rightarrow> pyval \<Rightarrow> mutation_result result" where
  "make_mutation_result tool key replay res undo =
     bindR (as_dict res) (\<lambda>r. bindR (as_dict undo) (\<lambda>c. Inr
       \<lparr>mr_tool = tool, mr_idempotency_key = key, mr_idempotent_replay = replay,
        mr_result = r, mr_compensation = c\<rparr>))"

lemma make_mutation_result_dicts [simp]:
  "make_mutation_result tool key replay (PDict r) (PDict c) = Inr
     \<lparr>mr_tool = tool, mr_idempotency_key = key, mr_idempotent_replay = replay,
      mr_result = r, mr_compensation = c\<rparr>"
  by (simp add: make_mutation_result_def)

lemma make_mutation_result_Inr:
  "make_mutation_result tool key replay res undo = Inr m \<longleftrightarrow>
     (\<exists>r c. res = PDict r \<and> undo = PDict c \<and>
        m = \<lparr>mr_tool = tool, mr_idempotency_key = key, mr_idempotent_replay = replay,
             mr_result = r, mr_compensation = c\<rparr>)"
  by (auto simp: make_mutation_result_def bindR_Inr_iff as_dict_Inr)

section \<open>Running an action under a key\<close>

definition run_idempotent ::
  "('w \<Rightarrow> string \<Rightarrow> ledger_row option) \<Rightarrow> (string \<Rightarrow> ledger_row \<Rightarrow> 'w \<Rightarrow> 'w) \<Rightarrow>
   string \<Rightarrow> string \<Rightarrow> pydict \<Rightarrow> ('w, pydict \<times> pydict) io \<Rightarrow> ('w, mutation_result) io" where
  "run_idempotent get record_row tool key args perform = (\<lambda>w.
     (case get w key of
        Some existing \<Rightarrow>
          (make_mutation_result tool key True (lr_result existing) (lr_compensation existing), w)
      | None \<Rightarrow>
          bindE perform (\<lambda>(res, undo) w1.
            (make_mutation_result tool key False (PDict res) (PDict undo),
             record_row key \<lparr>lr_tool_name = tool, lr_args = args, lr_result = PDict res,
                             lr_compensation = PDict undo\<rparr> w1)) w))"

section \<open>The interface\<close>

text \<open>
  What \<^verbatim>\<open>_run_idempotent\<close> relies on. \<open>stored\<close> is what a row looks like when it is read back;
  the first row recorded under a key stays.
\<close>

locale idempotency_ledger =
  fixes get :: "'w \<Rightarrow> string \<Rightarrow> ledger_row option"
    and record_row :: "string \<Rightarrow> ledger_row \<Rightarrow> 'w \<Rightarrow> 'w"
    and stored :: "ledger_row \<Rightarrow> ledger_row"
  assumes get_record_new: "get w k = None \<Longrightarrow> get (record_row k r w) k = Some (stored r)"
    and get_record_first: "get w k = Some r0 \<Longrightarrow> get (record_row k r w) k = Some r0"
    and get_record_other: "k' \<noteq> k \<Longrightarrow> get (record_row k r w) k' = get w k'"
begin

lemma get_record_mono: "get w k = Some r0 \<Longrightarrow> get (record_row k' r w) k = Some r0"
  by (cases "k' = k") (simp_all add: get_record_first get_record_other)

lemma run_replay:
  "get w key = Some row \<Longrightarrow> run_idempotent get record_row tool key args perform w =
     (make_mutation_result tool key True (lr_result row) (lr_compensation row), w)"
  by (simp add: run_idempotent_def)

lemma run_raises:
  "get w key = None \<Longrightarrow> perform w = (Inl e, w1) \<Longrightarrow>
     run_idempotent get record_row tool key args perform w = (Inl e, w1)"
  by (simp add: run_idempotent_def bindE_def)

lemma run_first:
  "get w key = None \<Longrightarrow> perform w = (Inr (res, undo), w1) \<Longrightarrow>
     run_idempotent get record_row tool key args perform w =
       (Inr \<lparr>mr_tool = tool, mr_idempotency_key = key, mr_idempotent_replay = False,
             mr_result = res, mr_compensation = undo\<rparr>,
        record_row key \<lparr>lr_tool_name = tool, lr_args = args, lr_result = PDict res,
                        lr_compensation = PDict undo\<rparr> w1)"
  by (simp add: run_idempotent_def bindE_def)

text \<open>
  A second call under the same key, whatever it was going to do, performs nothing and
  answers from the first call's row.
\<close>

lemma run_twice:
  assumes new: "get w key = None"
    and perf: "perform w = (Inr (res, undo), w1)"
    and frame: "get w1 key = None"
    and first: "run_idempotent get record_row tool key args perform w = (r, w2)"
  shows "run_idempotent get record_row tool' key args' perform' w2 =
     (let row = stored \<lparr>lr_tool_name = tool, lr_args = args, lr_result = PDict res,
                        lr_compensation = PDict undo\<rparr>
      in (make_mutation_result tool' key True (lr_result row) (lr_compensation row), w2))"
proof -
  from first have "w2 = record_row key \<lparr>lr_tool_name = tool, lr_args = args,
      lr_result = PDict res, lr_compensation = PDict undo\<rparr> w1"
    using new perf by (simp add: run_first)
  then show ?thesis by (simp add: run_replay [OF get_record_new [OF frame]] Let_def)
qed

end

section \<open>The dictionary store\<close>

type_synonym mem_ledger = "(string, ledger_row) dict"

definition mem_get :: "mem_ledger \<Rightarrow> string \<Rightarrow> ledger_row option" where
  "mem_get led key = map_of led key"

definition mem_record :: "string \<Rightarrow> ledger_row \<Rightarrow> mem_ledger \<Rightarrow> mem_ledger" where
  "mem_record key row led = dict_setdefault key row led"

lemma mem_get_record:
  "mem_get (mem_record k r led) k' =
     (if k' = k then (case mem_get led k of None \<Rightarrow> Some r | Some r0 \<Rightarrow> Some r0) else mem_get led k')"
  by (simp add: mem_get_def mem_record_def map_of_setdefault)

interpretation mem_ledger: idempotency_ledger mem_get mem_record "\<lambda>r. r"
  by unfold_locales (simp_all add: mem_get_record)

section \<open>The Postgres table\<close>

text \<open>
  The table \<^verbatim>\<open>executed_actions\<close> of \<^verbatim>\<open>src/env/db/init.sql\<close> under the two statements of
  \<^verbatim>\<open>PostgresExecutedActionsStore\<close>. The JSONB columns are written as JSON text; what the driver
  gives back for such a column is the parameter \<open>jsonb\<close> (and \<open>jsonb_args\<close> at the type of the
  arguments), the printing of floats is \<open>fr\<close>.
\<close>

record pg_action =
  pa_idempotency_key :: string
  pa_tool_name :: string
  pa_args :: string
  pa_result :: string
  pa_compensation :: string

definition pg_action_of :: "(rat \<Rightarrow> string) \<Rightarrow> string \<Rightarrow> ledger_row \<Rightarrow> pg_action" where
  "pg_action_of fr key row =
     \<lparr>pa_idempotency_key = key, pa_tool_name = lr_tool_name row,
      pa_args = json_dumps False fr (PDict (lr_args row)),
      pa_result = json_dumps False fr (lr_result row),
      pa_compensation = json_dumps False fr (lr_compensation row)\<rparr>"

definition pg_row_of :: "(string \<Rightarrow> pydict) \<Rightarrow> (string \<Rightarrow> pyval) \<Rightarrow> pg_action \<Rightarrow> ledger_row" where
  "pg_row_of jsonb_args jsonb a =
     \<lparr>lr_tool_name = pa_tool_name a, lr_args = jsonb_args (pa_args a),
      lr_result = jsonb (pa_result a), lr_compensation = jsonb (pa_compensation a)\<rparr>"

definition pg_get ::
  "(string \<Rightarrow> pydict) \<Rightarrow> (string \<Rightarrow> pyval) \<Rightarrow> pg_action list \<Rightarrow> string \<Rightarrow> ledger_row option" where
  "pg_get jsonb_args jsonb table key =
     map_option (pg_row_of jsonb_args jsonb)
       (find (\<lambda>a. pa_idempotency_key a = key) table)"

text \<open>\<^verbatim>\<open>INSERT ... ON CONFLICT (idempotency_key) DO NOTHING\<close>.\<close>

definition pg_record ::
  "(rat \<Rightarrow> string) \<Rightarrow> string \<Rightarrow> ledger_row \<Rightarrow> pg_action list \<Rightarrow> pg_action list" where
  "pg_record fr key row table =
     (if \<exists>a \<in> set table. pa_idempotency_key a = key then table
      else table @ [pg_action_of fr key row])"

lemma find_append: "find P (xs @ ys) = (case find P xs of None \<Rightarrow> find P ys | Some x \<Rightarrow> Some x)"
  by (induction xs) auto

lemma find_ex: "\<exists>x \<in> set xs. P x \<Longrightarrow> \<exists>y. find P xs = Some y"
  by (induction xs) auto

text \<open>A row as it comes back from the table.\<close>

definition pg_stored ::
  "(string \<Rightarrow> pydict) \<Rightarrow> (string \<Rightarrow> pyval) \<Rightarrow> (rat \<Rightarrow> string) \<Rightarrow> ledger_row \<Rightarrow> ledger_row" where
  "pg_stored ja jb fr row =
     \<lparr>lr_tool_name = lr_tool_name row, lr_args = ja (json_dumps False fr (PDict (lr_args row))),
      lr_result = jb (json_dumps False fr (lr_result row)),
      lr_compensation = jb (json_dumps False fr (lr_compensation row))\<rparr>"

lemma pg_row_of_action [simp]: "pg_row_of ja jb (pg_action_of fr k r) = pg_stored ja jb fr r"
  by (simp add: pg_row_of_def pg_action_of_def pg_stored_def)

lemma pg_get_record:
  "pg_get ja jb (pg_record fr k r table) k' =
     (if k' = k
      then (case pg_get ja jb table k of None \<Rightarrow> Some (pg_stored ja jb fr r) | Some r0 \<Rightarrow> Some r0)
      else pg_get ja jb table k')"
proof (cases "\<exists>a \<in> set table. pa_idempotency_key a = k")
  case True
  then obtain y where "find (\<lambda>a. pa_idempotency_key a = k) table = Some y"
    using find_ex [of table "\<lambda>a. pa_idempotency_key a = k"] by auto
  with True show ?thesis by (simp add: pg_get_def pg_record_def)
next
  case False
  then have "find (\<lambda>a. pa_idempotency_key a = k) table = None" by (auto simp: find_None_iff)
  moreover have "pa_idempotency_key (pg_action_of fr k r) = k" by (simp add: pg_action_of_def)
  ultimately show ?thesis
    using False by (auto simp: pg_get_def pg_record_def find_append split: option.split)
qed

interpretation pg_ledger: idempotency_ledger "pg_get ja jb" "pg_record fr" "pg_stored ja jb fr"
  for ja jb fr
  by unfold_locales (simp_all add: pg_get_record)

end
