(* ===== verification/Tool_Context.thy ===== *)
theory Tool_Context
  imports Record_Store Ledger
begin

text \<open>
  \<^verbatim>\<open>ToolContext\<close> of \<^verbatim>\<open>src/tools/context.py\<close>: the services behind their clients, the idempotency
  ledger and the records table, with the in-memory implementations that the sandbox, the
  evaluation and the tests use. A request to a service reads or replaces that service; a
  client that does not exist raises, as \<^verbatim>\<open>ToolContext.client\<close> does.
\<close>

record tool_ctx =
  clients :: "(string, service_state) dict"
  store :: mem_ledger
  records :: records_repo

definition client_error :: "tool_ctx \<Rightarrow> string \<Rightarrow> py_error" where
  "client_error c service =
     ValueError (''unknown service '' @ py_repr service @ ''; known: '' @
       repr_list (sort (map fst (clients c))))"

definition client :: "tool_ctx \<Rightarrow> string \<Rightarrow> service_state result" where
  "client c service = dict_get (clients c) service (client_error c service)"

text \<open>\<^verbatim>\<open>resp = await ctx.client(s).get(...); resp.raise_for_status()\<close>\<close>

definition http_get :: "string \<Rightarrow> (service_state \<Rightarrow> 'a response) \<Rightarrow> tool_ctx \<Rightarrow> 'a result" where
  "http_get service f c = bindR (client c service) (\<lambda>s. raise_for_status (f s))"

text \<open>\<^verbatim>\<open>resp = await ctx.client(s).post(...); resp.raise_for_status(); resp.json()\<close>\<close>

definition set_client :: "string \<Rightarrow> service_state \<Rightarrow> tool_ctx \<Rightarrow> tool_ctx" where
  "set_client service s c = c\<lparr>clients := AList.update service s (clients c)\<rparr>"

definition http_post :: "string \<Rightarrow> post \<Rightarrow> (tool_ctx, pydict) io" where
  "http_post service f c =
     (case client c service of
        Inl e \<Rightarrow> (Inl e, c)
      | Inr s \<Rightarrow> (raise_for_status (fst (f s)), set_client service (snd (f s)) c))"

definition ctx_get :: "tool_ctx \<Rightarrow> string \<Rightarrow> ledger_row option" where
  "ctx_get c key = mem_get (store c) key"

definition ctx_record :: "string \<Rightarrow> ledger_row \<Rightarrow> tool_ctx \<Rightarrow> tool_ctx" where
  "ctx_record key row c = c\<lparr>store := mem_record key row (store c)\<rparr>"

definition ctx_get_by_kind :: "tool_ctx \<Rightarrow> string option \<Rightarrow> int \<Rightarrow> db_row list" where
  "ctx_get_by_kind c = repo_get_by_kind (records c)"

definition ctx_get_by_ids :: "tool_ctx \<Rightarrow> int list \<Rightarrow> db_row list" where
  "ctx_get_by_ids c = repo_get_by_ids (records c)"

definition ctx_delete :: "int list \<Rightarrow> tool_ctx \<Rightarrow> tool_ctx" where
  "ctx_delete ids c = c\<lparr>records := repo_delete ids (records c)\<rparr>"

definition ctx_insert_many :: "new_row list \<Rightarrow> tool_ctx \<Rightarrow> tool_ctx" where
  "ctx_insert_many ns c = c\<lparr>records := repo_insert_many ns (records c)\<rparr>"

definition ctx_content :: "tool_ctx \<Rightarrow> int \<Rightarrow> db_row option" where
  "ctx_content c = repo_content (records c)"

definition ctx_rsize :: "tool_ctx \<Rightarrow> nat" where
  "ctx_rsize c = repo_size (records c)"

text \<open>A well-formed context.\<close>

definition wf_ctx :: "tool_ctx \<Rightarrow> bool" where
  "wf_ctx c \<longleftrightarrow> (\<forall>(n, s) \<in> set (clients c). wf_service s) \<and> wf_repo (records c)"

lemma wf_ctx_client: "wf_ctx c \<Longrightarrow> map_of (clients c) n = Some s \<Longrightarrow> wf_service s"
  by (auto simp: wf_ctx_def dest: map_of_SomeD)

lemma set_update_subset: "set (AList.update k v d) \<subseteq> insert (k, v) (set d)"
  by (induction d) auto

lemma wf_ctx_set_client [wf_intros]: "wf_ctx c \<Longrightarrow> wf_service s \<Longrightarrow> wf_ctx (set_client n s c)"
  using set_update_subset [of n s "clients c"] by (auto simp: wf_ctx_def set_client_def)

lemma set_client_frame [simp, frame_simps]:
  "store (set_client n s c) = store c" "records (set_client n s c) = records c"
  by (simp_all add: set_client_def)

lemma set_client_lookup [simp]:
  "map_of (clients (set_client n s c)) n' = (if n' = n then Some s else map_of (clients c) n')"
  by (simp add: set_client_def AList.update_conv')

lemma set_client_same: "map_of (clients c) n = Some s \<Longrightarrow> set_client n s c = c"
  by (simp add: set_client_def AList.update_triv)

lemma set_client_twice [simp]: "set_client n s (set_client n s' c) = set_client n s c"
  by (simp add: set_client_def)

lemma ctx_frame [simp, frame_simps]:
  "clients (ctx_record k r c) = clients c" "records (ctx_record k r c) = records c"
  "clients (ctx_delete ids c) = clients c" "store (ctx_delete ids c) = store c"
  "clients (ctx_insert_many ns c) = clients c" "store (ctx_insert_many ns c) = store c"
  by (simp_all add: ctx_record_def ctx_delete_def ctx_insert_many_def)

lemma ctx_wf [wf_intros]:
  "wf_ctx c \<Longrightarrow> wf_ctx (ctx_record k r c)"
  "wf_ctx c \<Longrightarrow> wf_ctx (ctx_delete ids c)"
  "wf_ctx c \<Longrightarrow> wf_ctx (ctx_insert_many ns c)"
  by (simp_all add: wf_ctx_def ctx_record_def ctx_delete_def ctx_insert_many_def
      repo_delete_wf repo_insert_many_wf)

lemma client_Inr [simp]: "client c n = Inr s \<longleftrightarrow> map_of (clients c) n = Some s"
  by (simp add: client_def)

lemma client_Some [simp]: "map_of (clients c) n = Some s \<Longrightarrow> client c n = Inr s"
  by simp

lemma client_None [simp]: "map_of (clients c) n = None \<Longrightarrow> client c n = Inl (client_error c n)"
  by (simp add: client_def)

lemma http_get_known [simp]:
  "map_of (clients c) n = Some s \<Longrightarrow> http_get n f c = raise_for_status (f s)"
  by (simp add: http_get_def)

lemma http_post_known [simp]:
  "map_of (clients c) n = Some s \<Longrightarrow>
     http_post n f c = (raise_for_status (fst (f s)), set_client n (snd (f s)) c)"
  by (simp add: http_post_def)

lemma http_post_unknown [simp]:
  "map_of (clients c) n = None \<Longrightarrow> http_post n f c = (Inl (client_error c n), c)"
  by (simp add: http_post_def)

lemma http_post_frame [frame_simps]:
  "store (snd (http_post n f c)) = store c" "records (snd (http_post n f c)) = records c"
  by (cases "map_of (clients c) n"; simp)+

lemma http_post_wf [wf_intros]:
  "wf_ctx c \<Longrightarrow> (\<And>s. wf_service s \<Longrightarrow> wf_service (snd (f s))) \<Longrightarrow> wf_ctx (snd (http_post n f c))"
  by (cases "map_of (clients c) n") (auto intro: wf_ctx_set_client dest: wf_ctx_client)

text \<open>The context provides both store interfaces.\<close>

interpretation ctx_ledger: idempotency_ledger ctx_get ctx_record "\<lambda>r. r"
  by unfold_locales (simp_all add: ctx_get_def ctx_record_def mem_get_record)

interpretation ctx_records: records_repository ctx_get_by_kind ctx_get_by_ids ctx_delete
  ctx_insert_many ctx_content ctx_rsize "\<lambda>c. wf_repo (records c)"
proof (unfold_locales, goal_cases)
  case (1 w r k n)
  then show ?case using repo.kind_sound by (simp add: ctx_get_by_kind_def ctx_content_def)
next
  case (2 w k n)
  then show ?case using repo.kind_sorted by (simp add: ctx_get_by_kind_def)
next
  case (3 w n i r k)
  then show ?case
    using repo.kind_complete by (simp add: ctx_get_by_kind_def ctx_content_def ctx_rsize_def)
next
  case (4 w r ids)
  then show ?case using repo.ids_sound by (simp add: ctx_get_by_ids_def ctx_content_def)
next
  case (5 w i r)
  then show ?case using repo.content_id by (simp add: ctx_content_def)
next
  case (6 w ids)
  then show ?case using repo.delete_invar by (simp add: ctx_delete_def)
next
  case (7 w ids i)
  then show ?case using repo.delete_content by (simp add: ctx_delete_def ctx_content_def)
next
  case (8 w ns)
  then show ?case using repo.insert_invar by (simp add: ctx_insert_many_def)
next
  case (9 w rs i)
  then show ?case using repo.insert_content
    by (simp add: ctx_insert_many_def ctx_content_def split: option.split)
qed

end
