(* ===== verification/Tools.thy ===== *)
theory Tools
  imports Tool_Context
begin

text \<open>
  The tools of \<^verbatim>\<open>src/tools/\<close>: the six mutating ones (\<^verbatim>\<open>mutating.py\<close>), each a \<^verbatim>\<open>perform\<close>
  closure run under an idempotency key, and the read-only ones (\<^verbatim>\<open>readonly.py\<close>).
\<close>

definition KNOWN_TOOLS :: "string list" where
  "KNOWN_TOOLS = [''restart_service'', ''scale_service'', ''delete_records'', ''clear_cache'',
     ''apply_config_change'', ''rollback_deployment'']"

definition RECORD_KINDS :: "string list" where
  "RECORD_KINDS = [''order'', ''session'', ''cache_entry'']"

section \<open>Mutating tools\<close>

type_synonym perform = "(tool_ctx, pydict \<times> pydict) io"

abbreviation run_tool ::
  "string \<Rightarrow> string \<Rightarrow> pydict \<Rightarrow> perform \<Rightarrow> (tool_ctx, mutation_result) io" where
  "run_tool \<equiv> run_idempotent ctx_get ctx_record"

definition noop_compensation :: "string \<Rightarrow> pydict" where
  "noop_compensation reason = [(''type'', PStr ''noop''), (''reason'', PStr reason)]"

definition make_compensation :: "string \<Rightarrow> pydict \<Rightarrow> pydict" where
  "make_compensation typ args = [(''type'', PStr typ), (''args'', PDict args)]"

definition restart_perform :: "string \<Rightarrow> perform" where
  "restart_perform service = bindE (http_post service app_restart) (\<lambda>result.
     returnE (result, noop_compensation ''restart has no reversible side effect''))"

definition restart_service :: "string \<Rightarrow> string \<Rightarrow> (tool_ctx, mutation_result) io" where
  "restart_service service key =
     run_tool ''restart_service'' key [(''service'', PStr service)] (restart_perform service)"

definition scale_perform :: "(pyval \<Rightarrow> int option) \<Rightarrow> string \<Rightarrow> int \<Rightarrow> perform" where
  "scale_perform ci service n = bindE (http_post service (app_scale ci (PInt n))) (\<lambda>result.
     bindE (liftE (pd_item result ''previous_replicas'')) (\<lambda>previous.
       returnE (result, make_compensation ''scale_service''
         [(''service'', PStr service), (''replicas'', previous)])))"

definition scale_service ::
  "(pyval \<Rightarrow> int option) \<Rightarrow> string \<Rightarrow> int \<Rightarrow> string \<Rightarrow> (tool_ctx, mutation_result) io" where
  "scale_service ci service n key =
     run_tool ''scale_service'' key [(''service'', PStr service), (''replicas'', PInt n)]
       (scale_perform ci service n)"

definition row_pyval :: "db_row \<Rightarrow> pyval" where
  "row_pyval r = PDict [(''id'', PInt (r_id r)), (''kind'', PStr (r_kind r)),
                        (''payload'', PStr (r_payload r))]"

definition delete_perform :: "string \<Rightarrow> int list option \<Rightarrow> perform" where
  "delete_perform kind ids c =
     (let rows = (case ids of
                    Some is \<Rightarrow> ctx_get_by_ids c is
                  | None \<Rightarrow> ctx_get_by_kind c (Some kind) 1000000);
          ids_to_delete = map r_id rows
      in (Inr ([(''kind'', PStr kind), (''deleted_ids'', PList (map PInt ids_to_delete)),
                (''deleted_count'', PInt (int (length ids_to_delete)))],
               make_compensation ''reinsert_records'' [(''rows'', PList (map row_pyval rows))]),
          ctx_delete ids_to_delete c))"

definition ids_pyval :: "int list option \<Rightarrow> pyval" where
  "ids_pyval ids = (case ids of None \<Rightarrow> PNone | Some is \<Rightarrow> PList (map PInt is))"

definition delete_records ::
  "string \<Rightarrow> int list option \<Rightarrow> string \<Rightarrow> (tool_ctx, mutation_result) io" where
  "delete_records kind ids key =
     run_tool ''delete_records'' key [(''kind'', PStr kind), (''ids'', ids_pyval ids)]
       (delete_perform kind ids)"

definition clear_cache_perform :: "string \<Rightarrow> perform" where
  "clear_cache_perform service = bindE (http_post service app_disk_clean) (\<lambda>result.
     returnE (result, noop_compensation ''cleared cache space cannot be restored''))"

definition clear_cache :: "string \<Rightarrow> string \<Rightarrow> (tool_ctx, mutation_result) io" where
  "clear_cache service key =
     run_tool ''clear_cache'' key [(''service'', PStr service)] (clear_cache_perform service)"

definition config_perform :: "string \<Rightarrow> string \<Rightarrow> string \<Rightarrow> perform" where
  "config_perform service k v =
     bindE (http_post service (app_set_config (PStr k) (PStr v))) (\<lambda>result.
       bindE (liftE (pd_item result ''previous_value'')) (\<lambda>previous.
         returnE (result, make_compensation ''apply_config_change''
           [(''service'', PStr service), (''key'', PStr k), (''value'', previous)])))"

definition apply_config_change ::
  "string \<Rightarrow> string \<Rightarrow> string \<Rightarrow> string \<Rightarrow> (tool_ctx, mutation_result) io" where
  "apply_config_change service k v key =
     run_tool ''apply_config_change'' key
       [(''service'', PStr service), (''key'', PStr k), (''value'', PStr v)]
       (config_perform service k v)"

definition rollback_perform :: "string \<Rightarrow> perform" where
  "rollback_perform service = bindE (http_post service app_rollback) (\<lambda>result.
     bindE (liftE (pd_item result ''rolled_back_from'')) (\<lambda>version.
       returnE (result, make_compensation ''deploy''
         [(''service'', PStr service), (''version'', version)])))"

definition rollback_deployment :: "string \<Rightarrow> string \<Rightarrow> (tool_ctx, mutation_result) io" where
  "rollback_deployment service key =
     run_tool ''rollback_deployment'' key [(''service'', PStr service)] (rollback_perform service)"

section \<open>Read-only tools\<close>

definition get_service_health :: "tool_ctx \<Rightarrow> string \<Rightarrow> health_obs result" where
  "get_service_health c service = http_get service app_health c"

definition read_logs :: "string \<Rightarrow> tool_ctx \<Rightarrow> string \<Rightarrow> int \<Rightarrow> string list result" where
  "read_logs now c service limit = http_get service (app_logs now limit) c"

definition get_metrics :: "tool_ctx \<Rightarrow> string \<Rightarrow> metrics_obs result" where
  "get_metrics c service = http_get service app_metrics c"

definition query_db_readonly :: "tool_ctx \<Rightarrow> string option \<Rightarrow> int \<Rightarrow> db_row list" where
  "query_db_readonly c kind limit = ctx_get_by_kind c kind limit"

definition check_disk_usage :: "tool_ctx \<Rightarrow> string \<Rightarrow> rat result" where
  "check_disk_usage c service = http_get service app_disk c"

lemmas readonly_defs = get_service_health_def read_logs_def get_metrics_def
  query_db_readonly_def check_disk_usage_def

lemmas mutating_defs = restart_service_def scale_service_def delete_records_def clear_cache_def
  apply_config_change_def rollback_deployment_def

lemmas perform_defs = restart_perform_def scale_perform_def delete_perform_def
  clear_cache_perform_def config_perform_def rollback_perform_def

section \<open>What a perform leaves alone\<close>

text \<open>No \<^verbatim>\<open>perform\<close> touches the ledger, and each keeps the context well-formed.\<close>

definition well_behaved :: "perform \<Rightarrow> bool" where
  "well_behaved p \<longleftrightarrow> (\<forall>c. store (snd (p c)) = store c \<and> (wf_ctx c \<longrightarrow> wf_ctx (snd (p c))))"

lemma http_post_result:
  "(\<exists>e. http_post n f c = (Inl e, snd (http_post n f c))) \<or>
   (\<exists>d. http_post n f c = (Inr d, snd (http_post n f c)))"
  by (cases "fst (http_post n f c)") (metis prod.collapse)+

lemma well_behaved_post:
  assumes "\<And>s. wf_service s \<Longrightarrow> wf_service (snd (f s))"
    and "\<And>d c. snd (k d c) = c"
  shows "well_behaved (bindE (http_post n f) k)"
  unfolding well_behaved_def
proof
  fix c
  have "snd (bindE (http_post n f) k c) = snd (http_post n f c)"
    using http_post_result [of n f c] assms(2) by (auto simp: bindE_def split: prod.splits sum.splits)
  then show "store (snd (bindE (http_post n f) k c)) = store c \<and>
      (wf_ctx c \<longrightarrow> wf_ctx (snd (bindE (http_post n f) k c)))"
    using http_post_wf [of c f n] assms(1) by (simp add: frame_simps)
qed

lemma pure_tail [simp]:
  "snd (bindE (liftE r) (\<lambda>x. returnE (g x)) c) = c"
  by (cases r) (simp_all add: bindE_def)

lemma performs_well_behaved:
  "well_behaved (restart_perform s)" "well_behaved (scale_perform ci s n)"
  "well_behaved (delete_perform k ids)" "well_behaved (clear_cache_perform s)"
  "well_behaved (config_perform s k v)" "well_behaved (rollback_perform s)"
  by (auto simp: perform_defs intro!: well_behaved_post app_posts_wf)
    (auto simp: well_behaved_def delete_perform_def Let_def ctx_wf)

lemma well_behaved_store: "well_behaved p \<Longrightarrow> p c = (r, c') \<Longrightarrow> store c' = store c"
  unfolding well_behaved_def by (metis snd_conv)

lemma well_behaved_wf: "well_behaved p \<Longrightarrow> p c = (r, c') \<Longrightarrow> wf_ctx c \<Longrightarrow> wf_ctx c'"
  unfolding well_behaved_def by (metis snd_conv)

text \<open>
  Running a tool: an answer from the ledger changes nothing; otherwise the context is the one
  \<^verbatim>\<open>perform\<close> left, with the row recorded on success.
\<close>

lemma run_tool_cases:
  assumes "run_tool tool key args p c = (r, c')"
  obtains (replay) row where "ctx_get c key = Some row" "c' = c"
      "r = make_mutation_result tool key True (lr_result row) (lr_compensation row)"
  | (raises) e where "ctx_get c key = None" "p c = (Inl e, c')" "r = Inl e"
  | (first) res undo c1 where "ctx_get c key = None" "p c = (Inr (res, undo), c1)"
      "c' = ctx_record key \<lparr>lr_tool_name = tool, lr_args = args, lr_result = PDict res,
                            lr_compensation = PDict undo\<rparr> c1"
      "r = Inr \<lparr>mr_tool = tool, mr_idempotency_key = key, mr_idempotent_replay = False,
                mr_result = res, mr_compensation = undo\<rparr>"
proof (cases "ctx_get c key")
  case (Some row)
  with assms show ?thesis by (intro replay) (auto simp: ctx_ledger.run_replay)
next
  case None
  show ?thesis
  proof (cases "p c")
    case (Pair x c1)
    show ?thesis
    proof (cases x)
      case (Inl e)
      with Pair None assms show ?thesis by (intro raises) (auto simp: ctx_ledger.run_raises)
    next
      case (Inr y)
      obtain res undo where "y = (res, undo)" by (cases y)
      with Inr Pair None assms show ?thesis by (intro first) (auto simp: ctx_ledger.run_first)
    qed
  qed
qed

lemma run_tool_wf:
  "well_behaved p \<Longrightarrow> wf_ctx c \<Longrightarrow> run_tool tool key args p c = (r, c') \<Longrightarrow> wf_ctx c'"
  by (erule run_tool_cases) (auto intro: ctx_wf dest: well_behaved_wf)

text \<open>
  A call that succeeded, repeated under its key: the same result and compensation, marked as
  a replay, and an unchanged context.
\<close>

lemma run_tool_retry:
  assumes wb: "well_behaved p" and run: "run_tool tool key args p c = (Inr m, c')"
  shows "run_tool tool key args' p' c' = (Inr (m\<lparr>mr_idempotent_replay := True\<rparr>), c')"
  using run
proof (cases rule: run_tool_cases)
  case (replay row)
  from replay(3) [symmetric] have "m\<lparr>mr_idempotent_replay := True\<rparr> = m"
    by (auto simp: make_mutation_result_Inr)
  with replay show ?thesis by (simp add: ctx_ledger.run_replay)
next
  case (first res undo c1)
  from first(1,2) wb have "ctx_get c1 key = None" by (simp add: ctx_get_def well_behaved_store)
  with first show ?thesis by (simp add: ctx_ledger.run_replay ctx_ledger.get_record_new)
qed simp

text \<open>An entry of the ledger survives every later call, under whatever key.\<close>

lemma run_tool_ledger_mono:
  assumes wb: "well_behaved p" and run: "run_tool tool key args p c = (r, c')"
    and row: "ctx_get c k = Some row"
  shows "ctx_get c' k = Some row"
  using run
proof (cases rule: run_tool_cases)
  case (raises e)
  with wb row show ?thesis by (simp add: ctx_get_def well_behaved_store)
next
  case (first res undo c1)
  with wb row have "ctx_get c1 k = Some row" by (simp add: ctx_get_def well_behaved_store)
  with first(3) show ?thesis by (simp add: ctx_ledger.get_record_mono)
qed (use row in simp)

end
