(* ===== verification/Execution.thy ===== *)
theory Execution
  imports Tools
begin

text \<open>
  \<^verbatim>\<open>src/agent/execution.py\<close>: the dispatch of a proposed action to its tool, the check that it
  worked, and the compensation that undoes it.
\<close>

definition DEFAULT_SCALE_REPLICAS :: int where "DEFAULT_SCALE_REPLICAS = 2"

section \<open>Dispatch\<close>

text \<open>
  \<^verbatim>\<open>parameters.get("replicas", DEFAULT_SCALE_REPLICAS)\<close>, \<^verbatim>\<open>parameters["key"]\<close> and
  \<^verbatim>\<open>parameters.get("ids")\<close>, validated as the input schemas of \<^verbatim>\<open>src/tools/schemas.py\<close> do.
\<close>

definition param_replicas :: "(pyval \<Rightarrow> int option) \<Rightarrow> pydict \<Rightarrow> int result" where
  "param_replicas ci ps =
     (case map_of ps ''replicas'' of
        None \<Rightarrow> Inr DEFAULT_SCALE_REPLICAS
      | Some v \<Rightarrow> (case validate_int ci v of None \<Rightarrow> Inl ValidationError | Some n \<Rightarrow> Inr n))"

definition param_str :: "pydict \<Rightarrow> string \<Rightarrow> pyval result" where
  "param_str ps k = pd_item ps k"

definition param_ids :: "(pyval \<Rightarrow> int option) \<Rightarrow> pydict \<Rightarrow> int list option result" where
  "param_ids ci ps =
     (case pd_get ps ''ids'' of
        PNone \<Rightarrow> Inr None
      | PList vs \<Rightarrow>
          bindR (collect (map (\<lambda>v. case validate_int ci v of
                                     None \<Rightarrow> Inl ValidationError | Some n \<Rightarrow> Inr n) vs))
            (\<lambda>ids. Inr (Some ids))
      | _ \<Rightarrow> Inl ValidationError)"

definition execute_tool ::
  "(pyval \<Rightarrow> int option) \<Rightarrow> string \<Rightarrow> string \<Rightarrow> pydict \<Rightarrow> string \<Rightarrow> (tool_ctx, mutation_result) io" where
  "execute_tool ci tool target ps key =
     (if tool = ''restart_service'' then restart_service target key
      else if tool = ''scale_service'' then
        bindE (liftE (param_replicas ci ps)) (\<lambda>n. scale_service ci target n key)
      else if tool = ''clear_cache'' then clear_cache target key
      else if tool = ''apply_config_change'' then
        bindE (liftE (param_str ps ''key'')) (\<lambda>kv.
        bindE (liftE (param_str ps ''value'')) (\<lambda>vv.
        bindE (liftE (as_str kv)) (\<lambda>k.
        bindE (liftE (as_str vv)) (\<lambda>v. apply_config_change target k v key))))
      else if tool = ''rollback_deployment'' then rollback_deployment target key
      else if tool = ''delete_records'' then
        bindE (liftE (param_ids ci ps)) (\<lambda>ids. delete_records target ids key)
      else raiseE (ValueError (''unknown tool '' @ py_repr tool)))"

record action_outcome =
  oc_result :: pydict
  oc_compensation :: pydict

definition execute_action ::
  "(pyval \<Rightarrow> int option) \<Rightarrow> string \<Rightarrow> pydict \<Rightarrow> string \<Rightarrow> (tool_ctx, action_outcome) io" where
  "execute_action ci proposed_action ps key =
     bindE (liftE (split_action proposed_action)) (\<lambda>(tool, target).
     bindE (execute_tool ci tool target ps key) (\<lambda>outcome.
       returnE \<lparr>oc_result = mr_result outcome, oc_compensation = mr_compensation outcome\<rparr>))"

section \<open>Verification\<close>

text \<open>
  The ids of \<^verbatim>\<open>execution_result.get("deleted_ids", [])\<close>, which the code turns into a set; a
  result of this agent always holds a list of integers there.
\<close>

definition deleted_ids :: "pydict \<Rightarrow> int list" where
  "deleted_ids res =
     (case map_of res ''deleted_ids'' of
        Some (PList vs) \<Rightarrow> List.map_filter (\<lambda>v. case v of PInt i \<Rightarrow> Some i | _ \<Rightarrow> None) vs
      | _ \<Rightarrow> [])"

definition verify_action :: "tool_ctx \<Rightarrow> string \<Rightarrow> pydict \<Rightarrow> bool result" where
  "verify_action c proposed_action res =
     bindR (split_action proposed_action) (\<lambda>(tool, target).
       if tool = ''delete_records'' then
         (let ids = deleted_ids res in
          if ids = [] then Inr True
          else (let remaining = query_db_readonly c (Some target) 1000000
                in Inr (list_all (\<lambda>i. i \<notin> set (map r_id remaining)) ids)))
       else bindR (get_service_health c target) (\<lambda>health.
              Inr (h_status health = ''healthy'')))"

section \<open>Compensation\<close>

definition row_of_pyval :: "pyval \<Rightarrow> new_row result" where
  "row_of_pyval v =
     bindR (as_dict v) (\<lambda>d.
     bindR (as_int (pd_get d ''id'')) (\<lambda>i.
     bindR (as_str (pd_get d ''kind'')) (\<lambda>k.
     bindR (as_str (pd_get d ''payload'')) (\<lambda>p.
       Inr \<lparr>n_id = Some i, n_kind = k, n_payload = p\<rparr>))))"

definition compensation_post ::
  "pydict \<Rightarrow> (pydict \<Rightarrow> post result) \<Rightarrow> (tool_ctx, pydict) io" where
  "compensation_post args f =
     bindE (liftE (pd_item args ''service'')) (\<lambda>sv.
     bindE (liftE (as_str sv)) (\<lambda>service.
     bindE (\<lambda>c. (bindR (client c service) (\<lambda>_. Inr ()), c)) (\<lambda>_.
     bindE (liftE (f args)) (\<lambda>endpoint.
     bindE (http_post service endpoint) (\<lambda>result.
       returnE [(''applied'', PBool True), (''result'', PDict result)])))))"

definition apply_compensation ::
  "(pyval \<Rightarrow> int option) \<Rightarrow> pydict \<Rightarrow> (tool_ctx, pydict) io" where
  "apply_compensation ci compensation =
     (let comp_type = pd_get compensation ''type''
      in if comp_type = PStr ''noop'' then
           returnE [(''applied'', PBool False), (''reason'', pd_get compensation ''reason'')]
         else
           bindE (liftE (case map_of compensation ''args'' of
                           None \<Rightarrow> Inr [] | Some a \<Rightarrow> as_dict a)) (\<lambda>args.
             if comp_type = PStr ''scale_service'' then
               compensation_post args (\<lambda>a. bindR (pd_item a ''replicas'') (\<lambda>n. Inr (app_scale ci n)))
             else if comp_type = PStr ''apply_config_change'' then
               compensation_post args (\<lambda>a. bindR (pd_item a ''key'') (\<lambda>k.
                 bindR (pd_item a ''value'') (\<lambda>v. Inr (app_set_config k v))))
             else if comp_type = PStr ''deploy'' then
               compensation_post args (\<lambda>a. bindR (pd_item a ''version'') (\<lambda>v. Inr (app_deploy v)))
             else if comp_type = PStr ''reinsert_records'' then
               bindE (liftE (pd_item args ''rows'')) (\<lambda>rv.
               bindE (liftE (as_list rv)) (\<lambda>vs.
               bindE (liftE (collect (map row_of_pyval vs))) (\<lambda>rs c.
                 (Inr [(''applied'', PBool True),
                       (''result'', PDict [(''reinserted'', PInt (int (length rs)))])],
                  ctx_insert_many rs c))))
             else raiseE (ValueError ''unknown compensation type'')))"

end
