(* ===== verification/Observations.thy ===== *)
theory Observations
  imports Execution
begin

text \<open>
  \<^verbatim>\<open>src/agent/observations.py\<close>: the diagnostic sweep over every known service and the records
  table, made with read-only tools only. \<open>log_now\<close> gives, per service, the timestamp that
  the service's \<^verbatim>\<open>logs()\<close> reads from its clock.
\<close>

record service_obs =
  so_health :: health_obs
  so_metrics :: metrics_obs
  so_logs :: "string list"
  so_disk :: "rat option"

record observations =
  ob_services :: "(string, service_obs) dict"
  ob_records :: "db_row list"

definition observe_service :: "(string \<Rightarrow> string) \<Rightarrow> tool_ctx \<Rightarrow> string \<Rightarrow> service_obs result" where
  "observe_service log_now c service =
     bindR (get_service_health c service) (\<lambda>health.
     bindR (get_metrics c service) (\<lambda>metrics_out.
     bindR (read_logs (log_now service) c service 10) (\<lambda>lines.
     bindR (if has_disk service
            then bindR (check_disk_usage c service) (\<lambda>used. Inr (Some used))
            else Inr None) (\<lambda>disk.
       Inr \<lparr>so_health = health, so_metrics = metrics_out, so_logs = lines, so_disk = disk\<rparr>))))"

definition gather_observations :: "(string \<Rightarrow> string) \<Rightarrow> tool_ctx \<Rightarrow> observations result" where
  "gather_observations log_now c =
     bindR (collect (map (\<lambda>service. bindR (observe_service log_now c service)
                            (\<lambda>so. Inr (service, so))) KNOWN_SERVICES)) (\<lambda>services.
       Inr \<lparr>ob_services = services, ob_records = query_db_readonly c None 1000\<rparr>)"

section \<open>The sandbox\<close>

text \<open>
  A context over the sandbox of \<^verbatim>\<open>src/env/registry.py\<close>: every known service is there, under
  its own name and with the disk its role gives it.
\<close>

definition svc_identity :: "service_state \<Rightarrow> string \<times> bool" where
  "svc_identity s = (svc_name s, svc_has_disk s)"

definition sandbox :: "tool_ctx \<Rightarrow> bool" where
  "sandbox c \<longleftrightarrow> wf_ctx c \<and>
     (\<forall>n \<in> set KNOWN_SERVICES. map_option svc_identity (map_of (clients c) n) = Some (n, has_disk n))"

lemma sandbox_client:
  assumes "sandbox c" and "n \<in> set KNOWN_SERVICES"
  obtains s where "map_of (clients c) n = Some s" "svc_name s = n" "svc_has_disk s = has_disk n"
    "wf_service s"
proof -
  from assms obtain s where s: "map_of (clients c) n = Some s" "svc_identity s = (n, has_disk n)"
    by (force simp: sandbox_def)
  with assms(1) wf_ctx_client have "wf_service s" by (auto simp: sandbox_def)
  with s that show ?thesis by (simp add: svc_identity_def)
qed

lemma sandbox_wf [simp]: "sandbox c \<Longrightarrow> wf_ctx c"
  by (simp add: sandbox_def)

text \<open>No endpoint renames a service or changes whether it has a disk.\<close>

definition keeps_identity :: "post \<Rightarrow> bool" where
  "keeps_identity f \<longleftrightarrow> (\<forall>s. svc_identity (snd (f s)) = svc_identity s \<and>
     (wf_service s \<longrightarrow> wf_service (snd (f s))))"

lemma add_fault_identity [simp]: "svc_identity (add_fault f s) = svc_identity s"
  by (simp add: add_fault_def svc_identity_def)

lemma apply_fault_identity: "apply_fault f r s = Inr s' \<Longrightarrow> svc_identity s' = svc_identity s"
  by (cases f) (auto simp: svc_identity_def add_fault_def split: if_splits)

lemma rollback_identity: "rollback s = Inr (p, n, s') \<Longrightarrow> svc_identity s' = svc_identity s"
  by (auto simp: rollback_def bindR_Inr_iff clear_transient_def Let_def svc_identity_def
      split: if_splits)

lemma deploy_identity: "deploy v s = Inr (p, s') \<Longrightarrow> svc_identity s' = svc_identity s"
  by (auto simp: deploy_def bindR_Inr_iff svc_identity_def split: if_splits)

lemma clean_disk_identity: "clean_disk s = Inr s' \<Longrightarrow> svc_identity s' = svc_identity s"
  by (auto simp: clean_disk_def svc_identity_def split: if_splits)

lemma service_identity [simp]:
  "svc_identity (restart s) = svc_identity s" "svc_identity (snd (scale n s)) = svc_identity s"
  "svc_identity (snd (set_config k v s)) = svc_identity s" "svc_identity (reset s) = svc_identity s"
  by (simp_all add: svc_identity_def restart_def clear_transient_def scale_def set_config_def reset_def)

lemma app_posts_svc_identity:
  "svc_identity (snd (app_restart s)) = svc_identity s"
  "svc_identity (snd (app_scale ci v s)) = svc_identity s"
  "svc_identity (snd (app_set_config pk pv s)) = svc_identity s"
  "svc_identity (snd (app_rollback s)) = svc_identity s"
  "svc_identity (snd (app_deploy v s)) = svc_identity s"
  "svc_identity (snd (app_disk_clean s)) = svc_identity s"
  "svc_identity (snd (app_admin_fault f r s)) = svc_identity s"
  "svc_identity (snd (app_admin_reset s)) = svc_identity s"
  by (auto simp: app_post_defs Let_def split_beta
      dest!: rollback_identity deploy_identity apply_fault_identity clean_disk_identity
      split: option.split pyval.split sum.split py_error.split)

lemma app_posts_identity [simp]:
  "keeps_identity app_restart" "keeps_identity (app_scale ci v)"
  "keeps_identity (app_set_config pk pv)" "keeps_identity app_rollback"
  "keeps_identity (app_deploy v)" "keeps_identity app_disk_clean"
  "keeps_identity (app_admin_fault f r)" "keeps_identity app_admin_reset"
  by (simp_all add: keeps_identity_def app_posts_svc_identity app_posts_wf)

lemma sandbox_set_client:
  assumes "sandbox c" and n: "map_of (clients c) n = Some s" and f: "keeps_identity f"
  shows "sandbox (set_client n (snd (f s)) c)"
proof -
  from assms(1) have wf: "wf_ctx c" by simp
  then have "wf_service s" using n by (rule wf_ctx_client)
  with f wf have "wf_ctx (set_client n (snd (f s)) c)"
    by (simp add: keeps_identity_def wf_ctx_set_client)
  moreover have "map_option svc_identity (map_of (clients (set_client n (snd (f s)) c)) m) =
      map_option svc_identity (map_of (clients c) m)" for m
    using n f by (simp add: keeps_identity_def)
  ultimately show ?thesis using assms(1) unfolding sandbox_def by metis
qed

lemma sandbox_http_post [wf_intros]:
  "sandbox c \<Longrightarrow> keeps_identity f \<Longrightarrow> sandbox (snd (http_post n f c))"
  by (cases "map_of (clients c) n") (simp_all add: sandbox_set_client)

lemma sandbox_ctx_ops [wf_intros]:
  "sandbox c \<Longrightarrow> sandbox (ctx_record k r c)" "sandbox c \<Longrightarrow> sandbox (ctx_delete ids c)"
  "sandbox c \<Longrightarrow> sandbox (ctx_insert_many ns c)"
  by (simp_all add: sandbox_def ctx_wf)

section \<open>What a sweep of the sandbox returns\<close>

text \<open>What the read-only tools show of one service.\<close>

definition service_view :: "string \<Rightarrow> service_state \<Rightarrow> service_obs" where
  "service_view now s =
     \<lparr>so_health = \<lparr>h_service = svc_name s, h_status = status s, h_restart_count = restart_count s\<rparr>,
      so_metrics = \<lparr>m_service = svc_name s, m_memory_pct = memory_pct s, m_cpu_pct = cpu_pct s,
        m_error_rate = error_rate s, m_restart_count = restart_count s, m_replicas = replicas s,
        m_deployed_version = last (version_history s),
        m_disk_pct = (if svc_has_disk s then Some (disk_pct s) else None)\<rparr>,
      so_logs = logs now 10 s,
      so_disk = (if svc_has_disk s then Some (disk_pct s) else None)\<rparr>"

lemma observe_service_view:
  "map_of (clients c) n = Some s \<Longrightarrow> wf_service s \<Longrightarrow> svc_has_disk s = has_disk n \<Longrightarrow>
     observe_service log_now c n = Inr (service_view (log_now n) s)"
  by (simp add: observe_service_def readonly_defs app_health_def app_logs_def app_disk_def
      app_metrics_wf service_view_def)

lemma collect_tagged:
  "(\<And>n. n \<in> set ns \<Longrightarrow> f n = Inr (g n)) \<Longrightarrow>
     collect (map (\<lambda>n. bindR (f n) (\<lambda>so. Inr (n, so))) ns) = Inr (map (\<lambda>n. (n, g n)) ns)"
  by (induction ns) auto

lemma map_of_tagged: "map_of (map (\<lambda>n. (n, g n)) ns) n = (if n \<in> set ns then Some (g n) else None)"
  by (induction ns) auto

text \<open>A sweep that covers the sandbox: all known services, a disk reading where there is a disk.\<close>

definition full_sweep :: "observations \<Rightarrow> bool" where
  "full_sweep ob \<longleftrightarrow> map fst (ob_services ob) = KNOWN_SERVICES \<and>
     (\<forall>n \<in> set KNOWN_SERVICES. map_option (\<lambda>so. so_disk so \<noteq> None) (map_of (ob_services ob) n)
        = Some (has_disk n))"

lemma gather_sandbox:
  assumes "sandbox c"
  obtains ob where "gather_observations log_now c = Inr ob" "full_sweep ob"
    "ob_records ob = query_db_readonly c None 1000"
    "\<And>n s. n \<in> set KNOWN_SERVICES \<Longrightarrow> map_of (clients c) n = Some s \<Longrightarrow>
       map_of (ob_services ob) n = Some (service_view (log_now n) s)"
proof -
  let ?g = "\<lambda>n. service_view (log_now n) (the (map_of (clients c) n))"
  let ?ob = "\<lparr>ob_services = map (\<lambda>n. (n, ?g n)) KNOWN_SERVICES,
              ob_records = query_db_readonly c None 1000\<rparr>"
  have view: "observe_service log_now c n = Inr (?g n) \<and>
      ((so_disk (?g n) \<noteq> None) = has_disk n)" if n: "n \<in> set KNOWN_SERVICES" for n
  proof -
    obtain s where "map_of (clients c) n = Some s" "svc_has_disk s = has_disk n" "wf_service s"
      using assms n by (rule sandbox_client)
    then show ?thesis by (simp add: observe_service_view) (simp add: service_view_def)
  qed
  have "gather_observations log_now c = Inr ?ob"
    using collect_tagged [of KNOWN_SERVICES "observe_service log_now c" ?g] view
    by (simp add: gather_observations_def)
  moreover have "full_sweep ?ob"
    using view by (simp add: full_sweep_def map_of_tagged comp_def)
  ultimately show ?thesis by (rule that) (simp_all add: map_of_tagged)
qed

lemma gather_full_sweep: "sandbox c \<Longrightarrow> \<exists>ob. gather_observations log_now c = Inr ob \<and> full_sweep ob"
  by (erule gather_sandbox [of _ log_now]) blast

lemma full_sweep_service:
  assumes "full_sweep ob" and "n \<in> set KNOWN_SERVICES"
  obtains so where "map_of (ob_services ob) n = Some so" "(so_disk so \<noteq> None) = has_disk n"
  using assms by (force simp: full_sweep_def)

lemma full_sweep_unknown:
  "full_sweep ob \<Longrightarrow> n \<notin> set KNOWN_SERVICES \<Longrightarrow> map_of (ob_services ob) n = None"
  unfolding full_sweep_def map_of_eq_None_iff by (metis set_map)

end
