(* ===== verification/Fingerprint.thy ===== *)
theory Fingerprint
  imports Observations "HOL-Library.Multiset"
begin

text \<open>
  \<^verbatim>\<open>src/revalidation/fingerprint.py\<close>: which observed fields an action depends on, the check
  that a proposal names something real, and the fingerprint that revalidation compares. The
  printing of floats (\<open>fr\<close>) and the truncated SHA-256 digest (\<open>digest\<close>) are parameters.
\<close>

section \<open>The fields an action depends on\<close>

definition health_dict :: "health_obs \<Rightarrow> pydict" where
  "health_dict h = [(''service'', PStr (h_service h)), (''status'', PStr (h_status h)),
     (''restart_count'', PInt (h_restart_count h))]"

definition metrics_dict :: "metrics_obs \<Rightarrow> pydict" where
  "metrics_dict m = [(''service'', PStr (m_service m)), (''memory_pct'', PFloat (m_memory_pct m)),
     (''cpu_pct'', PFloat (m_cpu_pct m)), (''error_rate'', PFloat (m_error_rate m)),
     (''restart_count'', PInt (m_restart_count m)), (''replicas'', PInt (m_replicas m)),
     (''deployed_version'', PStr (m_deployed_version m)),
     (''disk_pct'', case m_disk_pct m of None \<Rightarrow> PNone | Some x \<Rightarrow> PFloat x)]"

definition service_item :: "observations \<Rightarrow> string \<Rightarrow> service_obs result" where
  "service_item ob service = dict_get (ob_services ob) service (KeyError service)"

definition service_fields :: "observations \<Rightarrow> string \<Rightarrow> string list \<Rightarrow> pydict result" where
  "service_fields ob service fnames =
     bindR (service_item ob service) (\<lambda>so.
       let combined = AList.updates (map fst (metrics_dict (so_metrics so)))
                        (map snd (metrics_dict (so_metrics so))) (health_dict (so_health so))
       in collect (map (\<lambda>field. bindR (pd_item combined field) (\<lambda>v. Inr (field, v))) fnames))"

definition relevant_fields :: "observations \<Rightarrow> string \<Rightarrow> string \<Rightarrow> pydict result" where
  "relevant_fields ob tool target =
     (if tool \<in> {''restart_service'', ''scale_service''} then
        service_fields ob target [''status'', ''memory_pct'', ''cpu_pct'', ''error_rate'']
      else if tool = ''clear_cache'' then
        bindR (service_item ob target) (\<lambda>so.
          case so_disk so of
            None \<Rightarrow> Inl (KeyError ''disk'')
          | Some used \<Rightarrow> Inr [(''disk_pct'', PFloat used)])
      else if tool = ''rollback_deployment'' then
        service_fields ob target [''status'', ''deployed_version'']
      else if tool = ''apply_config_change'' then service_fields ob target [''status'']
      else if tool = ''delete_records'' then
        (let matching = sort (map r_id [r \<leftarrow> ob_records ob. r_kind r = target])
         in Inr [(''kind'', PStr target), (''ids'', PList (map PInt matching))])
      else Inl (ValueError (''unknown tool '' @ py_repr tool)))"

section \<open>Validation and fingerprint\<close>

definition validate_proposal :: "observations \<Rightarrow> string \<Rightarrow> string option result" where
  "validate_proposal ob proposed_action =
     bindR (split_action proposed_action) (\<lambda>(tool, target). Inr
       (if tool \<notin> set KNOWN_TOOLS then Some (py_repr tool @ '' is not a known tool'')
        else if tool = ''delete_records'' then
          (if target \<notin> set RECORD_KINDS then Some (py_repr target @ '' is not a known record kind'')
           else None)
        else (case map_of (ob_services ob) target of
            None \<Rightarrow> Some (py_repr target @ '' is not a known service'')
          | Some so \<Rightarrow>
              (if tool = ''clear_cache'' \<and> so_disk so = None
               then Some (py_repr target @
                 '' has no disk surface; clear_cache doesn'' @ [CHR 0x27] @ ''t apply to it'')
               else None))))"

definition compute_fingerprint ::
  "(rat \<Rightarrow> string) \<Rightarrow> (string \<Rightarrow> string) \<Rightarrow> observations \<Rightarrow> string \<Rightarrow> string result" where
  "compute_fingerprint fr digest ob proposed_action =
     bindR (split_action proposed_action) (\<lambda>(tool, target).
     bindR (relevant_fields ob tool target) (\<lambda>fnames.
       Inr (digest (json_dumps True fr (PDict fnames)))))"

lemmas fingerprint_defs = service_fields_def relevant_fields_def service_item_def
  health_dict_def metrics_dict_def

section \<open>A valid proposal has a fingerprint\<close>

lemma combined_dict:
  "AList.updates (map fst (metrics_dict m)) (map snd (metrics_dict m)) (health_dict h) =
     [(''service'', PStr (m_service m)), (''status'', PStr (h_status h)),
      (''restart_count'', PInt (m_restart_count m)), (''memory_pct'', PFloat (m_memory_pct m)),
      (''cpu_pct'', PFloat (m_cpu_pct m)), (''error_rate'', PFloat (m_error_rate m)),
      (''replicas'', PInt (m_replicas m)), (''deployed_version'', PStr (m_deployed_version m)),
      (''disk_pct'', case m_disk_pct m of None \<Rightarrow> PNone | Some x \<Rightarrow> PFloat x)]"
  by (simp add: metrics_dict_def health_dict_def)

lemma service_fields_known:
  assumes "map_of (ob_services ob) n = Some so"
  shows "service_fields ob n [''status'', ''memory_pct'', ''cpu_pct'', ''error_rate''] = Inr
      [(''status'', PStr (h_status (so_health so))),
       (''memory_pct'', PFloat (m_memory_pct (so_metrics so))),
       (''cpu_pct'', PFloat (m_cpu_pct (so_metrics so))),
       (''error_rate'', PFloat (m_error_rate (so_metrics so)))]"
    and "service_fields ob n [''status'', ''deployed_version''] = Inr
      [(''status'', PStr (h_status (so_health so))),
       (''deployed_version'', PStr (m_deployed_version (so_metrics so)))]"
    and "service_fields ob n [''status''] = Inr [(''status'', PStr (h_status (so_health so)))]"
  using assms by (simp_all add: service_fields_def service_item_def combined_dict Let_def pd_item_def)

text \<open>Which tool reads which fields.\<close>

lemma relevant_fields_of:
  "relevant_fields ob ''restart_service'' n =
     service_fields ob n [''status'', ''memory_pct'', ''cpu_pct'', ''error_rate'']"
  "relevant_fields ob ''scale_service'' n =
     service_fields ob n [''status'', ''memory_pct'', ''cpu_pct'', ''error_rate'']"
  "relevant_fields ob ''rollback_deployment'' n = service_fields ob n [''status'', ''deployed_version'']"
  "relevant_fields ob ''apply_config_change'' n = service_fields ob n [''status'']"
  "relevant_fields ob ''clear_cache'' n = bindR (service_item ob n) (\<lambda>so.
     case so_disk so of None \<Rightarrow> Inl (KeyError ''disk'') | Some used \<Rightarrow> Inr [(''disk_pct'', PFloat used)])"
  "relevant_fields ob ''delete_records'' n = Inr [(''kind'', PStr n),
     (''ids'', PList (map PInt (sort (map r_id [r \<leftarrow> ob_records ob. r_kind r = n]))))]"
  by (simp_all add: relevant_fields_def Let_def)

lemma known_tool_cases:
  assumes "tool \<in> set KNOWN_TOOLS"
  obtains "tool = ''restart_service''" | "tool = ''scale_service''" | "tool = ''delete_records''"
    | "tool = ''clear_cache''" | "tool = ''apply_config_change''" | "tool = ''rollback_deployment''"
proof -
  from assms have "tool = ''restart_service'' \<or> tool = ''scale_service'' \<or> tool = ''delete_records'' \<or>
      tool = ''clear_cache'' \<or> tool = ''apply_config_change'' \<or> tool = ''rollback_deployment''"
    by (simp only: KNOWN_TOOLS_def list.set insert_iff empty_iff simp_thms)
  then show ?thesis
    by (elim disjE) (erule that(1), erule that(2), erule that(3), erule that(4), erule that(5), erule that(6))
qed

lemma validate_None_iff:
  "split_action a = Inr (tool, target) \<Longrightarrow>
     validate_proposal ob a = Inr None \<longleftrightarrow> tool \<in> set KNOWN_TOOLS \<and>
       (if tool = ''delete_records'' then target \<in> set RECORD_KINDS
        else \<exists>so. map_of (ob_services ob) target = Some so \<and>
               (tool = ''clear_cache'' \<longrightarrow> so_disk so \<noteq> None))"
  by (simp add: validate_proposal_def split: option.split)

lemma validate_Inl: "split_action a = Inl e \<Longrightarrow> validate_proposal ob a = Inl e"
  by (simp add: validate_proposal_def)

lemma relevant_fields_total:
  assumes "tool \<in> set KNOWN_TOOLS"
    and "tool \<noteq> ''delete_records'' \<Longrightarrow> \<exists>so. map_of (ob_services ob) target = Some so \<and>
           (tool = ''clear_cache'' \<longrightarrow> so_disk so \<noteq> None)"
  shows "\<exists>fs. relevant_fields ob tool target = Inr fs"
proof (cases "tool = ''delete_records''")
  case True
  then show ?thesis by (simp add: relevant_fields_of)
next
  case False
  with assms(2) obtain so where so: "map_of (ob_services ob) target = Some so"
    and disk: "tool = ''clear_cache'' \<longrightarrow> so_disk so \<noteq> None" by blast
  note sf = service_fields_known [OF so]
  from assms(1) show ?thesis
  proof (cases rule: known_tool_cases)
    case 4
    with disk obtain x where "so_disk so = Some x" by auto
    with 4 so show ?thesis by (simp add: relevant_fields_of service_item_def)
  qed (simp_all add: relevant_fields_of sf)
qed

lemma valid_has_fingerprint:
  assumes "validate_proposal ob a = Inr None"
  shows "\<exists>fp. compute_fingerprint fr digest ob a = Inr fp"
proof (cases "split_action a")
  case (Inl e)
  with assms show ?thesis by (simp add: validate_Inl)
next
  case (Inr p)
  obtain tool target where p: "p = (tool, target)" by (cases p)
  with Inr assms have v: "tool \<in> set KNOWN_TOOLS"
    "tool \<noteq> ''delete_records'' \<Longrightarrow> \<exists>so. map_of (ob_services ob) target = Some so \<and>
           (tool = ''clear_cache'' \<longrightarrow> so_disk so \<noteq> None)"
    using validate_None_iff [of a tool target ob] by (simp_all split: if_splits)
  obtain fs where "relevant_fields ob tool target = Inr fs"
    using relevant_fields_total [OF v] by blast
  with Inr p show ?thesis by (simp add: compute_fingerprint_def)
qed

text \<open>On a full sweep the check accepts exactly the actions whose tool applies to their target.\<close>

definition grounded :: "string \<Rightarrow> string \<Rightarrow> bool" where
  "grounded tool target \<longleftrightarrow> tool \<in> set KNOWN_TOOLS \<and>
     (if tool = ''delete_records'' then target \<in> set RECORD_KINDS
      else if tool = ''clear_cache'' then target \<in> set KNOWN_SERVICES \<and> has_disk target
      else target \<in> set KNOWN_SERVICES)"

lemma validate_full_sweep:
  assumes ob: "full_sweep ob" and sp: "split_action a = Inr (tool, target)"
  shows "validate_proposal ob a = Inr None \<longleftrightarrow> grounded tool target"
proof (cases "target \<in> set KNOWN_SERVICES")
  case True
  with ob obtain so where "map_of (ob_services ob) target = Some so" "(so_disk so \<noteq> None) = has_disk target"
    by (rule full_sweep_service)
  with True show ?thesis unfolding validate_None_iff [OF sp] grounded_def by simp
next
  case False
  with ob have "map_of (ob_services ob) target = None" by (rule full_sweep_unknown)
  with False show ?thesis unfolding validate_None_iff [OF sp] grounded_def by simp
qed

lemma validate_total: "split_action a = Inr p \<Longrightarrow> \<exists>r. validate_proposal ob a = Inr r"
  by (cases p) (simp add: validate_proposal_def)

section \<open>Scope\<close>

text \<open>
  Two sweeps that agree on the fields an action depends on have the same fingerprint, whatever
  happened elsewhere; a digest that tells the two canonical texts apart shows the rest.
\<close>

definition same_dependencies :: "observations \<Rightarrow> observations \<Rightarrow> string \<Rightarrow> string \<Rightarrow> bool" where
  "same_dependencies ob ob' tool target \<longleftrightarrow> relevant_fields ob tool target = relevant_fields ob' tool target"

lemma fingerprint_congr:
  "split_action a = Inr (tool, target) \<Longrightarrow> same_dependencies ob ob' tool target \<Longrightarrow>
     compute_fingerprint fr digest ob a = compute_fingerprint fr digest ob' a"
  by (simp add: compute_fingerprint_def same_dependencies_def)

lemma service_scope:
  "tool \<noteq> ''delete_records'' \<Longrightarrow> map_of (ob_services ob) target = map_of (ob_services ob') target \<Longrightarrow>
     same_dependencies ob ob' tool target"
  by (simp add: same_dependencies_def relevant_fields_def service_fields_def service_item_def dict_get_def)

lemma scope_of_views:
  assumes "tool \<noteq> ''delete_records''"
    and "map_of (ob_services ob) target = Some so" and "map_of (ob_services ob') target = Some so'"
    and "so_health so = so_health so'" and "so_metrics so = so_metrics so'" and "so_disk so = so_disk so'"
  shows "same_dependencies ob ob' tool target"
  using assms by (simp add: same_dependencies_def relevant_fields_def service_fields_def service_item_def)

text \<open>
  Two sweeps that show the target service in the same state, whenever they were taken: the log
  lines are the only part of a service's view that depends on the time.
\<close>

lemma view_fingerprint:
  assumes "split_action a = Inr (tool, target)" and "tool \<noteq> ''delete_records''"
    and "map_of (ob_services ob) target = Some (service_view now s)"
    and "map_of (ob_services ob') target = Some (service_view now' s)"
  shows "compute_fingerprint fr digest ob a = compute_fingerprint fr digest ob' a"
  by (rule fingerprint_congr [OF assms(1)], rule scope_of_views [OF assms(2-4)])
    (simp_all add: service_view_def)

lemma sweep_fingerprint:
  assumes "sandbox c" and "sandbox c'" and "target \<in> set KNOWN_SERVICES"
    and "map_of (clients c) target = map_of (clients c') target"
    and "gather_observations lg c = Inr ob" and "gather_observations lg' c' = Inr ob'"
    and "split_action a = Inr (tool, target)" and "tool \<noteq> ''delete_records''"
  shows "compute_fingerprint fr digest ob a = compute_fingerprint fr digest ob' a"
proof -
  obtain s where s: "map_of (clients c) target = Some s" using sandbox_client [OF assms(1,3)] by blast
  have "map_of (ob_services ob) target = Some (service_view (lg target) s)"
    using gather_sandbox [OF assms(1), of lg] assms(3,5) s by force
  moreover have "map_of (ob_services ob') target = Some (service_view (lg' target) s)"
    using gather_sandbox [OF assms(2), of lg'] assms(3,4,6) s by force
  ultimately show ?thesis by (rule view_fingerprint [OF assms(7,8)])
qed

lemma sort_mset_eq: "mset xs = mset ys \<Longrightarrow> sort xs = sort (ys :: int list)"
  by (metis properties_for_sort mset_sort sorted_sort)

lemma records_scope:
  "mset (map r_id [r \<leftarrow> ob_records ob. r_kind r = k]) =
     mset (map r_id [r \<leftarrow> ob_records ob'. r_kind r = k]) \<Longrightarrow>
   same_dependencies ob ob' ''delete_records'' k"
  unfolding same_dependencies_def relevant_fields_of by (drule sort_mset_eq) (simp only:)

end
