(* ===== verification/Risk.thy ===== *)
theory Risk
  imports Fingerprint
begin

text \<open>
  \<^verbatim>\<open>src/risk/schemas.py\<close> and \<^verbatim>\<open>src/risk/policy.py\<close>: the risk tiers, the features of the target
  that the classifier sees, and the deterministic policy applied on top of the classifier's
  tier.
\<close>

datatype risk_tier = LOW | MEDIUM | HIGH

fun risk_tier_value :: "risk_tier \<Rightarrow> string" where
  "risk_tier_value LOW = ''low''"
| "risk_tier_value MEDIUM = ''medium''"
| "risk_tier_value HIGH = ''high''"

instantiation risk_tier :: linorder
begin

fun tier_rank :: "risk_tier \<Rightarrow> nat" where
  "tier_rank LOW = 0"
| "tier_rank MEDIUM = 1"
| "tier_rank HIGH = 2"

definition less_eq_risk_tier :: "risk_tier \<Rightarrow> risk_tier \<Rightarrow> bool" where
  "less_eq_risk_tier a b \<longleftrightarrow> tier_rank a \<le> tier_rank b"

definition less_risk_tier :: "risk_tier \<Rightarrow> risk_tier \<Rightarrow> bool" where
  "less_risk_tier a b \<longleftrightarrow> tier_rank a < tier_rank b"

instance
proof
  fix a b :: risk_tier
  show "a \<le> b \<Longrightarrow> b \<le> a \<Longrightarrow> a = b"
    by (cases a; cases b) (simp_all add: less_eq_risk_tier_def)
qed (auto simp: less_eq_risk_tier_def less_risk_tier_def)

end

record classification =
  cl_tier :: risk_tier
  cl_rationale :: string

definition FORCED_HIGH_TOOLS :: "string list" where
  "FORCED_HIGH_TOOLS = [''delete_records'', ''rollback_deployment'']"

definition MIN_REDUNDANT_REPLICAS :: int where "MIN_REDUNDANT_REPLICAS = 2"

record situational =
  sf_replicas :: int
  sf_restart_count_this_run :: int
  sf_error_rate :: rat
  sf_memory_pct :: rat
  sf_cpu_pct :: rat
  sf_disk_pct :: "rat option"
  sf_has_redundant_replica :: bool

definition situational_features :: "observations \<Rightarrow> string \<Rightarrow> situational option result" where
  "situational_features ob proposed_action =
     bindR (split_action proposed_action) (\<lambda>(tool, target). Inr
       (if tool = ''delete_records'' then None
        else (case map_of (ob_services ob) target of
            None \<Rightarrow> None
          | Some so \<Rightarrow> (let m = so_metrics so in Some
              \<lparr>sf_replicas = m_replicas m, sf_restart_count_this_run = m_restart_count m,
               sf_error_rate = m_error_rate m, sf_memory_pct = m_memory_pct m,
               sf_cpu_pct = m_cpu_pct m, sf_disk_pct = m_disk_pct m,
               sf_has_redundant_replica = (m_replicas m \<ge> MIN_REDUNDANT_REPLICAS)\<rparr>))))"

definition apply_policy :: "string \<Rightarrow> risk_tier \<Rightarrow> situational option \<Rightarrow> risk_tier" where
  "apply_policy tool llm_tier sit =
     (if tool \<in> set FORCED_HIGH_TOOLS then HIGH
      else if llm_tier = LOW \<and>
        (case sit of
           None \<Rightarrow> False
         | Some sf \<Rightarrow> \<not> sf_has_redundant_replica sf \<and> sf_restart_count_this_run sf \<ge> 1)
      then MEDIUM
      else llm_tier)"

section \<open>What the policy guarantees\<close>

text \<open>The policy never lowers a tier.\<close>

lemma policy_raises: "llm_tier \<le> apply_policy tool llm_tier sit"
  by (cases llm_tier) (auto simp: apply_policy_def less_eq_risk_tier_def)

lemma policy_forced: "tool \<in> set FORCED_HIGH_TOOLS \<Longrightarrow> apply_policy tool t sit = HIGH"
  by (simp add: apply_policy_def)

lemma policy_low_iff:
  "apply_policy tool t sit = LOW \<longleftrightarrow> tool \<notin> set FORCED_HIGH_TOOLS \<and> t = LOW \<and>
     (\<forall>sf. sit = Some sf \<longrightarrow> sf_has_redundant_replica sf \<or> sf_restart_count_this_run sf < 1)"
  by (cases sit) (auto simp: apply_policy_def)

lemma policy_monotone: "t \<le> t' \<Longrightarrow> apply_policy tool t sit \<le> apply_policy tool t' sit"
  by (cases t; cases t') (auto simp: apply_policy_def less_eq_risk_tier_def)

lemma policy_idem: "apply_policy tool (apply_policy tool t sit) sit = apply_policy tool t sit"
  by (auto simp: apply_policy_def)

text \<open>
  The flag that \<^verbatim>\<open>classify_risk\<close> computes from the two tiers says exactly that the floor of the
  policy was what raised the tier.
\<close>

lemma floor_flag:
  "t = LOW \<and> apply_policy tool t sit = MEDIUM \<longleftrightarrow>
     tool \<notin> set FORCED_HIGH_TOOLS \<and> t = LOW \<and>
     (\<exists>sf. sit = Some sf \<and> \<not> sf_has_redundant_replica sf \<and> sf_restart_count_this_run sf \<ge> 1)"
  by (cases sit) (auto simp: apply_policy_def)

lemma situational_total: "split_action a = Inr p \<Longrightarrow> \<exists>s. situational_features ob a = Inr s"
  by (cases p) (simp add: situational_features_def)

lemma situational_of_sweep:
  assumes "split_action a = Inr (tool, target)" and "tool \<noteq> ''delete_records''"
    and "map_of (ob_services ob) target = Some (service_view now s)"
  shows "situational_features ob a = Inr (Some
     \<lparr>sf_replicas = replicas s, sf_restart_count_this_run = restart_count s,
      sf_error_rate = error_rate s, sf_memory_pct = memory_pct s, sf_cpu_pct = cpu_pct s,
      sf_disk_pct = (if svc_has_disk s then Some (disk_pct s) else None),
      sf_has_redundant_replica = (replicas s \<ge> MIN_REDUNDANT_REPLICAS)\<rparr>)"
  using assms by (simp add: situational_features_def service_view_def Let_def)

end
