(* ===== verification/Agent_State.thy ===== *)
theory Agent_State
  imports Risk
begin

text \<open>
  \<^verbatim>\<open>src/agent/state.py\<close> and \<^verbatim>\<open>src/agent/runtime.py\<close>: the persisted state of a run, the named
  states of the diagram, the partial updates that nodes return and their merge into the
  state, and the run-scoped dependencies. A key that is missing and one that holds
  \<^verbatim>\<open>None\<close> are both \<open>None\<close> here; no node subscripts a key that holds \<^verbatim>\<open>None\<close>, except the
  fingerprint, which is only compared.
\<close>

definition MAX_REPLAN_CYCLES :: int where "MAX_REPLAN_CYCLES = 3"

datatype wf_state = CREATED | DIAGNOSING | ACTION_PROPOSED | RISK_CLASSIFIED | AWAITING_APPROVAL
  | REVALIDATING | REPLANNING | EXECUTING | VERIFYING | ROLLING_BACK | ROLLED_BACK | ESCALATED
  | COMPLETED

fun state_value :: "wf_state \<Rightarrow> string" where
  "state_value CREATED = ''CREATED''"
| "state_value DIAGNOSING = ''DIAGNOSING''"
| "state_value ACTION_PROPOSED = ''ACTION_PROPOSED''"
| "state_value RISK_CLASSIFIED = ''RISK_CLASSIFIED''"
| "state_value AWAITING_APPROVAL = ''AWAITING_APPROVAL''"
| "state_value REVALIDATING = ''REVALIDATING''"
| "state_value REPLANNING = ''REPLANNING''"
| "state_value EXECUTING = ''EXECUTING''"
| "state_value VERIFYING = ''VERIFYING''"
| "state_value ROLLING_BACK = ''ROLLING_BACK''"
| "state_value ROLLED_BACK = ''ROLLED_BACK''"
| "state_value ESCALATED = ''ESCALATED''"
| "state_value COMPLETED = ''COMPLETED''"

datatype approval_decision = Approved | Edited | Rejected | Timeout

fun decision_value :: "approval_decision \<Rightarrow> string" where
  "decision_value Approved = ''approved''"
| "decision_value Edited = ''edited''"
| "decision_value Rejected = ''rejected''"
| "decision_value Timeout = ''timeout''"

record agent_state =
  st_run_id :: "string option"
  st_scenario_id :: "string option"
  st_status :: "wf_state option"
  st_observations :: "observations option"
  st_diagnosis :: "string option"
  st_proposed_action :: "string option"
  st_action_parameters :: "pydict option"
  st_action_rationale :: "string option"
  st_state_fingerprint :: "string option"
  st_invalid_proposal_reason :: "string option"
  st_risk_tier_llm :: "risk_tier option"
  st_risk_tier_final :: "risk_tier option"
  st_risk_rationale :: "string option"
  st_redundancy_floor_applied :: "bool option"
  st_approval_decision :: "approval_decision option"
  st_approver_id :: "string option"
  st_drift_detected :: "bool option"
  st_idempotency_key :: "string option"
  st_execution_result :: "pydict option"
  st_verification_passed :: "bool option"
  st_compensation :: "pydict option"
  st_rollback_result :: "pydict option"
  st_replan_cycles :: "int option"
  st_replan_context :: "string option"
  st_final_state :: "wf_state option"

definition empty_state :: agent_state where
  "empty_state = \<lparr>st_run_id = None, st_scenario_id = None, st_status = None,
     st_observations = None, st_diagnosis = None, st_proposed_action = None,
     st_action_parameters = None, st_action_rationale = None, st_state_fingerprint = None,
     st_invalid_proposal_reason = None, st_risk_tier_llm = None, st_risk_tier_final = None,
     st_risk_rationale = None, st_redundancy_floor_applied = None, st_approval_decision = None,
     st_approver_id = None, st_drift_detected = None, st_idempotency_key = None,
     st_execution_result = None, st_verification_passed = None, st_compensation = None,
     st_rollback_result = None, st_replan_cycles = None, st_replan_context = None,
     st_final_state = None\<rparr>"

section \<open>Updates\<close>

text \<open>One entry of the dictionary that a node returns.\<close>

datatype entry =
    Status wf_state
  | Observations observations
  | Diagnosis string
  | Proposed_action string
  | Action_parameters pydict
  | Action_rationale string
  | State_fingerprint "string option"
  | Invalid_proposal_reason "string option"
  | Risk_tier_llm risk_tier
  | Risk_tier_final risk_tier
  | Risk_rationale string
  | Redundancy_floor_applied bool
  | Approval_decision approval_decision
  | Approver_id "string option"
  | Drift_detected bool
  | Idempotency_key string
  | Execution_result pydict
  | Verification_passed bool
  | Compensation pydict
  | Rollback_result pydict
  | Replan_cycles int
  | Replan_context string
  | Final_state wf_state

type_synonym update = "entry list"

fun set_entry :: "entry \<Rightarrow> agent_state \<Rightarrow> agent_state" where
  "set_entry (Status x) st = st\<lparr>st_status := Some x\<rparr>"
| "set_entry (Observations x) st = st\<lparr>st_observations := Some x\<rparr>"
| "set_entry (Diagnosis x) st = st\<lparr>st_diagnosis := Some x\<rparr>"
| "set_entry (Proposed_action x) st = st\<lparr>st_proposed_action := Some x\<rparr>"
| "set_entry (Action_parameters x) st = st\<lparr>st_action_parameters := Some x\<rparr>"
| "set_entry (Action_rationale x) st = st\<lparr>st_action_rationale := Some x\<rparr>"
| "set_entry (State_fingerprint x) st = st\<lparr>st_state_fingerprint := x\<rparr>"
| "set_entry (Invalid_proposal_reason x) st = st\<lparr>st_invalid_proposal_reason := x\<rparr>"
| "set_entry (Risk_tier_llm x) st = st\<lparr>st_risk_tier_llm := Some x\<rparr>"
| "set_entry (Risk_tier_final x) st = st\<lparr>st_risk_tier_final := Some x\<rparr>"
| "set_entry (Risk_rationale x) st = st\<lparr>st_risk_rationale := Some x\<rparr>"
| "set_entry (Redundancy_floor_applied x) st = st\<lparr>st_redundancy_floor_applied := Some x\<rparr>"
| "set_entry (Approval_decision x) st = st\<lparr>st_approval_decision := Some x\<rparr>"
| "set_entry (Approver_id x) st = st\<lparr>st_approver_id := x\<rparr>"
| "set_entry (Drift_detected x) st = st\<lparr>st_drift_detected := Some x\<rparr>"
| "set_entry (Idempotency_key x) st = st\<lparr>st_idempotency_key := Some x\<rparr>"
| "set_entry (Execution_result x) st = st\<lparr>st_execution_result := Some x\<rparr>"
| "set_entry (Verification_passed x) st = st\<lparr>st_verification_passed := Some x\<rparr>"
| "set_entry (Compensation x) st = st\<lparr>st_compensation := Some x\<rparr>"
| "set_entry (Rollback_result x) st = st\<lparr>st_rollback_result := Some x\<rparr>"
| "set_entry (Replan_cycles x) st = st\<lparr>st_replan_cycles := Some x\<rparr>"
| "set_entry (Replan_context x) st = st\<lparr>st_replan_context := Some x\<rparr>"
| "set_entry (Final_state x) st = st\<lparr>st_final_state := Some x\<rparr>"

text \<open>\<^verbatim>\<open>{**state, **update}\<close>\<close>

definition merge :: "agent_state \<Rightarrow> update \<Rightarrow> agent_state" where
  "merge st u = fold set_entry u st"

lemma merge_simps [simp]:
  "merge st [] = st"
  "merge st (e # u) = merge (set_entry e st) u"
  "merge st (u @ v) = merge (merge st u) v"
  by (simp_all add: merge_def)

lemma merge_run_id [simp]: "st_run_id (merge st u) = st_run_id st"
proof (induction u arbitrary: st)
  case (Cons e u)
  then show ?case by (cases e) simp_all
qed simp

text \<open>\<^verbatim>\<open>update.get(key)\<close> for the keys that the audit reads from the update alone.\<close>

fun entry_approver_id :: "entry \<Rightarrow> string option" where
  "entry_approver_id (Approver_id x) = x"
| "entry_approver_id _ = None"

fun entry_decision :: "entry \<Rightarrow> approval_decision option" where
  "entry_decision (Approval_decision d) = Some d"
| "entry_decision _ = None"

fun entry_action_rationale :: "entry \<Rightarrow> string option" where
  "entry_action_rationale (Action_rationale r) = Some r"
| "entry_action_rationale _ = None"

fun entry_risk_rationale :: "entry \<Rightarrow> string option" where
  "entry_risk_rationale (Risk_rationale r) = Some r"
| "entry_risk_rationale _ = None"

fun entry_replan_context :: "entry \<Rightarrow> string option" where
  "entry_replan_context (Replan_context r) = Some r"
| "entry_replan_context _ = None"

definition update_get :: "(entry \<Rightarrow> 'a option) \<Rightarrow> update \<Rightarrow> 'a option" where
  "update_get f u = (case List.map_filter f u of [] \<Rightarrow> None | x # _ \<Rightarrow> Some x)"

lemma update_get_simps [simp]:
  "update_get f [] = None"
  "update_get f (e # u) = (case f e of None \<Rightarrow> update_get f u | Some x \<Rightarrow> Some x)"
  by (simp_all add: update_get_def List.map_filter_def split: option.split)

text \<open>\<^verbatim>\<open>state[key]\<close>\<close>

definition need :: "string \<Rightarrow> 'a option \<Rightarrow> 'a result" where
  "need k v = (case v of None \<Rightarrow> Inl (KeyError k) | Some x \<Rightarrow> Inr x)"

lemma need_simps [simp]: "need k None = Inl (KeyError k)" "need k (Some x) = Inr x"
  by (simp_all add: need_def)

lemma need_Inr: "need k v = Inr x \<longleftrightarrow> v = Some x"
  by (simp add: need_def split: option.splits)

section \<open>The dependencies of a run\<close>

text \<open>
  \<^verbatim>\<open>AgentRuntimeContext\<close>: the diagnosis reasoner and the risk classifier, which call a language
  model, and what the code takes from outside (the clock, the printing of floats, SHA-256,
  pydantic's coercions). Every node execution has a number, on which their answers may
  depend.
\<close>

record proposal =
  pr_tool :: string
  pr_target :: string
  pr_parameters :: "pydict option"
  pr_rationale :: string

record runtime =
  rt_clock :: "nat \<Rightarrow> string"
  rt_log_clock :: "nat \<Rightarrow> string \<Rightarrow> string"
  rt_diagnose :: "nat \<Rightarrow> observations \<Rightarrow> string result"
  rt_propose :: "nat \<Rightarrow> observations \<Rightarrow> string \<Rightarrow> string option \<Rightarrow> proposal result"
  rt_classify :: "nat \<Rightarrow> string \<Rightarrow> string \<Rightarrow> string option \<Rightarrow> situational option \<Rightarrow> classification result"
  rt_float :: "rat \<Rightarrow> string"
  rt_digest :: "string \<Rightarrow> string"
  rt_coerce :: "pyval \<Rightarrow> int option"

record human_decision =
  hd_decision :: approval_decision
  hd_edited_action :: "string option"
  hd_approver_id :: "string option"

end
