(* ===== verification/Nodes.thy ===== *)
theory Nodes
  imports Agent_State
begin

text \<open>
  \<^verbatim>\<open>src/agent/nodes.py\<close>: every node of the graph and every routing function. A node takes the
  number of its execution and the state, acts on the tool context and returns its update.
  \<^verbatim>\<open>mark\<close> (\<^verbatim>\<open>src/chaos/hooks.py\<close>) does nothing but wait, so it has no counterpart here.
\<close>

type_synonym node_action = "(tool_ctx, update) io"

section \<open>Diagnosis and proposal\<close>

definition diagnose :: "runtime \<Rightarrow> nat \<Rightarrow> agent_state \<Rightarrow> node_action" where
  "diagnose rt t st c =
     (case gather_observations (rt_log_clock rt t) c of
        Inl e \<Rightarrow> (Inl e, c)
      | Inr ob \<Rightarrow>
          (bindR (rt_diagnose rt t ob) (\<lambda>summary.
             Inr [Status DIAGNOSING, Observations ob, Diagnosis summary]), c))"

definition propose_action :: "runtime \<Rightarrow> nat \<Rightarrow> agent_state \<Rightarrow> node_action" where
  "propose_action rt t st =
     liftE (bindR (need ''observations'' (st_observations st)) (\<lambda>ob.
            bindR (need ''diagnosis'' (st_diagnosis st)) (\<lambda>diag.
            bindR (rt_propose rt t ob diag (st_replan_context st)) (\<lambda>action.
            let proposed_action = join_action (pr_tool action) (pr_target action) in
            bindR (validate_proposal ob proposed_action) (\<lambda>invalid_reason.
            bindR (case invalid_reason of
                     Some _ \<Rightarrow> Inr None
                   | None \<Rightarrow> bindR (compute_fingerprint (rt_float rt) (rt_digest rt) ob proposed_action)
                              (\<lambda>fp. Inr (Some fp))) (\<lambda>fingerprint.
              Inr [Status ACTION_PROPOSED, Proposed_action proposed_action,
                   Action_parameters (case pr_parameters action of None \<Rightarrow> [] | Some ps \<Rightarrow> ps),
                   Action_rationale (pr_rationale action), State_fingerprint fingerprint,
                   Invalid_proposal_reason invalid_reason]))))))"

section \<open>Risk\<close>

definition classify_risk :: "runtime \<Rightarrow> nat \<Rightarrow> agent_state \<Rightarrow> node_action" where
  "classify_risk rt t st =
     liftE (bindR (need ''proposed_action'' (st_proposed_action st)) (\<lambda>a.
            bindR (split_action a) (\<lambda>(tool, target).
            bindR (need ''observations'' (st_observations st)) (\<lambda>ob.
            bindR (situational_features ob a) (\<lambda>sit.
            bindR (need ''diagnosis'' (st_diagnosis st)) (\<lambda>diag.
            bindR (rt_classify rt t a diag (st_action_rationale st) sit) (\<lambda>result.
            let llm_tier = cl_tier result;
                final_tier = apply_policy tool llm_tier sit;
                floor_applied = (llm_tier = LOW \<and> final_tier = MEDIUM \<and>
                  (case sit of None \<Rightarrow> False | Some sf \<Rightarrow> \<not> sf_has_redundant_replica sf))
            in Inr [Status RISK_CLASSIFIED, Risk_tier_llm llm_tier, Risk_tier_final final_tier,
                    Risk_rationale (cl_rationale result),
                    Redundancy_floor_applied floor_applied])))))))"

section \<open>Approval\<close>

definition mark_awaiting_approval :: "agent_state \<Rightarrow> node_action" where
  "mark_awaiting_approval st = returnE [Status AWAITING_APPROVAL]"

record approval_payload =
  ap_run_id :: string
  ap_diagnosis :: string
  ap_proposed_action :: string
  ap_risk_tier :: risk_tier

text \<open>What \<^verbatim>\<open>interrupt\<close> hands to the approver.\<close>

definition approval_request :: "agent_state \<Rightarrow> approval_payload result" where
  "approval_request st =
     bindR (need ''run_id'' (st_run_id st)) (\<lambda>run_id.
     bindR (need ''diagnosis'' (st_diagnosis st)) (\<lambda>diag.
     bindR (need ''proposed_action'' (st_proposed_action st)) (\<lambda>a.
     bindR (need ''risk_tier_final'' (st_risk_tier_final st)) (\<lambda>tier.
       Inr \<lparr>ap_run_id = run_id, ap_diagnosis = diag, ap_proposed_action = a, ap_risk_tier = tier\<rparr>))))"

text \<open>The node as it runs with a decision, after \<^verbatim>\<open>interrupt\<close> has returned it.\<close>

definition await_approval :: "runtime \<Rightarrow> human_decision \<Rightarrow> agent_state \<Rightarrow> node_action" where
  "await_approval rt d st =
     liftE (bindR (approval_request st) (\<lambda>_.
       let upd = [Approval_decision (hd_decision d), Approver_id (hd_approver_id d)] in
       (case hd_edited_action d of
          None \<Rightarrow> Inr upd
        | Some new_action \<Rightarrow>
            if new_action = [] then Inr upd
            else bindR (need ''observations'' (st_observations st)) (\<lambda>ob.
                 bindR (compute_fingerprint (rt_float rt) (rt_digest rt) ob new_action) (\<lambda>fp.
                   Inr (upd @ [Proposed_action new_action, State_fingerprint (Some fp)]))))))"

definition revalidate :: "runtime \<Rightarrow> nat \<Rightarrow> agent_state \<Rightarrow> node_action" where
  "revalidate rt t st c =
     (bindR (gather_observations (rt_log_clock rt t) c) (\<lambda>fresh.
      bindR (need ''proposed_action'' (st_proposed_action st)) (\<lambda>a.
      bindR (compute_fingerprint (rt_float rt) (rt_digest rt) fresh a) (\<lambda>fp.
        Inr [Status REVALIDATING, Observations fresh, State_fingerprint (Some fp),
             Drift_detected (Some fp \<noteq> st_state_fingerprint st)]))), c)"

section \<open>Execution\<close>

definition prepare_execution :: "agent_state \<Rightarrow> node_action" where
  "prepare_execution st =
     liftE (bindR (need ''run_id'' (st_run_id st)) (\<lambda>run_id.
            bindR (need ''proposed_action'' (st_proposed_action st)) (\<lambda>a.
              Inr [Status EXECUTING, Idempotency_key (run_id @ '':'' @ a)])))"

definition execute :: "runtime \<Rightarrow> agent_state \<Rightarrow> node_action" where
  "execute rt st =
     bindE (liftE (need ''proposed_action'' (st_proposed_action st))) (\<lambda>a.
     bindE (liftE (need ''idempotency_key'' (st_idempotency_key st))) (\<lambda>key.
     bindE (execute_action (rt_coerce rt) a
              (case st_action_parameters st of None \<Rightarrow> [] | Some ps \<Rightarrow> ps) key) (\<lambda>outcome.
       returnE [Status EXECUTING, Execution_result (oc_result outcome),
                Compensation (oc_compensation outcome)])))"

definition verify :: "agent_state \<Rightarrow> node_action" where
  "verify st c =
     (bindR (need ''proposed_action'' (st_proposed_action st)) (\<lambda>a.
      bindR (need ''execution_result'' (st_execution_result st)) (\<lambda>res.
      bindR (verify_action c a res) (\<lambda>passed.
        Inr [Status VERIFYING, Verification_passed passed]))), c)"

definition rolling_back :: "runtime \<Rightarrow> agent_state \<Rightarrow> node_action" where
  "rolling_back rt st =
     bindE (liftE (need ''compensation'' (st_compensation st))) (\<lambda>undo.
     bindE (apply_compensation (rt_coerce rt) undo) (\<lambda>result.
       returnE [Status ROLLING_BACK, Rollback_result result]))"

definition rolled_back :: "agent_state \<Rightarrow> node_action" where
  "rolled_back st = returnE [Status ROLLED_BACK]"

section \<open>Replanning and the ends\<close>

text \<open>An f-string prints a missing action as \<^verbatim>\<open>None\<close>; an empty reason is falsy.\<close>

definition show_optional :: "string option \<Rightarrow> string" where
  "show_optional a = (case a of None \<Rightarrow> ''None'' | Some s \<Rightarrow> s)"

definition truthy :: "string option \<Rightarrow> bool" where
  "truthy r \<longleftrightarrow> r \<noteq> None \<and> r \<noteq> Some []"

definition replan_reason :: "agent_state \<Rightarrow> string" where
  "replan_reason st =
     (let action = show_optional (st_proposed_action st) in
      if truthy (st_invalid_proposal_reason st) then
        action @ '' is not valid: '' @ show_optional (st_invalid_proposal_reason st) @
          ''; propose a real action instead''
      else if st_approval_decision st = Some Rejected then
        ''a human reviewer rejected the proposed action ('' @ action @ ''); propose a different one''
      else if st_drift_detected st = Some True then
        ''the environment changed since '' @ action @ '' was proposed, invalidating that diagnosis'' @
          [CHR 0x27] @ ''s basis''
      else if st_verification_passed st = Some False then
        action @ '' was executed and rolled back because it did not fix the problem''
      else action @ '' did not resolve the incident'')"

definition replan :: "agent_state \<Rightarrow> node_action" where
  "replan st = returnE
     [Status REPLANNING,
      Replan_cycles ((case st_replan_cycles st of None \<Rightarrow> 0 | Some n \<Rightarrow> n) + 1),
      Replan_context (replan_reason st)]"

definition completed :: "agent_state \<Rightarrow> node_action" where
  "completed st = returnE [Status COMPLETED, Final_state COMPLETED]"

definition escalate :: "agent_state \<Rightarrow> node_action" where
  "escalate st = returnE [Status ESCALATED, Final_state ESCALATED]"

section \<open>Routing\<close>

datatype node = Diagnose | Propose | Classify | Mark_awaiting | Await | Revalidate | Prepare
  | Execute | Verify | Rolling_back | Rolled_back | Replan | Escalate | Completed

definition route_after_proposal :: "agent_state \<Rightarrow> node result" where
  "route_after_proposal st =
     Inr (if truthy (st_invalid_proposal_reason st) then Replan else Classify)"

definition route_after_risk_classification :: "agent_state \<Rightarrow> node result" where
  "route_after_risk_classification st =
     bindR (need ''risk_tier_final'' (st_risk_tier_final st)) (\<lambda>tier.
       Inr (if tier = LOW then Prepare else Mark_awaiting))"

definition route_after_approval :: "agent_state \<Rightarrow> node result" where
  "route_after_approval st =
     bindR (need ''approval_decision'' (st_approval_decision st)) (\<lambda>d.
       Inr (if d \<in> {Approved, Edited} then Revalidate
            else if d = Rejected then Replan else Escalate))"

definition route_after_approval_no_revalidation :: "agent_state \<Rightarrow> node result" where
  "route_after_approval_no_revalidation st =
     bindR (need ''approval_decision'' (st_approval_decision st)) (\<lambda>d.
       Inr (if d \<in> {Approved, Edited} then Prepare
            else if d = Rejected then Replan else Escalate))"

definition route_after_revalidation :: "agent_state \<Rightarrow> node result" where
  "route_after_revalidation st =
     bindR (need ''drift_detected'' (st_drift_detected st)) (\<lambda>drift.
       Inr (if drift then Replan else Prepare))"

definition route_after_verification :: "agent_state \<Rightarrow> node result" where
  "route_after_verification st =
     bindR (need ''verification_passed'' (st_verification_passed st)) (\<lambda>passed.
       Inr (if passed then Completed else Rolling_back))"

definition route_after_replan :: "agent_state \<Rightarrow> node result" where
  "route_after_replan st =
     bindR (need ''replan_cycles'' (st_replan_cycles st)) (\<lambda>n.
       Inr (if n \<ge> MAX_REPLAN_CYCLES then Escalate else Propose))"

lemmas route_defs = route_after_proposal_def route_after_risk_classification_def
  route_after_approval_def route_after_approval_no_revalidation_def route_after_revalidation_def
  route_after_verification_def route_after_replan_def

lemmas node_defs = diagnose_def propose_action_def classify_risk_def mark_awaiting_approval_def
  await_approval_def revalidate_def prepare_execution_def execute_def verify_def rolling_back_def
  rolled_back_def replan_def completed_def escalate_def

end
