(* ===== verification/Audit_Log.thy ===== *)
theory Audit_Log
  imports Nodes
begin

text \<open>
  \<^verbatim>\<open>src/audit/\<close>: the audit record (\<^verbatim>\<open>schema.py\<close>), the wrapper that writes one record for every
  completed node (\<^verbatim>\<open>hook.py\<close>), the append-only stores behind one interface (\<^verbatim>\<open>store.py\<close>) and
  the replay of a run from its records (\<^verbatim>\<open>replay.py\<close>).
\<close>

section \<open>Records\<close>

datatype actor = Agent | Human | System

record audit_record =
  ar_run_id :: string
  ar_timestamp :: string
  ar_from_state :: "wf_state option"
  ar_to_state :: "wf_state option"
  ar_actor :: actor
  ar_action_proposed :: "string option"
  ar_risk_tier :: "risk_tier option"
  ar_approver_id :: "string option"
  ar_decision :: "approval_decision option"
  ar_idempotency_key :: "string option"
  ar_rationale :: "string option"

section \<open>Stores\<close>

text \<open>
  The interface: recording appends to the run of the entry, in the form the store keeps it,
  and changes no other run.
\<close>

locale audit_store =
  fixes record_entry :: "audit_record \<Rightarrow> 'w \<Rightarrow> 'w"
    and get_run :: "'w \<Rightarrow> string \<Rightarrow> audit_record list"
    and stored :: "audit_record \<Rightarrow> audit_record"
    and invar :: "'w \<Rightarrow> bool"
  assumes record_invar: "invar w \<Longrightarrow> invar (record_entry e w)"
    and get_run_record: "invar w \<Longrightarrow> get_run (record_entry e w) r =
          get_run w r @ (if ar_run_id e = r then [stored e] else [])"
begin

lemma record_all_invar: "invar w \<Longrightarrow> invar (fold record_entry es w)"
  by (induction es arbitrary: w) (simp_all add: record_invar)

text \<open>A log holds exactly what was recorded for its run, oldest first.\<close>

lemma get_run_all:
  "invar w \<Longrightarrow> get_run (fold record_entry es w) r =
     get_run w r @ map stored [e \<leftarrow> es. ar_run_id e = r]"
  by (induction es arbitrary: w) (simp_all add: record_invar get_run_record)

text \<open>Append-only: what a log once held stays where it was.\<close>

lemma append_only:
  "invar w \<Longrightarrow> k < length (get_run w r) \<Longrightarrow> get_run (fold record_entry es w) r ! k = get_run w r ! k"
  by (simp add: get_run_all nth_append)

lemma other_runs: "invar w \<Longrightarrow> ar_run_id e \<noteq> r \<Longrightarrow> get_run (record_entry e w) r = get_run w r"
  by (simp add: get_run_record)

end

text \<open>\<^verbatim>\<open>InMemoryAuditStore\<close>\<close>

type_synonym mem_audit = "audit_record list"

definition mem_audit_record :: "audit_record \<Rightarrow> mem_audit \<Rightarrow> mem_audit" where
  "mem_audit_record e rs = rs @ [e]"

definition mem_audit_get_run :: "mem_audit \<Rightarrow> string \<Rightarrow> audit_record list" where
  "mem_audit_get_run rs run_id = [r \<leftarrow> rs. ar_run_id r = run_id]"

interpretation mem_audit: audit_store mem_audit_record mem_audit_get_run "\<lambda>e. e" "\<lambda>_. True"
  by unfold_locales (simp_all add: mem_audit_record_def mem_audit_get_run_def)

text \<open>
  \<^verbatim>\<open>PostgresAuditStore\<close>: the table \<^verbatim>\<open>audit_log\<close> with its serial key, read by \<^verbatim>\<open>ORDER BY id\<close>. A
  timestamp goes through a \<^verbatim>\<open>TIMESTAMPTZ\<close> column and back through \<^verbatim>\<open>isoformat()\<close>, which is
  the parameter \<open>tz\<close>.
\<close>

record pg_audit =
  pa_next_id :: int
  pa_rows :: "(int \<times> audit_record) list"

definition pg_audit_record :: "(string \<Rightarrow> string) \<Rightarrow> audit_record \<Rightarrow> pg_audit \<Rightarrow> pg_audit" where
  "pg_audit_record tz e t =
     \<lparr>pa_next_id = pa_next_id t + 1,
      pa_rows = (pa_next_id t, e\<lparr>ar_timestamp := tz (ar_timestamp e)\<rparr>) # pa_rows t\<rparr>"

definition pg_audit_get_run :: "pg_audit \<Rightarrow> string \<Rightarrow> audit_record list" where
  "pg_audit_get_run t run_id =
     map snd (sort_key fst [r \<leftarrow> pa_rows t. ar_run_id (snd r) = run_id])"

definition pg_audit_wf :: "pg_audit \<Rightarrow> bool" where
  "pg_audit_wf t \<longleftrightarrow> list_all (\<lambda>r. fst r < pa_next_id t) (pa_rows t)"

lemma insort_key_last:
  "(\<And>x. x \<in> set xs \<Longrightarrow> f x < f y) \<Longrightarrow> insort_key f y xs = xs @ [y]"
proof (induction xs)
  case (Cons x xs)
  have "\<not> f y \<le> f x" using Cons.prems [of x] by simp
  with Cons show ?case by simp
qed simp

lemma sort_key_snoc:
  "(\<And>x. x \<in> set xs \<Longrightarrow> f x \<le> f y) \<Longrightarrow> sort_key f (xs @ [y]) = sort_key f xs @ [y]"
proof (induction xs)
  case (Cons x xs)
  have "insort_key f x (zs @ [y]) = insort_key f x zs @ [y]" if "f x \<le> f y" for zs
    using that by (induction zs) auto
  with Cons show ?case by simp
qed simp

interpretation pg_audit: audit_store "pg_audit_record tz" pg_audit_get_run
  "\<lambda>e. e\<lparr>ar_timestamp := tz (ar_timestamp e)\<rparr>" pg_audit_wf for tz
proof (unfold_locales, goal_cases)
  case (1 w e)
  then show ?case by (auto simp: pg_audit_wf_def pg_audit_record_def list_all_iff)
next
  case (2 w e r)
  let ?rows = "[q \<leftarrow> pa_rows w. ar_run_id (snd q) = r]"
  have "insort_key fst (pa_next_id w, e') (sort_key fst ?rows) =
      sort_key fst ?rows @ [(pa_next_id w, e')]" for e'
    using 2 by (intro insort_key_last) (auto simp: pg_audit_wf_def list_all_iff)
  then show ?case by (simp add: pg_audit_get_run_def pg_audit_record_def)
qed

section \<open>Replay\<close>

definition ordered :: "audit_record list \<Rightarrow> audit_record list" where
  "ordered rs = sort_key ar_timestamp rs"

definition replay_run :: "audit_record list \<Rightarrow> wf_state list" where
  "replay_run rs = List.map_filter ar_to_state (ordered rs)"

definition is_complete_chain :: "audit_record list \<Rightarrow> bool" where
  "is_complete_chain rs =
     (let o_rs = ordered rs
      in list_all (\<lambda>(previous, current). ar_from_state current = ar_to_state previous)
           (zip o_rs (tl o_rs)))"

text \<open>
  A log that grows in time order by records that continue it: complete as long as it was.
\<close>

definition time_ordered :: "audit_record list \<Rightarrow> bool" where
  "time_ordered rs \<longleftrightarrow> sorted (map ar_timestamp rs)"

lemma ordered_id: "time_ordered rs \<Longrightarrow> ordered rs = rs"
  by (simp add: ordered_def time_ordered_def sort_key_id_if_sorted)

lemma chain_snoc:
  assumes "time_ordered (rs @ [e])"
  shows "is_complete_chain (rs @ [e]) \<longleftrightarrow> is_complete_chain rs \<and>
           (rs \<noteq> [] \<longrightarrow> ar_from_state e = ar_to_state (last rs))"
proof -
  from assms have "time_ordered rs" by (simp add: time_ordered_def sorted_append)
  moreover have "list_all (\<lambda>(p, c). ar_from_state c = ar_to_state p) (zip (rs @ [e]) (tl (rs @ [e]))) \<longleftrightarrow>
      list_all (\<lambda>(p, c). ar_from_state c = ar_to_state p) (zip rs (tl rs)) \<and>
      (rs \<noteq> [] \<longrightarrow> ar_from_state e = ar_to_state (last rs))"
  proof (induction rs)
    case (Cons r rs)
    then show ?case by (cases rs) auto
  qed simp
  ultimately show ?thesis using assms by (simp add: is_complete_chain_def ordered_id Let_def)
qed

lemma chain_Nil [simp]: "is_complete_chain []"
  by (simp add: is_complete_chain_def ordered_def)

section \<open>The wrapper around every node\<close>

definition NODE_ACTORS :: "(node, actor) dict" where
  "NODE_ACTORS =
     [(Diagnose, Agent), (Propose, Agent), (Classify, Agent), (Mark_awaiting, System),
      (Revalidate, Agent), (Prepare, Agent), (Execute, Agent), (Verify, Agent),
      (Rolling_back, Agent), (Rolled_back, System), (Replan, Agent), (Escalate, System),
      (Completed, System)]"

definition actor_of :: "node \<Rightarrow> update \<Rightarrow> actor" where
  "actor_of n u =
     (if n = Await then (if update_get entry_decision u = Some Timeout then System else Human)
      else (case map_of NODE_ACTORS n of None \<Rightarrow> System | Some a \<Rightarrow> a))"

text \<open>The world of a run: the tool context, the audit log and the number of the next node execution.\<close>

record world =
  w_ctx :: tool_ctx
  w_audit :: mem_audit
  w_tick :: nat

definition or_else :: "string option \<Rightarrow> string option \<Rightarrow> string option" where
  "or_else a b = (if truthy a then a else b)"

definition audit_entry ::
  "runtime \<Rightarrow> nat \<Rightarrow> node \<Rightarrow> agent_state \<Rightarrow> update \<Rightarrow> audit_record result" where
  "audit_entry rt t n st u =
     (let merged = merge st u in
      bindR (need ''run_id'' (st_run_id merged)) (\<lambda>run_id. Inr
        \<lparr>ar_run_id = run_id, ar_timestamp = rt_clock rt t, ar_from_state = st_status st,
         ar_to_state = st_status merged, ar_actor = actor_of n u,
         ar_action_proposed = st_proposed_action merged, ar_risk_tier = st_risk_tier_final merged,
         ar_approver_id = update_get entry_approver_id u,
         ar_decision = update_get entry_decision u,
         ar_idempotency_key = st_idempotency_key merged,
         ar_rationale = or_else (update_get entry_action_rationale u)
           (or_else (update_get entry_risk_rationale u) (update_get entry_replan_context u))\<rparr>))"

definition with_audit ::
  "runtime \<Rightarrow> node \<Rightarrow> (agent_state \<Rightarrow> node_action) \<Rightarrow> agent_state \<Rightarrow> (world, update) io" where
  "with_audit rt n node_fn st w =
     (let t = w_tick w; w1 = w\<lparr>w_tick := t + 1\<rparr> in
      case node_fn st (w_ctx w) of
        (Inl e, c) \<Rightarrow> (Inl e, w1\<lparr>w_ctx := c\<rparr>)
      | (Inr u, c) \<Rightarrow>
          (case audit_entry rt t n st u of
             Inl e \<Rightarrow> (Inl e, w1\<lparr>w_ctx := c\<rparr>)
           | Inr e \<Rightarrow> (Inr u, w1\<lparr>w_ctx := c, w_audit := mem_audit_record e (w_audit w)\<rparr>)))"

end
