(* ===== verification/Graph.thy ===== *)
theory Graph
  imports Audit_Log
begin

text \<open>
  \<^verbatim>\<open>src/agent/graph.py\<close>: the wiring of the nodes, with and without the revalidation node, and
  the runs of the graph. One step executes the pending node under its audit wrapper, merges
  the update into the state and asks the wiring for the next node; the checkpoint between two
  steps holds the state and the pending node.
\<close>

section \<open>The nodes and their wiring\<close>

definition NODES :: "node list" where
  "NODES = [Diagnose, Propose, Classify, Mark_awaiting, Await, Revalidate, Prepare, Execute,
     Verify, Rolling_back, Rolled_back, Replan, Escalate, Completed]"

definition graph_nodes :: "bool \<Rightarrow> node list" where
  "graph_nodes rv = (if rv then NODES else remove1 Revalidate NODES)"

text \<open>
  The body of a node. \<open>Await\<close> is only called here with the decision that resumes it.
\<close>

fun node_fn :: "runtime \<Rightarrow> human_decision option \<Rightarrow> nat \<Rightarrow> node \<Rightarrow> agent_state \<Rightarrow> node_action" where
  "node_fn rt d t Diagnose st = diagnose rt t st"
| "node_fn rt d t Propose st = propose_action rt t st"
| "node_fn rt d t Classify st = classify_risk rt t st"
| "node_fn rt d t Mark_awaiting st = mark_awaiting_approval st"
| "node_fn rt (Some h) t Await st = await_approval rt h st"
| "node_fn rt None t Await st = returnE []"
| "node_fn rt d t Revalidate st = revalidate rt t st"
| "node_fn rt d t Prepare st = prepare_execution st"
| "node_fn rt d t Execute st = execute rt st"
| "node_fn rt d t Verify st = verify st"
| "node_fn rt d t Rolling_back st = rolling_back rt st"
| "node_fn rt d t Rolled_back st = rolled_back st"
| "node_fn rt d t Replan st = replan st"
| "node_fn rt d t Escalate st = escalate st"
| "node_fn rt d t Completed st = completed st"

text \<open>The edges of \<^verbatim>\<open>build_graph\<close>: \<open>None\<close> is \<^verbatim>\<open>END\<close>.\<close>

fun graph_next :: "bool \<Rightarrow> node \<Rightarrow> agent_state \<Rightarrow> node option result" where
  "graph_next rv Diagnose st = Inr (Some Propose)"
| "graph_next rv Propose st = bindR (route_after_proposal st) (\<lambda>n. Inr (Some n))"
| "graph_next rv Classify st = bindR (route_after_risk_classification st) (\<lambda>n. Inr (Some n))"
| "graph_next rv Mark_awaiting st = Inr (Some Await)"
| "graph_next rv Await st =
     bindR (if rv then route_after_approval st else route_after_approval_no_revalidation st)
       (\<lambda>n. Inr (Some n))"
| "graph_next rv Revalidate st = bindR (route_after_revalidation st) (\<lambda>n. Inr (Some n))"
| "graph_next rv Prepare st = Inr (Some Execute)"
| "graph_next rv Execute st = Inr (Some Verify)"
| "graph_next rv Verify st = bindR (route_after_verification st) (\<lambda>n. Inr (Some n))"
| "graph_next rv Rolling_back st = Inr (Some Rolled_back)"
| "graph_next rv Rolled_back st = Inr (Some Replan)"
| "graph_next rv Replan st = bindR (route_after_replan st) (\<lambda>n. Inr (Some n))"
| "graph_next rv Completed st = Inr None"
| "graph_next rv Escalate st = Inr None"

section \<open>One step\<close>

datatype step_result =
    Suspended approval_payload
  | Raised py_error
  | Next "node option" agent_state

definition exec_step ::
  "runtime \<Rightarrow> bool \<Rightarrow> human_decision option \<Rightarrow> node \<Rightarrow> agent_state \<Rightarrow> world \<Rightarrow> step_result \<times> world" where
  "exec_step rt rv d n st w =
     (if n = Await \<and> d = None
      then ((case approval_request st of Inl e \<Rightarrow> Raised e | Inr p \<Rightarrow> Suspended p), w)
      else (case with_audit rt n (node_fn rt d (w_tick w) n) st w of
              (Inl e, w') \<Rightarrow> (Raised e, w')
            | (Inr u, w') \<Rightarrow>
                ((case graph_next rv n (merge st u) of
                    Inl e \<Rightarrow> Raised e
                  | Inr nx \<Rightarrow> Next nx (merge st u)), w')))"

record checkpoint =
  cp_state :: agent_state
  cp_next :: "node option"

inductive graph_step ::
  "runtime \<Rightarrow> bool \<Rightarrow> human_decision option \<Rightarrow> checkpoint \<times> world \<Rightarrow> checkpoint \<times> world \<Rightarrow> bool"
  for rt rv where
  node: "exec_step rt rv d n st w = (Next nx st', w') \<Longrightarrow>
     graph_step rt rv d (\<lparr>cp_state = st, cp_next = Some n\<rparr>, w)
                        (\<lparr>cp_state = st', cp_next = nx\<rparr>, w')"

inductive_simps graph_step_iff: "graph_step rt rv d (cp, w) (cp', w')"

lemma graph_stepE:
  assumes "graph_step rt rv d (cp, w) (cp', w')"
  obtains n st nx st' where "cp = \<lparr>cp_state = st, cp_next = Some n\<rparr>"
    "cp' = \<lparr>cp_state = st', cp_next = nx\<rparr>" "exec_step rt rv d n st w = (Next nx st', w')"
  using assms by (auto simp: graph_step_iff)

section \<open>A run to its next stop\<close>

datatype run_result =
    Interrupted approval_payload
  | Errored py_error
  | Returned
  | Library_error

text \<open>
  How the graph library runs the wiring, one node at a time up to a limit of steps: the
  decision answers the pending interrupt only. A node that raises leaves the checkpoint of
  the step before it.
\<close>

fun drive ::
  "runtime \<Rightarrow> bool \<Rightarrow> nat \<Rightarrow> human_decision option \<Rightarrow> node \<Rightarrow> agent_state \<Rightarrow> world \<Rightarrow>
   run_result \<times> checkpoint \<times> world" where
  "drive rt rv 0 d n st w = (Library_error, \<lparr>cp_state = st, cp_next = Some n\<rparr>, w)"
| "drive rt rv (Suc k) d n st w =
     (case exec_step rt rv d n st w of
        (Suspended p, w') \<Rightarrow> (Interrupted p, \<lparr>cp_state = st, cp_next = Some n\<rparr>, w')
      | (Raised e, w') \<Rightarrow> (Errored e, \<lparr>cp_state = st, cp_next = Some n\<rparr>, w')
      | (Next None st', w') \<Rightarrow> (Returned, \<lparr>cp_state = st', cp_next = None\<rparr>, w')
      | (Next (Some n') st', w') \<Rightarrow> drive rt rv k None n' st' w')"

section \<open>What a node's update looks like\<close>

lemma liftE_Inr: "liftE r c = (Inr u, c') \<longleftrightarrow> r = Inr u \<and> c' = c"
  by auto

lemma bindE_lift_Inr: "bindE (liftE r) f c = (Inr u, c') \<longleftrightarrow> (\<exists>x. r = Inr x \<and> f x c = (Inr u, c'))"
  by (cases r) (simp_all add: bindE_def)

lemma diagnose_update:
  "diagnose rt t st c = (Inr u, c') \<Longrightarrow> c' = c \<and> (\<exists>ob s. gather_observations (rt_log_clock rt t) c = Inr ob \<and>
     rt_diagnose rt t ob = Inr s \<and> u = [Status DIAGNOSING, Observations ob, Diagnosis s])"
  by (auto simp: diagnose_def bindR_Inr_iff split: sum.splits)

lemma propose_update:
  assumes "propose_action rt t st c = (Inr u, c')"
  shows "c' = c \<and> (\<exists>ob a ps r fp inv. st_observations st = Some ob \<and>
     validate_proposal ob a = Inr inv \<and>
     (inv = None \<longrightarrow> (\<exists>f. fp = Some f \<and> compute_fingerprint (rt_float rt) (rt_digest rt) ob a = Inr f)) \<and>
     (inv \<noteq> None \<longrightarrow> fp = None) \<and>
     u = [Status ACTION_PROPOSED, Proposed_action a, Action_parameters ps, Action_rationale r,
          State_fingerprint fp, Invalid_proposal_reason inv])"
  using assms
  by (auto simp: propose_action_def Let_def bindR_Inr_iff need_Inr split: option.splits)

lemma classify_update:
  assumes "classify_risk rt t st c = (Inr u, c')"
  shows "c' = c \<and> (\<exists>a tool target ob sit tier r. st_proposed_action st = Some a \<and>
     split_action a = Inr (tool, target) \<and> st_observations st = Some ob \<and>
     situational_features ob a = Inr sit \<and>
     u = [Status RISK_CLASSIFIED, Risk_tier_llm tier, Risk_tier_final (apply_policy tool tier sit),
          Risk_rationale r, Redundancy_floor_applied (tier = LOW \<and> apply_policy tool tier sit = MEDIUM \<and>
            (case sit of None \<Rightarrow> False | Some sf \<Rightarrow> \<not> sf_has_redundant_replica sf))])"
  using assms by (force simp: classify_risk_def Let_def bindR_Inr_iff need_Inr)

lemma await_update:
  assumes "await_approval rt h st c = (Inr u, c')"
  shows "c' = c \<and> (\<exists>rest. u = [Approval_decision (hd_decision h), Approver_id (hd_approver_id h)] @ rest \<and>
     (rest = [] \<or> (\<exists>a ob fp. rest = [Proposed_action a, State_fingerprint (Some fp)] \<and>
        hd_edited_action h = Some a \<and> st_observations st = Some ob \<and>
        compute_fingerprint (rt_float rt) (rt_digest rt) ob a = Inr fp)))"
  using assms
  by (auto simp: await_approval_def Let_def bindR_Inr_iff need_Inr split: option.splits if_splits)

lemma revalidate_update:
  assumes "revalidate rt t st c = (Inr u, c')"
  shows "c' = c \<and> (\<exists>ob a fp. gather_observations (rt_log_clock rt t) c = Inr ob \<and>
     st_proposed_action st = Some a \<and> compute_fingerprint (rt_float rt) (rt_digest rt) ob a = Inr fp \<and>
     u = [Status REVALIDATING, Observations ob, State_fingerprint (Some fp),
          Drift_detected (Some fp \<noteq> st_state_fingerprint st)])"
  using assms by (auto simp: revalidate_def bindR_Inr_iff need_Inr)

lemma prepare_update:
  assumes "prepare_execution st c = (Inr u, c')"
  shows "c' = c \<and> (\<exists>run a. st_run_id st = Some run \<and> st_proposed_action st = Some a \<and>
     u = [Status EXECUTING, Idempotency_key (run @ '':'' @ a)])"
  using assms by (auto simp: prepare_execution_def bindR_Inr_iff need_Inr)

lemma execute_update:
  assumes "execute rt st c = (Inr u, c')"
  shows "\<exists>a key out. st_proposed_action st = Some a \<and> st_idempotency_key st = Some key \<and>
     execute_action (rt_coerce rt) a (case st_action_parameters st of None \<Rightarrow> [] | Some ps \<Rightarrow> ps) key c
       = (Inr out, c') \<and>
     u = [Status EXECUTING, Execution_result (oc_result out), Compensation (oc_compensation out)]"
  using assms by (auto simp: execute_def bindE_lift_Inr need_Inr dest!: bindE_InrD)

lemma verify_update:
  assumes "verify st c = (Inr u, c')"
  shows "c' = c \<and> (\<exists>a res b. st_proposed_action st = Some a \<and> st_execution_result st = Some res \<and>
     verify_action c a res = Inr b \<and> u = [Status VERIFYING, Verification_passed b])"
  using assms by (auto simp: verify_def bindR_Inr_iff need_Inr)

lemma rolling_back_update:
  assumes "rolling_back rt st c = (Inr u, c')"
  shows "\<exists>undo r. st_compensation st = Some undo \<and>
     apply_compensation (rt_coerce rt) undo c = (Inr r, c') \<and>
     u = [Status ROLLING_BACK, Rollback_result r]"
  using assms by (auto simp: rolling_back_def bindE_lift_Inr need_Inr dest!: bindE_InrD)

lemmas pure_node_defs = mark_awaiting_approval_def rolled_back_def replan_def completed_def escalate_def

end
