(* ===== verification/Actions.thy ===== *)
theory Actions
  imports Observations
begin

text \<open>
  What holds of executing, verifying and compensating an action: every action is one keyed tool
  call, a repeated call changes nothing, the sandbox stays well-formed, and compensation brings
  back what the action changed.
\<close>

section \<open>An action is one keyed tool call\<close>

definition good_perform :: "perform \<Rightarrow> bool" where
  "good_perform p \<longleftrightarrow> well_behaved p \<and> (\<forall>c. sandbox c \<longrightarrow> sandbox (snd (p c)))"

lemma snd_post_pure:
  assumes "\<And>d c. snd (k d c) = c"
  shows "snd (bindE (http_post n f) k c) = snd (http_post n f c)"
  using http_post_result [of n f c] assms by (auto simp: bindE_def split: prod.splits sum.splits)

lemma sandbox_post_pure:
  assumes "keeps_identity f" and "\<And>d c. snd (k d c) = c" and "sandbox c"
  shows "sandbox (snd (bindE (http_post n f) k c))"
  using assms by (simp add: snd_post_pure sandbox_http_post)

lemma good_performs [intro, simp]:
  "good_perform (restart_perform s)" "good_perform (scale_perform ci s n)"
  "good_perform (delete_perform k ids)" "good_perform (clear_cache_perform s)"
  "good_perform (config_perform s k v)" "good_perform (rollback_perform s)"
  unfolding good_perform_def
  by (simp_all add: performs_well_behaved)
    (auto simp: perform_defs Let_def sandbox_ctx_ops intro!: sandbox_post_pure)

lemma execute_tool_cases:
  obtains (refused) e where "\<And>c. execute_tool ci tool target ps key c = (Inl e, c)"
  | (keyed) args p where "good_perform p"
      "\<And>c. execute_tool ci tool target ps key c = run_tool tool key args p c"
proof -
  have "(\<exists>e. \<forall>c. execute_tool ci tool target ps key c = (Inl e, c)) \<or>
        (\<exists>args p. good_perform p \<and>
           (\<forall>c. execute_tool ci tool target ps key c = run_tool tool key args p c))"
  proof (cases "tool \<in> set KNOWN_TOOLS")
    case False
    then show ?thesis by (simp add: execute_tool_def KNOWN_TOOLS_def)
  next
    case True
    then consider (rs) "tool = ''restart_service''" | (sc) "tool = ''scale_service''"
      | (dl) "tool = ''delete_records''" | (cc) "tool = ''clear_cache''"
      | (cf) "tool = ''apply_config_change''" | (rb) "tool = ''rollback_deployment''"
      unfolding KNOWN_TOOLS_def
      by (simp only: list.set insert_iff empty_iff) (elim disjE; (elim FalseE)?; assumption)
    then show ?thesis
    proof cases
      case rs
      then show ?thesis by (intro disjI2) (auto simp: execute_tool_def restart_service_def)
    next
      case sc
      then show ?thesis
        by (cases "param_replicas ci ps") (auto simp: execute_tool_def scale_service_def bindE_def)
    next
      case dl
      then show ?thesis
        by (cases "param_ids ci ps") (auto simp: execute_tool_def delete_records_def bindE_def)
    next
      case cc
      then show ?thesis by (intro disjI2) (auto simp: execute_tool_def clear_cache_def)
    next
      case cf
      let ?r = "bindR (param_str ps ''key'') (\<lambda>kv. bindR (param_str ps ''value'') (\<lambda>vv.
          bindR (as_str kv) (\<lambda>k. bindR (as_str vv) (\<lambda>v. Inr (k, v)))))"
      have eq: "execute_tool ci tool target ps key c =
          (case ?r of Inl e \<Rightarrow> (Inl e, c) | Inr (k, v) \<Rightarrow> apply_config_change target k v key c)" for c
        using cf by (auto simp: execute_tool_def bindE_def bindR_def split: sum.splits)
      then show ?thesis
      proof (cases ?r)
        case (Inr kv)
        obtain k v where "kv = (k, v)" by (cases kv)
        with Inr eq cf have "execute_tool ci tool target ps key c = run_tool tool key
            [(''service'', PStr target), (''key'', PStr k), (''value'', PStr v)]
            (config_perform target k v) c" for c
          by (simp add: apply_config_change_def)
        then show ?thesis using good_performs(5) [of target k v] by blast
      qed (auto simp: eq)
    next
      case rb
      then show ?thesis by (intro disjI2) (auto simp: execute_tool_def rollback_deployment_def)
    qed
  qed
  then show ?thesis using refused keyed by blast
qed

lemma good_sandbox: "good_perform p \<Longrightarrow> sandbox c \<Longrightarrow> p c = (r, c') \<Longrightarrow> sandbox c'"
  unfolding good_perform_def by (metis snd_conv)

lemma good_well_behaved: "good_perform p \<Longrightarrow> well_behaved p"
  by (simp add: good_perform_def)

lemma run_tool_sandbox:
  assumes "good_perform p" and "sandbox c" and run: "run_tool tool key args p c = (r, c')"
  shows "sandbox c'"
  using run
proof (cases rule: run_tool_cases)
  case (first res undo c1)
  with assms(1,2) have "sandbox c1" by (blast intro: good_sandbox)
  with first(3) show ?thesis by (simp add: sandbox_ctx_ops)
qed (use assms in \<open>auto dest: good_sandbox\<close>)

lemma execute_action_cases:
  assumes "execute_action ci a ps key c = (r, c')"
  obtains (refused) e where "r = Inl e" "c' = c"
  | (keyed) tool target args p r' where "split_action a = Inr (tool, target)" "good_perform p"
      "run_tool tool key args p c = (r', c')"
      "r = (case r' of Inl e \<Rightarrow> Inl e
                     | Inr m \<Rightarrow> Inr \<lparr>oc_result = mr_result m, oc_compensation = mr_compensation m\<rparr>)"
      "\<And>c. execute_action ci a ps key c = bindE (run_tool tool key args p)
         (\<lambda>m. returnE \<lparr>oc_result = mr_result m, oc_compensation = mr_compensation m\<rparr>) c"
proof (cases "split_action a")
  case (Inl e)
  with assms show ?thesis by (intro refused) (auto simp: execute_action_def)
next
  case (Inr q)
  obtain tool target where q: "q = (tool, target)" by (cases q)
  show ?thesis
  proof (cases rule: execute_tool_cases [of ci tool target ps key])
    case (refused e)
    with assms Inr q show ?thesis by (intro that(1)) (auto simp: execute_action_def bindE_def)
  next
    case (keyed args p)
    note call = this
    then have eq: "execute_action ci a ps key c = bindE (run_tool tool key args p)
         (\<lambda>m. returnE \<lparr>oc_result = mr_result m, oc_compensation = mr_compensation m\<rparr>) c" for c
      using Inr q by (simp add: execute_action_def bindE_def)
    obtain r' c1 where run: "run_tool tool key args p c = (r', c1)" by (cases "run_tool tool key args p c")
    with assms eq have "c1 = c'" and "r = (case r' of Inl e \<Rightarrow> Inl e
        | Inr m \<Rightarrow> Inr \<lparr>oc_result = mr_result m, oc_compensation = mr_compensation m\<rparr>)"
      by (auto simp: bindE_def split: sum.splits)
    with run call(1) Inr q eq show ?thesis by (intro that(2) [of tool target p args r']) simp_all
  qed
qed

lemma execute_action_sandbox:
  assumes "sandbox c" and "execute_action ci a ps key c = (r, c')"
  shows "sandbox c'"
  using assms(2) by (cases rule: execute_action_cases) (use assms(1) in \<open>auto intro: run_tool_sandbox\<close>)

text \<open>
  The retry after a crash between the effect and the checkpoint: the same call again gives the
  same outcome and changes nothing.
\<close>

lemma execute_action_retry:
  assumes "execute_action ci a ps key c = (Inr out, c')"
  shows "execute_action ci a ps key c' = (Inr out, c')"
  using assms
proof (cases rule: execute_action_cases)
  case (keyed tool target args p r')
  then obtain m where m: "r' = Inr m" and out: "out = \<lparr>oc_result = mr_result m, oc_compensation = mr_compensation m\<rparr>"
    by (auto split: sum.splits)
  from keyed(2,3) m have "run_tool tool key args p c' = (Inr (m\<lparr>mr_idempotent_replay := True\<rparr>), c')"
    by (blast intro: run_tool_retry good_well_behaved)
  with keyed(5) out show ?thesis by simp
qed simp

text \<open>A success leaves its ledger entry, and no call removes one.\<close>

lemma execute_action_ledger:
  assumes "execute_action ci a ps key c = (r, c')" and "ctx_get c k = Some row"
  shows "ctx_get c' k = Some row"
  using assms(1)
proof (cases rule: execute_action_cases)
  case (keyed tool target args p r')
  then show ?thesis using assms(2) by (blast intro: run_tool_ledger_mono good_well_behaved)
qed (use assms in simp)

lemma execute_action_recorded:
  assumes "execute_action ci a ps key c = (Inr out, c')"
  shows "\<exists>row. ctx_get c' key = Some row \<and> lr_result row = PDict (oc_result out) \<and>
     lr_compensation row = PDict (oc_compensation out)"
  using assms
proof (cases rule: execute_action_cases)
  case (keyed tool target args p r')
  then obtain m where m: "r' = Inr m" and out: "out = \<lparr>oc_result = mr_result m, oc_compensation = mr_compensation m\<rparr>"
    by (auto split: sum.splits)
  from keyed(3) show ?thesis
  proof (cases rule: run_tool_cases)
    case (replay row)
    from replay(3) [symmetric] m have "lr_result row = PDict (mr_result m) \<and> lr_compensation row = PDict (mr_compensation m)"
      by (auto simp: make_mutation_result_Inr)
    with replay out show ?thesis by auto
  next
    case (first res undo c1)
    from first(2) keyed(2) have "store c1 = store c" by (blast intro: well_behaved_store good_well_behaved)
    with first(1) have "ctx_get c1 key = None" by (simp add: ctx_get_def)
    with first m out show ?thesis by (simp add: ctx_ledger.get_record_new)
  qed (use m in simp)
qed simp

text \<open>An action whose key is in the ledger changes nothing, whatever its parameters are now.\<close>

lemma execute_action_known_key:
  assumes "execute_action ci a ps key c = (r, c')" and "ctx_get c key = Some row"
  shows "c' = c"
  using assms(1)
proof (cases rule: execute_action_cases)
  case (keyed tool target args p r')
  from keyed(3) show ?thesis by (cases rule: run_tool_cases) (use assms(2) in auto)
qed simp

end
