(* ===== verification/Compensation.thy ===== *)
theory Compensation
  imports Actions
begin

text \<open>
  What rolling back an executed action brings back, per tool: \<^verbatim>\<open>apply_compensation\<close> of
  \<^verbatim>\<open>src/agent/execution.py\<close> on the compensation that the tool of \<^verbatim>\<open>src/tools/mutating.py\<close>
  registered.
\<close>

lemma split_join: "CHR '':'' \<notin> set tool \<Longrightarrow> split_action (join_action tool target) = Inr (tool, target)"
  by (simp add: split_action_Inr split_colon_join)

text \<open>A tool under a fresh key is its \<^verbatim>\<open>perform\<close>, recorded when it succeeds.\<close>

lemma run_tool_fresh:
  assumes "ctx_get c key = None"
  shows "run_tool tool key args p c =
     (case p c of
        (Inl e, c1) \<Rightarrow> (Inl e, c1)
      | (Inr (res, undo), c1) \<Rightarrow>
          (Inr \<lparr>mr_tool = tool, mr_idempotency_key = key, mr_idempotent_replay = False,
                mr_result = res, mr_compensation = undo\<rparr>,
           ctx_record key \<lparr>lr_tool_name = tool, lr_args = args, lr_result = PDict res,
                           lr_compensation = PDict undo\<rparr> c1))"
  using assms
  by (auto simp: ctx_ledger.run_raises ctx_ledger.run_first split: prod.split sum.split)

definition fresh_outcome :: "(tool_ctx, action_outcome) io \<Rightarrow> perform \<Rightarrow> tool_ctx \<Rightarrow> bool" where
  "fresh_outcome m p c \<longleftrightarrow>
     (\<forall>out c'. m c = (Inr out, c') \<longrightarrow>
        (\<exists>c1. p c = (Inr (oc_result out, oc_compensation out), c1) \<and>
              clients c' = clients c1 \<and> records c' = records c1))"

lemma run_tool_outcome:
  assumes "ctx_get c key = None"
  shows "fresh_outcome (bindE (run_tool tool key args p)
           (\<lambda>m. returnE \<lparr>oc_result = mr_result m, oc_compensation = mr_compensation m\<rparr>)) p c"
  using assms
  by (auto simp: fresh_outcome_def bindE_def run_tool_fresh split: prod.splits sum.splits)

lemma execute_action_fresh:
  assumes "ctx_get c key = None"
  shows "fresh_outcome (execute_action ci (join_action ''scale_service'' svc) ps key)
           (\<lambda>c. case param_replicas ci ps of Inl e \<Rightarrow> (Inl e, c) | Inr n \<Rightarrow> scale_perform ci svc n c) c"
    and "fresh_outcome (execute_action ci (join_action ''rollback_deployment'' svc) ps key)
           (rollback_perform svc) c"
    and "fresh_outcome (execute_action ci (join_action ''delete_records'' svc) ps key)
           (\<lambda>c. case param_ids ci ps of Inl e \<Rightarrow> (Inl e, c) | Inr ids \<Rightarrow> delete_perform svc ids c) c"
    and "map_of ps ''key'' = Some (PStr k) \<Longrightarrow> map_of ps ''value'' = Some (PStr v) \<Longrightarrow>
         fresh_outcome (execute_action ci (join_action ''apply_config_change'' svc) ps key)
           (config_perform svc k v) c"
    and "fresh_outcome (execute_action ci (join_action ''restart_service'' svc) ps key)
           (restart_perform svc) c"
    and "fresh_outcome (execute_action ci (join_action ''clear_cache'' svc) ps key)
           (clear_cache_perform svc) c"
proof -
  note run = run_tool_outcome [OF assms, unfolded fresh_outcome_def]
  note ex = execute_action_def split_join execute_tool_def
  show "fresh_outcome (execute_action ci (join_action ''scale_service'' svc) ps key)
           (\<lambda>c. case param_replicas ci ps of Inl e \<Rightarrow> (Inl e, c) | Inr n \<Rightarrow> scale_perform ci svc n c) c"
    using run by (cases "param_replicas ci ps")
      (simp_all add: ex fresh_outcome_def scale_service_def bindE_def)
  show "fresh_outcome (execute_action ci (join_action ''rollback_deployment'' svc) ps key)
           (rollback_perform svc) c"
    using run by (simp add: ex fresh_outcome_def rollback_deployment_def bindE_def)
  show "fresh_outcome (execute_action ci (join_action ''delete_records'' svc) ps key)
           (\<lambda>c. case param_ids ci ps of Inl e \<Rightarrow> (Inl e, c) | Inr ids \<Rightarrow> delete_perform svc ids c) c"
    using run by (cases "param_ids ci ps")
      (simp_all add: ex fresh_outcome_def delete_records_def bindE_def)
  show "fresh_outcome (execute_action ci (join_action ''apply_config_change'' svc) ps key)
           (config_perform svc k v) c"
    if "map_of ps ''key'' = Some (PStr k)" "map_of ps ''value'' = Some (PStr v)"
    using run that
    by (simp add: ex fresh_outcome_def apply_config_change_def bindE_def param_str_def pd_item_def)
  show "fresh_outcome (execute_action ci (join_action ''restart_service'' svc) ps key)
           (restart_perform svc) c"
    using run by (simp add: ex fresh_outcome_def restart_service_def bindE_def)
  show "fresh_outcome (execute_action ci (join_action ''clear_cache'' svc) ps key)
           (clear_cache_perform svc) c"
    using run by (simp add: ex fresh_outcome_def clear_cache_def bindE_def)
qed

section \<open>What each perform does to a known service\<close>

lemma scale_perform_known:
  "map_of (clients c) svc = Some s \<Longrightarrow> scale_perform ci svc n c =
     (Inr ([(''service'', PStr (svc_name s)), (''previous_replicas'', PInt (replicas s)),
            (''replicas'', PInt n)],
           make_compensation ''scale_service'' [(''service'', PStr svc), (''replicas'', PInt (replicas s))]),
      set_client svc (s\<lparr>replicas := n\<rparr>) c)"
  by (simp add: scale_perform_def app_scale_def scale_def bindE_def pd_item_def dict_get_def)

lemma config_perform_known:
  "map_of (clients c) svc = Some s \<Longrightarrow> config_perform svc k v c =
     (Inr ([(''service'', PStr (svc_name s)), (''key'', PStr k),
            (''previous_value'', case map_of (config s) k of None \<Rightarrow> PNone | Some p \<Rightarrow> PStr p),
            (''value'', PStr v)],
           make_compensation ''apply_config_change'' [(''service'', PStr svc), (''key'', PStr k),
            (''value'', case map_of (config s) k of None \<Rightarrow> PNone | Some p \<Rightarrow> PStr p)]),
      set_client svc (s\<lparr>config := AList.update k v (config s)\<rparr>) c)"
  by (simp add: config_perform_def app_set_config_def set_config_def bindE_def pd_item_def dict_get_def)

lemma rollback_perform_known:
  "map_of (clients c) svc = Some s \<Longrightarrow> wf_service s \<Longrightarrow> 2 \<le> length (version_history s) \<Longrightarrow>
   rollback_perform svc c =
     (Inr ([(''service'', PStr (svc_name s)), (''rolled_back_from'', PStr (last (version_history s))),
            (''deployed_version'', PStr (last (butlast (version_history s))))],
           make_compensation ''deploy'' [(''service'', PStr svc),
            (''version'', PStr (last (version_history s)))]),
      set_client svc (clear_transient (s\<lparr>version_history := butlast (version_history s)\<rparr>)) c)"
proof -
  assume s: "map_of (clients c) svc = Some s" "wf_service s" "2 \<le> length (version_history s)"
  then have "rollback s = Inr (last (version_history s), last (butlast (version_history s)),
      clear_transient (s\<lparr>version_history := butlast (version_history s)\<rparr>))"
    by (simp add: rollback_Inr_iff)
  with s show ?thesis
    by (simp add: rollback_perform_def app_rollback_def bindE_def pd_item_def dict_get_def
        clear_transient_def)
qed

section \<open>Undoing it\<close>

lemma undo_scale:
  "map_of (clients c) svc = Some s \<Longrightarrow>
   apply_compensation ci (make_compensation ''scale_service''
     [(''service'', PStr svc), (''replicas'', PInt n)]) c =
   (Inr [(''applied'', PBool True), (''result'', PDict
      [(''service'', PStr (svc_name s)), (''previous_replicas'', PInt (replicas s)), (''replicas'', PInt n)])],
    set_client svc (s\<lparr>replicas := n\<rparr>) c)"
  by (simp add: apply_compensation_def make_compensation_def compensation_post_def pd_get_def
      pd_item_def dict_get_def bindE_def app_scale_def scale_def)

lemma undo_config:
  "map_of (clients c) svc = Some s \<Longrightarrow>
   apply_compensation ci (make_compensation ''apply_config_change''
     [(''service'', PStr svc), (''key'', PStr k), (''value'', PStr v)]) c =
   (Inr [(''applied'', PBool True), (''result'', PDict
      [(''service'', PStr (svc_name s)), (''key'', PStr k),
       (''previous_value'', case map_of (config s) k of None \<Rightarrow> PNone | Some p \<Rightarrow> PStr p),
       (''value'', PStr v)])],
    set_client svc (s\<lparr>config := AList.update k v (config s)\<rparr>) c)"
  by (simp add: apply_compensation_def make_compensation_def compensation_post_def pd_get_def
      pd_item_def dict_get_def bindE_def app_set_config_def set_config_def)

text \<open>The previous value of a key that was not set is \<^verbatim>\<open>None\<close>, which the endpoint rejects.\<close>

lemma undo_config_none:
  "map_of (clients c) svc = Some s \<Longrightarrow>
   apply_compensation ci (make_compensation ''apply_config_change''
     [(''service'', PStr svc), (''key'', PStr k), (''value'', PNone)]) c =
   (Inl (HTTPStatusError 422), c)"
  by (simp add: apply_compensation_def make_compensation_def compensation_post_def pd_get_def
      pd_item_def dict_get_def bindE_def app_set_config_def set_client_same)

lemma undo_deploy:
  "map_of (clients c) svc = Some s \<Longrightarrow> wf_service s \<Longrightarrow>
   apply_compensation ci (make_compensation ''deploy''
     [(''service'', PStr svc), (''version'', PStr v)]) c =
   (Inr [(''applied'', PBool True), (''result'', PDict
      [(''service'', PStr (svc_name s)), (''previous_version'', PStr (last (version_history s))),
       (''deployed_version'', PStr v)])],
    set_client svc (if v \<noteq> last (version_history s)
                    then s\<lparr>version_history := version_history s @ [v]\<rparr> else s) c)"
  by (simp add: apply_compensation_def make_compensation_def compensation_post_def pd_get_def
      pd_item_def dict_get_def bindE_def app_deploy_def deploy_def deployed_version_Inr)

lemma undo_reinsert:
  "apply_compensation ci (make_compensation ''reinsert_records'' [(''rows'', PList (map row_pyval rs))]) c =
   (Inr [(''applied'', PBool True), (''result'', PDict [(''reinserted'', PInt (int (length rs)))])],
    ctx_insert_many (map with_id rs) c)"
proof -
  have "row_of_pyval (row_pyval r) = Inr (with_id r)" for r
    by (simp add: row_of_pyval_def row_pyval_def with_id_def pd_get_def)
  then have "collect (map row_of_pyval (map row_pyval rs)) = Inr (map with_id rs)"
    by (induction rs) simp_all
  then show ?thesis
    by (simp add: apply_compensation_def make_compensation_def pd_get_def pd_item_def
        dict_get_def bindE_def)
qed

lemma undo_noop:
  "apply_compensation ci (noop_compensation why) c =
     (Inr [(''applied'', PBool False), (''reason'', PStr why)], c)"
  by (simp add: apply_compensation_def noop_compensation_def pd_get_def)

section \<open>Executing and undoing\<close>

lemma set_client_clients [simp]: "clients (set_client n s c) = AList.update n s (clients c)"
  by (simp add: set_client_def)

lemma undo_scale_outcome:
  assumes s: "map_of (clients c) svc = Some s" and new: "ctx_get c key = None"
    and ex: "execute_action ci (join_action ''scale_service'' svc) ps key c = (Inr out, c1)"
  obtains r c2 n where "apply_compensation ci (oc_compensation out) c1 = (Inr r, c2)"
    "param_replicas ci ps = Inr n" "map_of (clients c1) svc = Some (s\<lparr>replicas := n\<rparr>)"
    "clients c2 = clients c" "records c2 = records c"
proof (cases "param_replicas ci ps")
  case (Inl e)
  with ex execute_action_fresh(1) [OF new, of ci svc ps] show ?thesis
    by (simp add: fresh_outcome_def)
next
  case (Inr n)
  with ex execute_action_fresh(1) [OF new, of ci svc ps] scale_perform_known [OF s, of ci n]
  have undo: "oc_compensation out = make_compensation ''scale_service''
        [(''service'', PStr svc), (''replicas'', PInt (replicas s))]"
    and cl: "clients c1 = AList.update svc (s\<lparr>replicas := n\<rparr>) (clients c)" "records c1 = records c"
    by (simp_all add: fresh_outcome_def)
  then have s1: "map_of (clients c1) svc = Some (s\<lparr>replicas := n\<rparr>)" by (simp add: AList.update_conv')
  show ?thesis
    by (rule that [OF undo_scale [OF s1, of ci "replicas s", folded undo] Inr s1])
      (simp_all add: cl s AList.update_triv)
qed

lemma undo_config_outcome:
  assumes s: "map_of (clients c) svc = Some s" and new: "ctx_get c key = None"
    and ps: "map_of ps ''key'' = Some (PStr k)" "map_of ps ''value'' = Some (PStr v)"
    and ex: "execute_action ci (join_action ''apply_config_change'' svc) ps key c = (Inr out, c1)"
  shows "oc_compensation out = make_compensation ''apply_config_change'' [(''service'', PStr svc),
      (''key'', PStr k), (''value'', case map_of (config s) k of None \<Rightarrow> PNone | Some p \<Rightarrow> PStr p)]"
    and "clients c1 = AList.update svc (s\<lparr>config := AList.update k v (config s)\<rparr>) (clients c)"
    and "records c1 = records c"
  using ex execute_action_fresh(4) [OF new ps, of ci svc] config_perform_known [OF s, of k v]
  by (simp_all add: fresh_outcome_def)

lemma rollback_undone_history:
  assumes "wf_service s" and "2 \<le> length (version_history s)"
  shows "butlast (version_history s) @ [last (version_history s)] = version_history s"
    and "last (version_history s) \<noteq> last (butlast (version_history s))"
proof -
  obtain h v where h: "version_history s = h @ [v]"
    using assms(2) by (cases "version_history s" rule: rev_cases) auto
  with assms(2) obtain h' v' where "h = h' @ [v']" by (cases h rule: rev_cases) auto
  with h assms(1) show "last (version_history s) \<noteq> last (butlast (version_history s))"
    by (auto simp: wf_service_def distinct_adj_append_iff butlast_append)
  from h show "butlast (version_history s) @ [last (version_history s)] = version_history s" by simp
qed

lemma undo_rollback_outcome:
  assumes s: "map_of (clients c) svc = Some s" and wf: "wf_service s" and new: "ctx_get c key = None"
    and ex: "execute_action ci (join_action ''rollback_deployment'' svc) ps key c = (Inr out, c1)"
  obtains r c2 where "apply_compensation ci (oc_compensation out) c1 = (Inr r, c2)"
    "2 \<le> length (version_history s)"
    "map_of (clients c1) svc = Some (clear_transient (s\<lparr>version_history := butlast (version_history s)\<rparr>))"
    "map_of (clients c2) svc = Some (clear_transient s)"
    "\<And>n. n \<noteq> svc \<Longrightarrow> map_of (clients c2) n = map_of (clients c) n" "records c2 = records c"
proof (cases "2 \<le> length (version_history s)")
  case False
  then have "rollback s = Inl (ValueError (svc_name s @ '' has no prior version to roll back to''))"
    by (simp add: rollback_def)
  with s have "rollback_perform svc c = (Inl (HTTPStatusError 400), c)"
    by (simp add: rollback_perform_def app_rollback_def bindE_def set_client_same)
  with ex execute_action_fresh(2) [OF new, of ci svc ps] show ?thesis by (simp add: fresh_outcome_def)
next
  case True
  let ?s1 = "clear_transient (s\<lparr>version_history := butlast (version_history s)\<rparr>)"
  from ex execute_action_fresh(2) [OF new, of ci svc ps] rollback_perform_known [OF s wf True]
  have undo: "oc_compensation out = make_compensation ''deploy'' [(''service'', PStr svc),
          (''version'', PStr (last (version_history s)))]"
    and cl: "clients c1 = AList.update svc ?s1 (clients c)" "records c1 = records c"
    by (simp_all add: fresh_outcome_def)
  have "rollback s = Inr (last (version_history s), last (butlast (version_history s)), ?s1)"
    using wf True by (simp add: rollback_Inr_iff)
  then have wf1: "wf_service ?s1" by (rule rollback_wf [OF wf])
  from cl have s1: "map_of (clients c1) svc = Some ?s1" by (simp add: AList.update_conv')
  have "last (version_history s) \<noteq> last (version_history ?s1)"
    and h: "version_history ?s1 @ [last (version_history s)] = version_history s"
    using rollback_undone_history [OF wf True] by (simp_all add: clear_transient_def)
  then have ap: "apply_compensation ci (oc_compensation out) c1 = (Inr [(''applied'', PBool True), (''result'', PDict
      [(''service'', PStr (svc_name ?s1)), (''previous_version'', PStr (last (version_history ?s1))),
       (''deployed_version'', PStr (last (version_history s)))])],
    set_client svc (clear_transient s) c1)"
    unfolding undo undo_deploy [OF s1 wf1] by (simp add: h) (simp add: clear_transient_def)
  show ?thesis by (rule that [OF ap True s1]) (simp_all add: cl AList.update_conv')
qed

lemma undo_delete_outcome:
  assumes wf: "wf_ctx c" and new: "ctx_get c key = None"
    and ex: "execute_action ci (join_action ''delete_records'' k) ps key c = (Inr out, c1)"
  obtains ids rs r c2 where "param_ids ci ps = Inr ids"
    "rs = (case ids of Some is \<Rightarrow> ctx_get_by_ids c is | None \<Rightarrow> ctx_get_by_kind c (Some k) 1000000)"
    "ctx_content c1 = (\<lambda>i. if i \<in> r_id ` set rs then None else ctx_content c i)"
    "apply_compensation ci (oc_compensation out) c1 = (Inr r, c2)"
    "ctx_content c2 = ctx_content c" "clients c2 = clients c" "clients c1 = clients c"
proof (cases "param_ids ci ps")
  case (Inl e)
  with ex execute_action_fresh(3) [OF new, of ci k ps] show ?thesis by (simp add: fresh_outcome_def)
next
  case (Inr ids)
  let ?rs = "case ids of Some is \<Rightarrow> ctx_get_by_ids c is | None \<Rightarrow> ctx_get_by_kind c (Some k) 1000000"
  from Inr ex execute_action_fresh(3) [OF new, of ci k ps]
  have undo: "oc_compensation out = make_compensation ''reinsert_records'' [(''rows'', PList (map row_pyval ?rs))]"
    and cl: "clients c1 = clients c" and rc: "records c1 = records (ctx_delete (map r_id ?rs) c)"
    by (auto simp: fresh_outcome_def delete_perform_def Let_def)
  from wf have inv: "wf_repo (records c)" by (simp add: wf_ctx_def)
  have stored: "ctx_content c (r_id r) = Some r" if "r \<in> set ?rs" for r
    using that ctx_records.kind_sound [OF inv] ctx_records.ids_sound [OF inv]
    by (auto split: option.splits)
  have "ctx_content (ctx_insert_many (map with_id ?rs) c1) i = ctx_content c i" for i
  proof -
    have "ctx_content (ctx_insert_many (map with_id ?rs) c1) i =
        repo_content (repo_insert_many (map with_id ?rs) (repo_delete (map r_id ?rs) (records c))) i"
      by (simp add: ctx_content_def ctx_insert_many_def rc ctx_delete_def)
    also have "\<dots> = (case rows_map (rev ?rs) i of None \<Rightarrow> repo_content (repo_delete (map r_id ?rs) (records c)) i
        | Some r \<Rightarrow> Some r)"
      by (rule repo_insert_many_content)
    also have "\<dots> = ctx_content c i"
    proof (cases "rows_map (rev ?rs) i")
      case None
      then have "i \<notin> r_id ` set ?rs" by (simp add: rows_map_None)
      with None show ?thesis using repo.delete_content [OF inv] by (auto simp: ctx_content_def)
    next
      case (Some r)
      then have "r \<in> set ?rs" "r_id r = i" by (auto dest: rows_map_SomeD)
      with Some stored show ?thesis by auto
    qed
    finally show ?thesis .
  qed
  moreover have "ctx_content c1 = (\<lambda>i. if i \<in> r_id ` set ?rs then None else ctx_content c i)"
    using ctx_records.delete_content [OF inv, of "map r_id ?rs"] by (auto simp: ctx_content_def rc)
  ultimately show ?thesis
    by (intro that [OF Inr refl _ undo_reinsert [of ci ?rs c1, folded undo]]) (simp_all add: cl fun_eq_iff)
qed

section \<open>Any compensation\<close>

text \<open>An endpoint whose second call in a row succeeds like the first and changes nothing.\<close>

definition idempotent_post :: "post \<Rightarrow> bool" where
  "idempotent_post f \<longleftrightarrow> (\<forall>s d. wf_service s \<longrightarrow> fst (f s) = Inr d \<longrightarrow>
     (\<exists>d'. f (snd (f s)) = (Inr d', snd (f s))))"

lemma idempotent_posts:
  "idempotent_post (app_scale ci v)" "idempotent_post (app_set_config pk pv)"
  "idempotent_post (app_deploy pv)"
proof -
  show "idempotent_post (app_scale ci v)"
    by (auto simp: idempotent_post_def app_scale_def scale_def split: option.splits)
  show "idempotent_post (app_set_config pk pv)"
    by (auto simp: idempotent_post_def app_set_config_def set_config_def split: pyval.splits)
  show "idempotent_post (app_deploy pv)"
    unfolding idempotent_post_def
  proof (intro allI impI)
    fix s d
    assume wf: "wf_service s" and ok: "fst (app_deploy pv s) = Inr d"
    from ok obtain v where v: "pv = PStr v" by (cases pv) (auto simp: app_deploy_def)
    let ?s' = "if v \<noteq> last (version_history s) then s\<lparr>version_history := version_history s @ [v]\<rparr> else s"
    have ne: "version_history s \<noteq> []" using wf by (simp add: wf_service_def)
    then have "deployed_version ?s' = Inr v" by (simp add: deployed_version_Inr)
    with ne v have "snd (app_deploy pv s) = ?s'" and
      "\<exists>d'. app_deploy pv ?s' = (Inr d', ?s')"
      by (auto simp: app_deploy_def deploy_def deployed_version_Inr)
    then show "\<exists>d'. app_deploy pv (snd (app_deploy pv s)) = (Inr d', snd (app_deploy pv s))" by simp
  qed
qed

lemma compensation_post_cases:
  obtains (pure) "\<And>c. snd (compensation_post args f c) = c"
  | (post) svc g where "f args = Inr g" "\<And>c. compensation_post args f c =
      bindE (http_post svc g) (\<lambda>res. returnE [(''applied'', PBool True), (''result'', PDict res)]) c"
proof (cases "bindR (pd_item args ''service'') as_str")
  case (Inl e)
  then have "snd (compensation_post args f c) = c" for c
    by (cases "pd_item args ''service''") (auto simp: compensation_post_def bindE_def bindR_Inl_iff)
  then show ?thesis by (rule pure)
next
  case (Inr svc)
  then obtain sv where sv: "pd_item args ''service'' = Inr sv" "as_str sv = Inr svc"
    by (auto simp: bindR_Inr_iff)
  show ?thesis
  proof (cases "f args")
    case (Inl e)
    with sv have "snd (compensation_post args f c) = c" for c
      by (cases "client c svc") (simp_all add: compensation_post_def bindE_def)
    then show ?thesis by (rule pure)
  next
    case (Inr g)
    have "compensation_post args f c =
      bindE (http_post svc g) (\<lambda>res. returnE [(''applied'', PBool True), (''result'', PDict res)]) c" for c
      by (cases "map_of (clients c) svc") (simp_all add: compensation_post_def bindE_def sv Inr)
    with Inr show ?thesis by (rule post)
  qed
qed

lemma apply_compensation_cases:
  obtains (pure) "\<And>c. snd (apply_compensation ci undo c) = c"
  | (post) svc g where "idempotent_post g" "keeps_identity g" "\<And>c. apply_compensation ci undo c =
      bindE (http_post svc g) (\<lambda>res. returnE [(''applied'', PBool True), (''result'', PDict res)]) c"
  | (reinsert) rs r where "\<And>c. apply_compensation ci undo c = (Inr r, ctx_insert_many (map with_id rs) c)"
proof -
  let ?ty = "pd_get undo ''type''"
  show ?thesis
  proof (cases "?ty = PStr ''noop''")
    case True
    then show ?thesis by (intro pure) (simp add: apply_compensation_def)
  next
    case noop: False
    show ?thesis
    proof (cases "case map_of undo ''args'' of None \<Rightarrow> Inr [] | Some a \<Rightarrow> as_dict a")
      case (Inl e)
      with noop show ?thesis by (intro pure) (simp add: apply_compensation_def Let_def bindE_def)
    next
      case (Inr args)
      note base = apply_compensation_def Let_def bindE_def Inr
      consider (sc) "?ty = PStr ''scale_service''" | (cf) "?ty = PStr ''apply_config_change''"
        | (dp) "?ty = PStr ''deploy''" | (ri) "?ty = PStr ''reinsert_records''"
        | (other) "?ty \<notin> {PStr ''scale_service'', PStr ''apply_config_change'', PStr ''deploy'',
            PStr ''reinsert_records''}" by blast
      then show ?thesis
      proof cases
        case sc
        let ?f = "\<lambda>a. bindR (pd_item a ''replicas'') (\<lambda>n. Inr (app_scale ci n))"
        from sc have eq: "apply_compensation ci undo = compensation_post args ?f"
          by (intro ext) (simp add: base)
        show ?thesis
        proof (cases rule: compensation_post_cases [of args ?f])
          case (post svc g)
          then show ?thesis using eq
            by (intro that(2) [of g svc]) (auto simp: bindR_Inr_iff idempotent_posts)
        qed (use eq pure in auto)
      next
        case cf
        let ?f = "\<lambda>a. bindR (pd_item a ''key'') (\<lambda>k. bindR (pd_item a ''value'') (\<lambda>v. Inr (app_set_config k v)))"
        from cf have eq: "apply_compensation ci undo = compensation_post args ?f"
          by (intro ext) (simp add: base)
        show ?thesis
        proof (cases rule: compensation_post_cases [of args ?f])
          case (post svc g)
          then show ?thesis using eq
            by (intro that(2) [of g svc]) (auto simp: bindR_Inr_iff idempotent_posts)
        qed (use eq pure in auto)
      next
        case dp
        let ?f = "\<lambda>a. bindR (pd_item a ''version'') (\<lambda>v. Inr (app_deploy v))"
        from dp have eq: "apply_compensation ci undo = compensation_post args ?f"
          by (intro ext) (simp add: base)
        show ?thesis
        proof (cases rule: compensation_post_cases [of args ?f])
          case (post svc g)
          then show ?thesis using eq
            by (intro that(2) [of g svc]) (auto simp: bindR_Inr_iff idempotent_posts)
        qed (use eq pure in auto)
      next
        case ri
        let ?r = "bindR (pd_item args ''rows'') (\<lambda>rv. bindR (as_list rv) (\<lambda>vs. collect (map row_of_pyval vs)))"
        have eq: "apply_compensation ci undo c = (case ?r of Inl e \<Rightarrow> (Inl e, c)
            | Inr rs \<Rightarrow> (Inr [(''applied'', PBool True),
                       (''result'', PDict [(''reinserted'', PInt (int (length rs)))])],
                  ctx_insert_many rs c))" for c
          using ri by (auto simp: base bindR_def split: sum.split)
        show ?thesis
        proof (cases ?r)
          case (Inr ns)
          then obtain vs where "collect (map row_of_pyval vs) = Inr ns" by (auto simp: bindR_Inr_iff)
          then have "\<exists>rs. ns = map with_id rs"
          proof (induction vs arbitrary: ns)
            case (Cons v vs)
            then obtain n ns' where n: "row_of_pyval v = Inr n" and ns: "ns = n # ns'"
              and "collect (map row_of_pyval vs) = Inr ns'" by (auto simp: bindR_Inr_iff)
            with Cons.IH obtain rs where "ns' = map with_id rs" by blast
            moreover from n obtain i k p where "n = \<lparr>n_id = Some i, n_kind = k, n_payload = p\<rparr>"
              by (auto simp: row_of_pyval_def bindR_Inr_iff)
            ultimately have "ns = map with_id (\<lparr>r_id = i, r_kind = k, r_payload = p\<rparr> # rs)"
              using ns by (simp add: with_id_def)
            then show ?case by blast
          qed simp
          then obtain rs where "ns = map with_id rs" by blast
          with eq Inr show ?thesis by (intro reinsert) simp
        qed (intro pure, simp add: eq)
      next
        case other
        with noop show ?thesis by (intro pure) (simp add: base)
      qed
    qed
  qed
qed

lemma apply_compensation_sandbox:
  assumes "sandbox c"
  shows "sandbox (snd (apply_compensation ci undo c))"
proof (cases rule: apply_compensation_cases [of ci undo])
  case (post svc g)
  with assms show ?thesis by (simp add: sandbox_post_pure)
qed (use assms in \<open>simp_all add: sandbox_ctx_ops\<close>)

lemma apply_compensation_store: "store (snd (apply_compensation ci undo c)) = store c"
proof (cases rule: apply_compensation_cases [of ci undo])
  case (post svc g)
  then show ?thesis by (simp add: snd_post_pure frame_simps)
qed simp_all

lemma reinsert_twice:
  "ctx_content (ctx_insert_many (map with_id rs) (ctx_insert_many (map with_id rs) c)) =
     ctx_content (ctx_insert_many (map with_id rs) c)"
  by (rule ext) (simp add: ctx_content_def ctx_insert_many_def repo_insert_many_content split: option.split)

text \<open>
  A compensation that succeeded, applied once more: it succeeds again and changes neither the
  services nor the rows.
\<close>

lemma compensation_again:
  assumes wf: "wf_ctx c" and ap: "apply_compensation ci undo c = (Inr r, c')"
  obtains r' c'' where "apply_compensation ci undo c' = (Inr r', c'')" "clients c'' = clients c'"
    "ctx_content c'' = ctx_content c'" "store c'' = store c'"
proof (cases rule: apply_compensation_cases [of ci undo])
  case pure
  from pure [of c] ap have "c' = c" by simp
  with ap show ?thesis using that by blast
next
  case (post svc g)
  from ap post(3) obtain d where hp: "http_post svc g c = (Inr d, c')"
    by (auto dest!: bindE_InrD)
  then obtain s where s: "map_of (clients c) svc = Some s"
    by (cases "map_of (clients c) svc") auto
  with hp have ok: "fst (g s) = Inr d" and c': "c' = set_client svc (snd (g s)) c"
    by (auto simp: raise_for_status_def split: sum.splits)
  from wf s have "wf_service s" by (rule wf_ctx_client)
  with post(1) ok obtain d' where "g (snd (g s)) = (Inr d', snd (g s))"
    by (auto simp: idempotent_post_def)
  then have "http_post svc g c' = (Inr d', c')" by (simp add: c' del: set_client_clients)
  then have "apply_compensation ci undo c' = (Inr [(''applied'', PBool True), (''result'', PDict d')], c')"
    by (simp add: post(3))
  with that show ?thesis by blast
next
  case (reinsert rs r1)
  from ap reinsert have "c' = ctx_insert_many (map with_id rs) c" by simp
  then show ?thesis by (intro that [OF reinsert [of c']]) (simp_all add: reinsert_twice)
qed

end
