(* ===== verification/Control.thy ===== *)
theory Control
  imports Graph Compensation
begin

text \<open>
  The invariant of the workflow: what the state holds when a node is pending, proved for every
  step of the graph over a well-formed sandbox. It says that no node reads a key that is
  missing, and that a node which changes the environment is only pending after a clearance.
\<close>

section \<open>Inverting a step\<close>

lemma with_audit_Inr:
  assumes "with_audit rt n f st w = (Inr u, w')"
  obtains c e where "f st (w_ctx w) = (Inr u, c)" "audit_entry rt (w_tick w) n st u = Inr e"
    "w' = w\<lparr>w_ctx := c, w_audit := w_audit w @ [e], w_tick := w_tick w + 1\<rparr>"
  using assms
  by (auto simp: with_audit_def Let_def mem_audit_record_def split: prod.splits sum.splits)

lemma with_audit_Inl:
  assumes "with_audit rt n f st w = (Inl e, w')"
  obtains (node) c where "f st (w_ctx w) = (Inl e, c)"
      "w' = w\<lparr>w_ctx := c, w_tick := w_tick w + 1\<rparr>"
  | (entry) u c where "f st (w_ctx w) = (Inr u, c)" "audit_entry rt (w_tick w) n st u = Inl e"
      "w' = w\<lparr>w_ctx := c, w_tick := w_tick w + 1\<rparr>"
  using assms by (auto simp: with_audit_def Let_def split: prod.splits sum.splits)

lemma exec_step_Next:
  assumes "exec_step rt rv d n st w = (Next nx st', w')"
  obtains u c e where "node_fn rt d (w_tick w) n st (w_ctx w) = (Inr u, c)"
    "audit_entry rt (w_tick w) n st u = Inr e"
    "w' = w\<lparr>w_ctx := c, w_audit := w_audit w @ [e], w_tick := w_tick w + 1\<rparr>"
    "st' = merge st u" "graph_next rv n st' = Inr nx" "n = Await \<Longrightarrow> d \<noteq> None"
proof (cases "n = Await \<and> d = None")
  case True
  with assms show ?thesis by (auto simp: exec_step_def split: sum.splits)
next
  case False
  obtain r w1 where r: "with_audit rt n (node_fn rt d (w_tick w) n) st w = (r, w1)"
    by (cases "with_audit rt n (node_fn rt d (w_tick w) n) st w")
  with assms False obtain u where u: "r = Inr u" "w1 = w'" "st' = merge st u" "graph_next rv n st' = Inr nx"
    by (cases r) (auto simp: exec_step_def split: sum.splits)
  with r have "with_audit rt n (node_fn rt d (w_tick w) n) st w = (Inr u, w')" by simp
  then obtain c e where "node_fn rt d (w_tick w) n st (w_ctx w) = (Inr u, c)"
    "audit_entry rt (w_tick w) n st u = Inr e"
    "w' = w\<lparr>w_ctx := c, w_audit := w_audit w @ [e], w_tick := w_tick w + 1\<rparr>"
    by (rule with_audit_Inr)
  with u False show ?thesis by (intro that) auto
qed

section \<open>The invariant\<close>

text \<open>Actions whose relevant fields exist on every full sweep.\<close>

definition fp_ok :: "string \<Rightarrow> bool" where
  "fp_ok a = (case split_colon a of
     None \<Rightarrow> False
   | Some (tool, target) \<Rightarrow> tool \<in> set KNOWN_TOOLS \<and>
       (tool = ''delete_records'' \<or>
        target \<in> set KNOWN_SERVICES \<and> (tool = ''clear_cache'' \<longrightarrow> has_disk target)))"

lemma relevant_fields_unknown_tool:
  "tool \<notin> set KNOWN_TOOLS \<Longrightarrow> relevant_fields ob tool target = Inl (ValueError (''unknown tool '' @ py_repr tool))"
  by (simp add: KNOWN_TOOLS_def relevant_fields_def)

lemma relevant_fields_missing:
  assumes "tool \<in> set KNOWN_TOOLS" and "tool \<noteq> ''delete_records''"
    and "map_of (ob_services ob) target = None"
  shows "relevant_fields ob tool target = Inl (KeyError target)"
  using assms(1)
  by (cases rule: known_tool_cases)
    (use assms(2,3) in \<open>simp_all add: relevant_fields_of service_fields_def service_item_def\<close>)

lemma relevant_fields_no_disk:
  "map_of (ob_services ob) target = Some so \<Longrightarrow> so_disk so = None \<Longrightarrow>
     relevant_fields ob ''clear_cache'' target = Inl (KeyError ''disk'')"
  by (simp add: relevant_fields_of service_item_def)

lemma fp_ok_iff:
  assumes ob: "full_sweep ob"
  shows "(\<exists>fp. compute_fingerprint fr dg ob a = Inr fp) \<longleftrightarrow> fp_ok a"
proof (cases "split_colon a")
  case None
  then show ?thesis by (simp add: compute_fingerprint_def split_action_def fp_ok_def)
next
  case (Some p)
  obtain tool target where p: "p = (tool, target)" by (cases p)
  with Some have "(\<exists>fp. compute_fingerprint fr dg ob a = Inr fp) \<longleftrightarrow>
      (\<exists>fs. relevant_fields ob tool target = Inr fs)"
    by (simp add: compute_fingerprint_def split_action_def bindR_Inr_iff)
  also have "\<dots> \<longleftrightarrow> fp_ok a"
  proof (cases "tool \<in> set KNOWN_TOOLS")
    case False
    with Some p show ?thesis by (simp add: relevant_fields_unknown_tool fp_ok_def)
  next
    case known: True
    show ?thesis
    proof (cases "tool = ''delete_records''")
      case True
      with Some p known show ?thesis by (simp add: fp_ok_def relevant_fields_of)
    next
      case nd: False
      show ?thesis
      proof (cases "target \<in> set KNOWN_SERVICES")
        case False
        with Some p nd known full_sweep_unknown [OF ob False] show ?thesis
          by (simp add: fp_ok_def relevant_fields_missing)
      next
        case True
        with ob obtain so where so: "map_of (ob_services ob) target = Some so"
          and disk: "(so_disk so \<noteq> None) = has_disk target" by (rule full_sweep_service)
        show ?thesis
        proof (cases "tool = ''clear_cache'' \<and> \<not> has_disk target")
          case True
          with Some p so disk show ?thesis by (simp add: fp_ok_def relevant_fields_no_disk)
        next
          case False
          have "\<exists>fs. relevant_fields ob tool target = Inr fs"
          proof (rule relevant_fields_total [OF known], intro exI conjI impI)
            show "map_of (ob_services ob) target = Some so" by (rule so)
            show "so_disk so \<noteq> None" if "tool = ''clear_cache''" using False that disk by simp
          qed
          moreover have "fp_ok a" using False Some p known True by (simp add: fp_ok_def)
          ultimately show ?thesis by (simp only: simp_thms)
        qed
      qed
    qed
  qed
  finally show ?thesis .
qed

lemma fp_ok_split: "fp_ok a \<Longrightarrow> \<exists>tool target. split_action a = Inr (tool, target)"
  by (auto simp: fp_ok_def split_action_Inr split: option.splits)

text \<open>What the state holds once a diagnosis, a proposal, a sound proposal is there.\<close>

definition holds :: "('a \<Rightarrow> bool) \<Rightarrow> 'a option \<Rightarrow> bool" where
  "holds P v = (case v of None \<Rightarrow> False | Some x \<Rightarrow> P x)"

lemma holds_simps [simp]: "holds P None = False" "holds P (Some x) = P x"
  by (simp_all add: holds_def)

lemma holdsE: "holds P v \<Longrightarrow> (\<And>x. v = Some x \<Longrightarrow> P x \<Longrightarrow> thesis) \<Longrightarrow> thesis"
  by (cases v) auto

definition started :: "agent_state \<Rightarrow> bool" where
  "started st \<longleftrightarrow> st_run_id st \<noteq> None \<and> (st_replan_cycles st = None \<or> holds (\<lambda>n. 0 \<le> n) (st_replan_cycles st))"

definition diagnosed :: "agent_state \<Rightarrow> bool" where
  "diagnosed st \<longleftrightarrow> started st \<and> holds full_sweep (st_observations st) \<and> st_diagnosis st \<noteq> None"

definition proposed :: "agent_state \<Rightarrow> bool" where
  "proposed st \<longleftrightarrow> diagnosed st \<and> st_proposed_action st \<noteq> None"

definition sound :: "agent_state \<Rightarrow> bool" where
  "sound st \<longleftrightarrow> diagnosed st \<and> holds fp_ok (st_proposed_action st) \<and> st_state_fingerprint st \<noteq> None"

text \<open>A human said yes; or the final tier is low, which no forced-high tool can have.\<close>

definition said_yes :: "agent_state \<Rightarrow> bool" where
  "said_yes st \<longleftrightarrow> st_approval_decision st \<in> {Some Approved, Some Edited}"

definition low_risk :: "agent_state \<Rightarrow> bool" where
  "low_risk st \<longleftrightarrow> st_risk_tier_final st = Some LOW \<and>
     holds (\<lambda>a. split_head a \<notin> set FORCED_HIGH_TOOLS) (st_proposed_action st)"

definition cleared :: "agent_state \<Rightarrow> bool" where
  "cleared st \<longleftrightarrow> low_risk st \<or> said_yes st"

definition keyed :: "agent_state \<Rightarrow> bool" where
  "keyed st \<longleftrightarrow> (case (st_run_id st, st_proposed_action st) of
     (Some run, Some a) \<Rightarrow> st_idempotency_key st = Some (run @ '':'' @ a)
   | _ \<Rightarrow> False)"

definition executed :: "agent_state \<Rightarrow> bool" where
  "executed st \<longleftrightarrow> st_execution_result st \<noteq> None \<and> st_compensation st \<noteq> None"

fun node_inv :: "bool \<Rightarrow> node \<Rightarrow> agent_state \<Rightarrow> bool" where
  "node_inv rv Diagnose st \<longleftrightarrow> started st"
| "node_inv rv Propose st \<longleftrightarrow> diagnosed st"
| "node_inv rv Classify st \<longleftrightarrow> sound st"
| "node_inv rv Mark_awaiting st \<longleftrightarrow> sound st \<and> holds (\<lambda>t. t \<noteq> LOW) (st_risk_tier_final st)"
| "node_inv rv Await st \<longleftrightarrow> sound st \<and> holds (\<lambda>t. t \<noteq> LOW) (st_risk_tier_final st) \<and>
     st_status st = Some AWAITING_APPROVAL"
| "node_inv rv Revalidate st \<longleftrightarrow> sound st \<and> said_yes st \<and> rv"
| "node_inv rv Prepare st \<longleftrightarrow> sound st \<and> cleared st"
| "node_inv rv Execute st \<longleftrightarrow> sound st \<and> cleared st \<and> keyed st"
| "node_inv rv Verify st \<longleftrightarrow> sound st \<and> cleared st \<and> keyed st \<and> executed st"
| "node_inv rv Rolling_back st \<longleftrightarrow> sound st \<and> cleared st \<and> keyed st \<and> executed st"
| "node_inv rv Rolled_back st \<longleftrightarrow> proposed st"
| "node_inv rv Replan st \<longleftrightarrow> proposed st"
| "node_inv rv Escalate st \<longleftrightarrow> started st"
| "node_inv rv Completed st \<longleftrightarrow> started st"

lemmas inv_defs = started_def diagnosed_def proposed_def sound_def said_yes_def low_risk_def
  cleared_def keyed_def executed_def

text \<open>The invariant of a checkpoint: its pending node's, or a run that is over.\<close>

fun finished :: "agent_state \<Rightarrow> bool" where
  "finished st \<longleftrightarrow> st_run_id st \<noteq> None \<and> st_status st \<in> {Some COMPLETED, Some ESCALATED} \<and>
     st_final_state st = st_status st"

definition cp_inv :: "bool \<Rightarrow> checkpoint \<Rightarrow> bool" where
  "cp_inv rv cp = (case cp_next cp of None \<Rightarrow> finished (cp_state cp) | Some n \<Rightarrow> node_inv rv n (cp_state cp))"

section \<open>Every step keeps the invariant\<close>

lemma audit_entry_run: "audit_entry rt t n st u = Inr e \<Longrightarrow> st_run_id st = Some (ar_run_id e)"
  by (auto simp: audit_entry_def Let_def bindR_Inr_iff need_Inr)

lemma snd_bind_return: "snd (bindE m (\<lambda>x. returnE (g x)) c) = snd (m c)"
  by (simp add: bindE_def split: prod.split sum.split)

lemma node_sandbox:
  assumes "sandbox c" and "node_fn rt d t n st c = (r, c')"
  shows "sandbox c'"
proof (cases n)
  case Diagnose
  with assms show ?thesis by (auto simp: diagnose_def split: sum.splits)
next
  case Propose
  with assms show ?thesis by (simp add: propose_action_def)
next
  case Classify
  with assms show ?thesis by (simp add: classify_risk_def)
next
  case Await
  with assms show ?thesis by (cases d) (simp_all add: await_approval_def)
next
  case Revalidate
  with assms show ?thesis by (simp add: revalidate_def)
next
  case Prepare
  with assms show ?thesis by (simp add: prepare_execution_def)
next
  case Verify
  with assms show ?thesis by (simp add: verify_def)
next
  case Execute
  have ex: "sandbox (snd (execute_action ci a ps key c))" for ci a ps key
    using execute_action_sandbox [OF assms(1)] by (cases "execute_action ci a ps key c") auto
  have "sandbox (snd (execute rt st c))"
    using assms(1) ex by (cases "st_proposed_action st"; cases "st_idempotency_key st")
      (simp_all add: execute_def bindE_def [of "liftE r" for r] snd_bind_return)
  with assms Execute show ?thesis by simp
next
  case Rolling_back
  have ap: "sandbox (snd (apply_compensation ci undo c))" for ci undo
    by (rule apply_compensation_sandbox [OF assms(1)])
  have "sandbox (snd (rolling_back rt st c))"
    using assms(1) ap by (cases "st_compensation st")
      (simp_all add: rolling_back_def bindE_def [of "liftE r" for r] snd_bind_return)
  with assms Rolling_back show ?thesis by simp
qed (use assms in \<open>simp_all add: pure_node_defs\<close>)

lemma route_simps:
  "route_after_proposal st = Inr (if truthy (st_invalid_proposal_reason st) then Replan else Classify)"
  "route_after_risk_classification st = Inr n \<longleftrightarrow>
     (\<exists>t. st_risk_tier_final st = Some t \<and> n = (if t = LOW then Prepare else Mark_awaiting))"
  "route_after_approval st = Inr n \<longleftrightarrow> (\<exists>d. st_approval_decision st = Some d \<and>
     n = (if d \<in> {Approved, Edited} then Revalidate else if d = Rejected then Replan else Escalate))"
  "route_after_approval_no_revalidation st = Inr n \<longleftrightarrow> (\<exists>d. st_approval_decision st = Some d \<and>
     n = (if d \<in> {Approved, Edited} then Prepare else if d = Rejected then Replan else Escalate))"
  "route_after_revalidation st = Inr n \<longleftrightarrow>
     (\<exists>b. st_drift_detected st = Some b \<and> n = (if b then Replan else Prepare))"
  "route_after_verification st = Inr n \<longleftrightarrow>
     (\<exists>b. st_verification_passed st = Some b \<and> n = (if b then Completed else Rolling_back))"
  "route_after_replan st = Inr n \<longleftrightarrow> (\<exists>k. st_replan_cycles st = Some k \<and>
     n = (if k \<ge> MAX_REPLAN_CYCLES then Escalate else Propose))"
  by (auto simp: route_defs bindR_Inr_iff need_Inr)

lemma split_head_action: "split_action a = Inr (tool, target) \<Longrightarrow> split_head a = tool"
  by (simp add: split_action_Inr split_head_eq)

lemma valid_fp_ok:
  assumes "full_sweep ob" and "validate_proposal ob a = Inr None"
  shows "fp_ok a"
  using valid_has_fingerprint [OF assms(2)] fp_ok_iff [OF assms(1)] by blast

lemma gathered_full:
  assumes "sandbox c" and "gather_observations lg c = Inr ob"
  shows "full_sweep ob"
proof -
  obtain ob' where "gather_observations lg c = Inr ob'" "full_sweep ob'"
    using gather_full_sweep [OF assms(1)] by blast
  with assms(2) show ?thesis by simp
qed

text \<open>The invariant of the pending node, per node that just ran.\<close>

lemma inv_diagnose:
  "sandbox c \<Longrightarrow> started st \<Longrightarrow> diagnose rt t st c = (Inr u, c') \<Longrightarrow> diagnosed (merge st u)"
  by (drule diagnose_update) (auto simp: inv_defs gathered_full)

lemma inv_propose:
  assumes "diagnosed st" and "propose_action rt t st c = (Inr u, c')"
  shows "proposed (merge st u) \<and> (\<not> truthy (st_invalid_proposal_reason (merge st u)) \<longrightarrow> sound (merge st u))"
proof -
  from propose_update [OF assms(2)] obtain ob a ps r fp inv where ob: "st_observations st = Some ob"
    and v: "validate_proposal ob a = Inr inv"
    and some: "inv = None \<longrightarrow> (\<exists>f. fp = Some f)"
    and u: "u = [Status ACTION_PROPOSED, Proposed_action a, Action_parameters ps, Action_rationale r,
          State_fingerprint fp, Invalid_proposal_reason inv]"
    by blast
  from assms(1) ob have full: "full_sweep ob" by (simp add: inv_defs)
  have "inv \<noteq> Some []"
    using v by (cases "split_action a") (auto simp: validate_proposal_def bindR_def
        split: option.splits if_splits)
  then have "\<not> truthy inv \<Longrightarrow> inv = None" by (auto simp: truthy_def)
  with valid_fp_ok [OF full] v some assms(1) show ?thesis by (auto simp: u inv_defs)
qed

lemma inv_classify:
  assumes s: "sound st" and cr: "classify_risk rt t st c = (Inr u, c')"
  shows "sound (merge st u) \<and> (st_risk_tier_final (merge st u) = Some LOW \<longrightarrow> low_risk (merge st u))"
proof -
  from classify_update [OF cr] obtain a tool target sit tier r fl where
    a: "st_proposed_action st = Some a" "split_action a = Inr (tool, target)"
    and u: "u = [Status RISK_CLASSIFIED, Risk_tier_llm tier, Risk_tier_final (apply_policy tool tier sit),
          Risk_rationale r, Redundancy_floor_applied fl]" by blast
  from s a show ?thesis by (auto simp: u inv_defs split_head_action policy_low_iff)
qed

lemma inv_await:
  assumes s: "sound st" and aw: "await_approval rt h st c = (Inr u, c')"
  shows "sound (merge st u) \<and> st_approval_decision (merge st u) = Some (hd_decision h)"
proof -
  from await_update [OF aw] obtain rest where
    u: "u = [Approval_decision (hd_decision h), Approver_id (hd_approver_id h)] @ rest"
    and rest: "rest = [] \<or> (\<exists>a ob fp. rest = [Proposed_action a, State_fingerprint (Some fp)] \<and>
        hd_edited_action h = Some a \<and> st_observations st = Some ob \<and>
        compute_fingerprint (rt_float rt) (rt_digest rt) ob a = Inr fp)" by blast
  from rest show ?thesis
  proof
    assume "rest = []"
    with s u show ?thesis by (simp add: inv_defs)
  next
    assume "\<exists>a ob fp. rest = [Proposed_action a, State_fingerprint (Some fp)] \<and>
        hd_edited_action h = Some a \<and> st_observations st = Some ob \<and>
        compute_fingerprint (rt_float rt) (rt_digest rt) ob a = Inr fp"
    then obtain a ob fp where r: "rest = [Proposed_action a, State_fingerprint (Some fp)]"
      and ob: "st_observations st = Some ob"
      and fp: "compute_fingerprint (rt_float rt) (rt_digest rt) ob a = Inr fp" by blast
    from s ob have "full_sweep ob" by (simp add: inv_defs)
    from fp_ok_iff [OF this] fp have "fp_ok a" by blast
    with s u r show ?thesis by (simp add: inv_defs)
  qed
qed

lemma inv_revalidate:
  assumes "sandbox c" and "sound st" and "revalidate rt t st c = (Inr u, c')"
  shows "sound (merge st u) \<and> st_approval_decision (merge st u) = st_approval_decision st"
  using revalidate_update [OF assms(3)] assms(1,2) by (auto simp: inv_defs gathered_full)

lemma sound_proposed: "sound st \<Longrightarrow> proposed st"
  by (auto simp: sound_def proposed_def elim: holdsE)

text \<open>One step of the graph keeps the sandbox and establishes the invariant of the next node.\<close>

lemma step_inv:
  assumes ex: "exec_step rt rv d n st w = (Next nx st', w')"
    and sb: "sandbox (w_ctx w)" and inv: "node_inv rv n st"
  shows "sandbox (w_ctx w') \<and> cp_inv rv \<lparr>cp_state = st', cp_next = nx\<rparr>"
proof -
  from ex obtain u c e where fn: "node_fn rt d (w_tick w) n st (w_ctx w) = (Inr u, c)"
    and w': "w_ctx w' = c" and st': "st' = merge st u" and nx: "graph_next rv n st' = Inr nx"
    and dec: "n = Await \<Longrightarrow> d \<noteq> None"
    by (rule exec_step_Next) auto
  have "cp_inv rv \<lparr>cp_state = st', cp_next = nx\<rparr>"
  proof (cases n)
    case Diagnose
    with fn nx inv sb show ?thesis by (auto simp: st' cp_inv_def inv_diagnose)
  next
    case Propose
    with fn inv have "proposed st' \<and> (\<not> truthy (st_invalid_proposal_reason st') \<longrightarrow> sound st')"
      using inv_propose by (simp add: st')
    with Propose nx show ?thesis by (auto simp: cp_inv_def route_simps)
  next
    case Classify
    with fn inv have "sound st' \<and> (st_risk_tier_final st' = Some LOW \<longrightarrow> low_risk st')"
      using inv_classify by (simp add: st')
    with Classify nx show ?thesis
      by (auto simp: cp_inv_def route_simps bindR_Inr_iff cleared_def split: if_splits)
  next
    case Mark_awaiting
    with fn nx inv show ?thesis
      by (auto simp: st' cp_inv_def pure_node_defs inv_defs)
  next
    case Await
    with dec obtain h where h: "d = Some h" by auto
    with Await fn inv have s: "sound st'" and dh: "st_approval_decision st' = Some (hd_decision h)"
      using inv_await by (auto simp: st')
    from s have "proposed st'" "started st'" by (auto simp: sound_proposed sound_def diagnosed_def)
    with Await nx s dh show ?thesis
      by (auto simp: cp_inv_def route_simps bindR_Inr_iff cleared_def said_yes_def split: if_splits)
  next
    case Revalidate
    with fn inv sb have "sound st'" "st_approval_decision st' = st_approval_decision st" "said_yes st"
      using inv_revalidate by (auto simp: st')
    with Revalidate nx show ?thesis
      by (auto simp: cp_inv_def route_simps bindR_Inr_iff cleared_def said_yes_def sound_proposed
          split: if_splits)
  next
    case Prepare
    with fn have "prepare_execution st (w_ctx w) = (Inr u, c)" by simp
    from prepare_update [OF this] Prepare inv nx show ?thesis by (auto simp: st' cp_inv_def inv_defs)
  next
    case Execute
    with fn have "execute rt st (w_ctx w) = (Inr u, c)" by simp
    from execute_update [OF this] Execute inv nx show ?thesis
      by (auto simp: st' cp_inv_def inv_defs split: option.splits)
  next
    case Verify
    with fn have "verify st (w_ctx w) = (Inr u, c)" by simp
    from verify_update [OF this] obtain b where "u = [Status VERIFYING, Verification_passed b]" by blast
    with Verify inv nx show ?thesis
      by (cases b) (auto simp: st' cp_inv_def inv_defs route_simps bindR_Inr_iff split: option.splits)
  next
    case Rolling_back
    with fn have "rolling_back rt st (w_ctx w) = (Inr u, c)" by simp
    from rolling_back_update [OF this] obtain r where "u = [Status ROLLING_BACK, Rollback_result r]" by blast
    with Rolling_back inv nx show ?thesis
      by (auto simp: st' cp_inv_def inv_defs split: option.splits elim: holdsE)
  next
    case Rolled_back
    with fn nx inv show ?thesis by (auto simp: st' cp_inv_def pure_node_defs inv_defs)
  next
    case Replan
    with fn nx inv show ?thesis
      by (auto simp: st' cp_inv_def pure_node_defs inv_defs route_simps bindR_Inr_iff
          split: if_splits option.splits elim: holdsE)
  next
    case Escalate
    with fn nx inv show ?thesis by (auto simp: st' cp_inv_def pure_node_defs inv_defs)
  next
    case Completed
    with fn nx inv show ?thesis by (auto simp: st' cp_inv_def pure_node_defs inv_defs)
  qed
  with node_sandbox [OF sb fn] w' show ?thesis by simp
qed

end
