(* ===== verification/Runs.thy ===== *)
theory Runs
  imports Control
begin

text \<open>
  Runs of the graph over time: steps of the nodes, interference by the environment and by other
  runs, and crashes that lose a step's checkpoint but not its effects. What is reachable keeps
  the invariant, and no run goes on for ever.
\<close>

section \<open>Reachable configurations\<close>

text \<open>
  What may happen to the world of a run from outside: the sandbox stays well-formed, other runs
  write their own records, time goes on, and the ledger only grows.
\<close>

definition interferes :: "string \<Rightarrow> world \<Rightarrow> world \<Rightarrow> bool" where
  "interferes run w w' \<longleftrightarrow> (sandbox (w_ctx w) \<longrightarrow> sandbox (w_ctx w')) \<and> w_tick w \<le> w_tick w' \<and>
     (\<exists>es. w_audit w' = w_audit w @ es \<and> (\<forall>e \<in> set es. ar_run_id e \<noteq> run)) \<and>
     (\<forall>k row. ctx_get (w_ctx w) k = Some row \<longrightarrow> ctx_get (w_ctx w') k = Some row)"

text \<open>In particular a fault that \<^verbatim>\<open>inject_fault\<close> puts on a service, and any other request to one.\<close>

lemma interferes_post:
  "keeps_identity f \<Longrightarrow> interferes run w (w\<lparr>w_ctx := snd (http_post n f (w_ctx w))\<rparr>)"
  by (simp add: interferes_def sandbox_http_post ctx_get_def frame_simps)

inductive run_reach ::
  "runtime \<Rightarrow> bool \<Rightarrow> bool \<Rightarrow> string \<Rightarrow> agent_state \<Rightarrow> world \<Rightarrow> checkpoint \<times> world \<Rightarrow> bool"
  for rt rv crashes run init w0 where
  start: "run_reach rt rv crashes run init w0 (\<lparr>cp_state = init, cp_next = Some Diagnose\<rparr>, w0)"
| step: "run_reach rt rv crashes run init w0 x \<Longrightarrow> graph_step rt rv d x y \<Longrightarrow>
    run_reach rt rv crashes run init w0 y"
| environment: "run_reach rt rv crashes run init w0 (cp, w) \<Longrightarrow> interferes run w w' \<Longrightarrow>
    run_reach rt rv crashes run init w0 (cp, w')"
| crash: "run_reach rt rv crashes run init w0 (\<lparr>cp_state = st, cp_next = Some n\<rparr>, w) \<Longrightarrow> crashes \<Longrightarrow>
    exec_step rt rv d n st w = (r, w') \<Longrightarrow>
    run_reach rt rv crashes run init w0 (\<lparr>cp_state = st, cp_next = Some n\<rparr>, w')"
| crash_before_audit: "run_reach rt rv crashes run init w0 (\<lparr>cp_state = st, cp_next = Some n\<rparr>, w) \<Longrightarrow>
    crashes \<Longrightarrow> node_fn rt d (w_tick w) n st (w_ctx w) = (r, c) \<Longrightarrow>
    run_reach rt rv crashes run init w0 (\<lparr>cp_state = st, cp_next = Some n\<rparr>, w\<lparr>w_ctx := c\<rparr>)"

lemma exec_step_sandbox:
  assumes "sandbox (w_ctx w)" and "exec_step rt rv d n st w = (r, w')"
  shows "sandbox (w_ctx w')"
proof (cases "n = Await \<and> d = None")
  case True
  with assms show ?thesis by (simp add: exec_step_def)
next
  case False
  obtain q w1 where q: "with_audit rt n (node_fn rt d (w_tick w) n) st w = (q, w1)"
    by (cases "with_audit rt n (node_fn rt d (w_tick w) n) st w")
  with assms(2) False have "w1 = w'" by (auto simp: exec_step_def split: sum.splits)
  moreover have "w_ctx w1 = snd (node_fn rt d (w_tick w) n st (w_ctx w))"
    using q by (auto simp: with_audit_def Let_def split: prod.splits sum.splits)
  ultimately show ?thesis
    using node_sandbox [OF assms(1)] by (metis prod.collapse)
qed

lemma step_reach_inv:
  assumes "graph_step rt rv d (cp, w) (cp', w')" and "sandbox (w_ctx w)" and "cp_inv rv cp"
  shows "sandbox (w_ctx w') \<and> cp_inv rv cp'"
  using assms(1)
proof (cases rule: graph_stepE)
  case (1 n st nx st')
  with assms(2,3) show ?thesis using step_inv [OF 1(3)] by (simp add: cp_inv_def)
qed

text \<open>Every reachable configuration satisfies the invariant, crashes and interference included.\<close>

lemma reach_inv:
  assumes "run_reach rt rv crashes run init w0 x" and "sandbox (w_ctx w0)" and "started init"
  shows "sandbox (w_ctx (snd x)) \<and> cp_inv rv (fst x)"
  using assms(1)
proof induction
  case start
  with assms(2,3) show ?case by (simp add: cp_inv_def)
next
  case (step x d y)
  then show ?case by (cases x; cases y) (use step_reach_inv in auto)
next
  case (environment cp w w')
  then show ?case by (simp add: interferes_def)
next
  case (crash st n w d r w')
  then show ?case using exec_step_sandbox by auto
next
  case (crash_before_audit st n w d r c)
  then show ?case using node_sandbox by auto
qed

lemma reach_node:
  assumes "run_reach rt rv crashes run init w0 (cp, w)" and "sandbox (w_ctx w0)" and "started init"
    and "cp_next cp = Some n"
  shows "node_inv rv n (cp_state cp)"
  using reach_inv [OF assms(1-3)] assms(4) by (simp add: cp_inv_def)

section \<open>No run goes on for ever\<close>

definition cycles :: "agent_state \<Rightarrow> int" where
  "cycles st = (case st_replan_cycles st of None \<Rightarrow> 0 | Some n \<Rightarrow> n)"

text \<open>Replanning cycles that are left, at least one while a cycle is running.\<close>

definition left :: "agent_state \<Rightarrow> nat" where
  "left st = nat (max 1 (MAX_REPLAN_CYCLES - cycles st))"

fun rank :: "node \<Rightarrow> agent_state \<Rightarrow> nat" where
  "rank Diagnose st = 11 * left st + 2"
| "rank Propose st = 11 * left st + 1"
| "rank Classify st = 11 * left st"
| "rank Mark_awaiting st = 11 * left st - 1"
| "rank Await st = 11 * left st - 2"
| "rank Revalidate st = 11 * left st - 3"
| "rank Prepare st = 11 * left st - 4"
| "rank Execute st = 11 * left st - 5"
| "rank Verify st = 11 * left st - 6"
| "rank Rolling_back st = 11 * left st - 7"
| "rank Rolled_back st = 11 * left st - 8"
| "rank Replan st = 11 * left st - 9"
| "rank Escalate st = 1"
| "rank Completed st = 1"

definition cp_rank :: "checkpoint \<Rightarrow> nat" where
  "cp_rank cp = (case cp_next cp of None \<Rightarrow> 0 | Some n \<Rightarrow> rank n (cp_state cp))"

text \<open>Steps that end before an approval: the nodes of one \<^verbatim>\<open>ainvoke\<close>.\<close>

fun rank_auto :: "node \<Rightarrow> agent_state \<Rightarrow> nat" where
  "rank_auto Diagnose st = 8 * left st + 2"
| "rank_auto Propose st = 8 * left st + 1"
| "rank_auto Classify st = 8 * left st"
| "rank_auto Mark_awaiting st = 2"
| "rank_auto Await st = 1"
| "rank_auto Revalidate st = 8 * left st"
| "rank_auto Prepare st = 8 * left st - 1"
| "rank_auto Execute st = 8 * left st - 2"
| "rank_auto Verify st = 8 * left st - 3"
| "rank_auto Rolling_back st = 8 * left st - 4"
| "rank_auto Rolled_back st = 8 * left st - 5"
| "rank_auto Replan st = 8 * left st - 6"
| "rank_auto Escalate st = 1"
| "rank_auto Completed st = 1"

lemma left_pos: "left st \<ge> 1"
  by (simp add: left_def)

lemma cycles_merge:
  assumes "node_fn rt d t n st c = (Inr u, c')"
  shows "cycles (merge st u) = cycles st + (if n = Replan then 1 else 0)"
proof (cases n)
  case Await
  with assms show ?thesis
    by (cases d) (auto simp: cycles_def dest!: await_update)
qed (use assms in \<open>auto simp: pure_node_defs cycles_def
    dest!: diagnose_update propose_update classify_update revalidate_update prepare_update
      execute_update verify_update rolling_back_update\<close>)

lemma left_replan:
  assumes "cycles st' = cycles st + 1" and "cycles st' < MAX_REPLAN_CYCLES"
  shows "left st = left st' + 1"
  using assms by (simp add: left_def MAX_REPLAN_CYCLES_def)

lemma next_nodes:
  assumes "graph_next rv n st = Inr nx"
  shows "(n, nx) \<in> {(Diagnose, Some Propose), (Propose, Some Classify), (Propose, Some Replan),
     (Classify, Some Prepare), (Classify, Some Mark_awaiting), (Mark_awaiting, Some Await),
     (Await, Some Revalidate), (Await, Some Prepare), (Await, Some Replan), (Await, Some Escalate),
     (Revalidate, Some Replan), (Revalidate, Some Prepare), (Prepare, Some Execute),
     (Execute, Some Verify), (Verify, Some Completed), (Verify, Some Rolling_back),
     (Rolling_back, Some Rolled_back), (Rolled_back, Some Replan), (Replan, Some Propose),
     (Replan, Some Escalate), (Completed, None), (Escalate, None)}"
proof (cases n)
  case Await
  with assms show ?thesis
    by (cases rv) (auto simp: route_simps bindR_Inr_iff split: if_splits)
qed (use assms in \<open>auto simp: route_simps bindR_Inr_iff split: if_splits\<close>)

lemma replan_continues:
  "graph_next rv Replan st = Inr (Some Propose) \<Longrightarrow> cycles st < MAX_REPLAN_CYCLES"
  by (auto simp: route_simps bindR_Inr_iff cycles_def split: if_splits)

lemma step_rank:
  assumes "exec_step rt rv d n st w = (Next (Some n') st', w')"
  shows "rank n' st' < rank n st \<and> (n \<noteq> Await \<longrightarrow> rank_auto n' st' < rank_auto n st) \<and>
    (n = Await \<longrightarrow> rank_auto n' st' \<le> 8 * left st)"
proof -
  from assms obtain u c where fn: "node_fn rt d (w_tick w) n st (w_ctx w) = (Inr u, c)"
    and st': "st' = merge st u" and nx: "graph_next rv n st' = Inr (Some n')"
    by (rule exec_step_Next)
  have cyc: "cycles st' = cycles st + (if n = Replan then 1 else 0)"
    using cycles_merge [OF fn] by (simp add: st')
  note next_nodes [OF nx]
  moreover have "left st = left st'" if "n \<noteq> Replan" using cyc that by (simp add: left_def)
  moreover have "left st = left st' + 1" if "n = Replan" "n' = Propose"
    using left_replan [of st' st] cyc replan_continues [of rv st'] nx that by simp
  moreover have "1 \<le> left st" "1 \<le> left st'" by (rule left_pos)+
  ultimately show ?thesis by auto
qed

text \<open>Every step of the graph lowers the rank, whatever the environment does between two steps.\<close>

lemma graph_step_rank:
  assumes "graph_step rt rv d (cp, w) (cp', w')"
  shows "cp_rank cp' < cp_rank cp"
  using assms
proof (cases rule: graph_stepE)
  case (1 n st nx st')
  have "rank m s > 0" for m s using left_pos [of s] by (cases m) auto
  then show ?thesis using 1 step_rank [of rt rv d n st w] by (cases nx) (simp_all add: cp_rank_def)
qed

inductive completes ::
  "runtime \<Rightarrow> bool \<Rightarrow> string \<Rightarrow> nat \<Rightarrow> checkpoint \<times> world \<Rightarrow> checkpoint \<times> world \<Rightarrow> bool"
  for rt rv run where
  none: "completes rt rv run 0 x x"
| node: "completes rt rv run k x y \<Longrightarrow> graph_step rt rv d y z \<Longrightarrow> completes rt rv run (Suc k) x z"
| environment: "completes rt rv run k x (cp, w) \<Longrightarrow> interferes run w w' \<Longrightarrow>
    completes rt rv run k x (cp, w')"

lemma completes_rank:
  "completes rt rv run k x y \<Longrightarrow> cp_rank (fst y) + k \<le> cp_rank (fst x)"
proof (induction rule: completes.induct)
  case (node k x y d z)
  then show ?case using graph_step_rank [of rt rv d "fst y" "snd y" "fst z" "snd z"] by simp
qed simp_all

text \<open>Enough steps for every \<^verbatim>\<open>ainvoke\<close>.\<close>

lemma drive_enough:
  "rank_auto n st \<le> k \<Longrightarrow> fst (drive rt rv k None n st w) \<noteq> Library_error"
proof (induction k arbitrary: n st w)
  case 0
  then show ?case using left_pos [of st] by (cases n) auto
next
  case (Suc k)
  show ?case
  proof (cases "exec_step rt rv None n st w")
    case (Pair r w')
    show ?thesis
    proof (cases r)
      case (Next nx st')
      show ?thesis
      proof (cases nx)
        case (Some n')
        have "n \<noteq> Await" using Pair Next by (auto simp: exec_step_def split: sum.splits)
        with step_rank [of rt rv None n st w n' st' w'] Pair Next Some Suc.prems
        have "rank_auto n' st' \<le> k" by simp
        from Suc.IH [OF this] Pair Next Some show ?thesis by simp
      qed (simp add: Pair Next)
    qed (simp_all add: Pair)
  qed
qed

lemma drive_resume_enough:
  assumes "8 * left st + 1 \<le> k"
  shows "fst (drive rt rv k (Some h) Await st w) \<noteq> Library_error"
proof (cases k)
  case (Suc k')
  show ?thesis
  proof (cases "exec_step rt rv (Some h) Await st w")
    case (Pair r w')
    show ?thesis
    proof (cases r)
      case (Next nx st')
      show ?thesis
      proof (cases nx)
        case (Some n')
        with step_rank [of rt rv "Some h" Await st w n' st' w'] Pair Next assms Suc
        have "rank_auto n' st' \<le> k'" by simp
        from drive_enough [OF this] Pair Next Some Suc show ?thesis by simp
      qed (simp add: Pair Next Suc)
    qed (simp_all add: Pair Suc)
  qed
qed (use assms in simp)

end
