(* ===== verification/Audit_Trail.thy ===== *)
theory Audit_Trail
  imports Runs
begin

text \<open>
  What the audit log of a run shows, when the process does not crash: a complete chain of
  transitions whose last state is the state of the checkpoint, and for every execution the
  clearance it rests on.
\<close>

section \<open>Logs that show their clearances\<close>

definition human_yes :: "audit_record \<Rightarrow> bool" where
  "human_yes e \<longleftrightarrow> ar_decision e \<in> {Some Approved, Some Edited} \<and> ar_actor e = Human"

text \<open>
  Two consecutive records: execution begins after a low classification, a human yes or a
  revalidation, and a revalidation only after a human yes.
\<close>

definition pair_gated :: "audit_record \<Rightarrow> audit_record \<Rightarrow> bool" where
  "pair_gated prev cur \<longleftrightarrow>
     (ar_to_state cur = Some EXECUTING \<and> ar_from_state cur \<noteq> Some EXECUTING \<longrightarrow>
        (ar_from_state cur = Some RISK_CLASSIFIED \<and> ar_risk_tier cur = Some LOW) \<or>
        (ar_from_state cur = Some AWAITING_APPROVAL \<and> human_yes prev) \<or>
        ar_from_state cur = Some REVALIDATING) \<and>
     (ar_to_state cur = Some REVALIDATING \<longrightarrow> ar_from_state cur = Some AWAITING_APPROVAL \<and> human_yes prev)"

definition log_gated :: "audit_record list \<Rightarrow> bool" where
  "log_gated rs = list_all (\<lambda>(p, c). pair_gated p c) (zip rs (tl rs))"

lemma log_gated_snoc:
  "log_gated (rs @ [e]) \<longleftrightarrow> log_gated rs \<and> (rs \<noteq> [] \<longrightarrow> pair_gated (last rs) e)"
  unfolding log_gated_def
proof (induction rs)
  case (Cons r rs)
  then show ?case by (cases rs) auto
qed simp

section \<open>The invariant of the lg\<close>

text \<open>What the log says about the pending node.\<close>

fun node_log :: "node \<Rightarrow> agent_state \<Rightarrow> audit_record list \<Rightarrow> bool" where
  "node_log Revalidate st lg \<longleftrightarrow> lg \<noteq> [] \<and> st_status st = Some AWAITING_APPROVAL \<and> human_yes (last lg)"
| "node_log Prepare st lg \<longleftrightarrow> lg \<noteq> [] \<and>
     (st_status st = Some RISK_CLASSIFIED \<and> st_risk_tier_final st = Some LOW \<or>
      st_status st = Some AWAITING_APPROVAL \<and> human_yes (last lg) \<or>
      st_status st = Some REVALIDATING)"
| "node_log Execute st lg \<longleftrightarrow> lg \<noteq> [] \<and> st_status st = Some EXECUTING"
| "node_log Await st lg \<longleftrightarrow> lg \<noteq> [] \<and> st_status st = Some AWAITING_APPROVAL"
| "node_log Diagnose st lg \<longleftrightarrow> lg = []"
| "node_log n st lg \<longleftrightarrow> lg \<noteq> []"

definition run_log :: "string \<Rightarrow> world \<Rightarrow> audit_record list" where
  "run_log run w = mem_audit_get_run (w_audit w) run"

definition log_inv :: "runtime \<Rightarrow> string \<Rightarrow> checkpoint \<Rightarrow> world \<Rightarrow> bool" where
  "log_inv rt run cp w \<longleftrightarrow>
     (let lg = run_log run w in
      st_run_id (cp_state cp) = Some run \<and>
      time_ordered lg \<and> (\<forall>e \<in> set lg. ar_timestamp e \<le> rt_clock rt (w_tick w)) \<and>
      is_complete_chain lg \<and> log_gated lg \<and>
      (lg \<noteq> [] \<longrightarrow> ar_to_state (last lg) = st_status (cp_state cp)) \<and>
      (case cp_next cp of None \<Rightarrow> lg \<noteq> [] | Some n \<Rightarrow> node_log n (cp_state cp) lg))"

lemma audit_entry_fields:
  assumes "audit_entry rt t n st u = Inr e"
  shows "st_run_id st = Some (ar_run_id e)" "ar_timestamp e = rt_clock rt t"
    "ar_from_state e = st_status st" "ar_to_state e = st_status (merge st u)"
    "ar_actor e = actor_of n u" "ar_risk_tier e = st_risk_tier_final (merge st u)"
    "ar_decision e = update_get entry_decision u"
  using assms by (auto simp: audit_entry_def Let_def bindR_Inr_iff need_Inr)

lemma time_ordered_snoc:
  "time_ordered rs \<Longrightarrow> (\<forall>e \<in> set rs. ar_timestamp e \<le> ar_timestamp x) \<Longrightarrow> time_ordered (rs @ [x])"
  by (auto simp: time_ordered_def sorted_append)

text \<open>The status a node leaves, and when it leaves \<^verbatim>\<open>EXECUTING\<close> or \<^verbatim>\<open>REVALIDATING\<close>.\<close>

lemma node_status:
  assumes "node_fn rt d t n st c = (Inr u, c')" and "n \<noteq> Await"
  shows "st_status (merge st u) = Some (case n of Diagnose \<Rightarrow> DIAGNOSING | Propose \<Rightarrow> ACTION_PROPOSED
     | Classify \<Rightarrow> RISK_CLASSIFIED | Mark_awaiting \<Rightarrow> AWAITING_APPROVAL | Revalidate \<Rightarrow> REVALIDATING
     | Prepare \<Rightarrow> EXECUTING | Execute \<Rightarrow> EXECUTING | Verify \<Rightarrow> VERIFYING | Rolling_back \<Rightarrow> ROLLING_BACK
     | Rolled_back \<Rightarrow> ROLLED_BACK | Replan \<Rightarrow> REPLANNING | Escalate \<Rightarrow> ESCALATED | Completed \<Rightarrow> COMPLETED
     | Await \<Rightarrow> AWAITING_APPROVAL)"
  using assms by (cases n) (auto simp: pure_node_defs
    dest!: diagnose_update propose_update classify_update revalidate_update prepare_update
      execute_update verify_update rolling_back_update)

lemma await_entries:
  assumes "node_fn rt d t Await st c = (Inr u, c')" and "d = Some h"
  shows "st_status (merge st u) = st_status st" "update_get entry_decision u = Some (hd_decision h)"
    "actor_of Await u = (if hd_decision h = Timeout then System else Human)"
    "st_approval_decision (merge st u) = Some (hd_decision h)"
  using assms by (auto simp: actor_of_def dest!: await_update)

lemma step_gated:
  assumes fn: "node_fn rt d t n st c = (Inr u, c')" and d: "n = Await \<Longrightarrow> d \<noteq> None"
    and e: "audit_entry rt t n st u = Inr e" and nx: "graph_next rv n (merge st u) = Inr nx"
    and old: "node_log n st lg"
  shows "(lg \<noteq> [] \<longrightarrow> pair_gated (last lg) e) \<and>
    (case nx of None \<Rightarrow> True | Some n' \<Rightarrow> node_log n' (merge st u) (lg @ [e]))"
proof (cases "n = Await")
  case True
  with d obtain h where h: "d = Some h" by auto
  note aw = await_entries [OF fn [unfolded True] h]
  note ef = audit_entry_fields [OF e]
  from old True have st: "st_status st = Some AWAITING_APPROVAL" by simp
  have "pair_gated (last lg) e" using aw ef st by (simp add: pair_gated_def)
  moreover have "human_yes e" if "hd_decision h \<in> {Approved, Edited}"
    using that aw ef True by (auto simp: human_yes_def)
  ultimately show ?thesis using nx aw st True
    by (cases rv) (auto simp: route_simps bindR_Inr_iff split: if_splits)
next
  case False
  note ns = node_status [OF fn False]
  note ef = audit_entry_fields [OF e]
  have "lg \<noteq> [] \<longrightarrow> pair_gated (last lg) e"
  proof (cases n)
    case Prepare
    with fn have "prepare_execution st c = (Inr u, c')" by simp
    then have "st_risk_tier_final (merge st u) = st_risk_tier_final st" by (auto dest!: prepare_update)
    with Prepare old ns ef show ?thesis by (auto simp: pair_gated_def)
  qed (use old ns ef in \<open>auto simp: pair_gated_def\<close>)
  moreover have "case nx of None \<Rightarrow> True | Some n' \<Rightarrow> node_log n' (merge st u) (lg @ [e])"
    using next_nodes [OF nx] ns nx False by (auto simp: route_simps bindR_Inr_iff split: if_splits)
  ultimately show ?thesis ..
qed

lemma log_inv_step:
  assumes clock: "mono (rt_clock rt)" and st: "graph_step rt rv d (cp, w) (cp', w')"
    and inv: "log_inv rt run cp w"
  shows "log_inv rt run cp' w'"
proof -
  from st obtain n s nx s' where cp: "cp = \<lparr>cp_state = s, cp_next = Some n\<rparr>"
    and cp': "cp' = \<lparr>cp_state = s', cp_next = nx\<rparr>" and ex: "exec_step rt rv d n s w = (Next nx s', w')"
    by (rule graph_stepE)
  from ex obtain u c e where fn: "node_fn rt d (w_tick w) n s (w_ctx w) = (Inr u, c)"
    and e: "audit_entry rt (w_tick w) n s u = Inr e"
    and w': "w' = w\<lparr>w_ctx := c, w_audit := w_audit w @ [e], w_tick := w_tick w + 1\<rparr>"
    and s': "s' = merge s u" and nx: "graph_next rv n s' = Inr nx" and d: "n = Await \<Longrightarrow> d \<noteq> None"
    by (rule exec_step_Next) blast
  let ?lg = "run_log run w"
  from inv have i: "st_run_id s = Some run" "time_ordered ?lg"
      "\<forall>e \<in> set ?lg. ar_timestamp e \<le> rt_clock rt (w_tick w)" "is_complete_chain ?lg" "log_gated ?lg"
      "?lg \<noteq> [] \<longrightarrow> ar_to_state (last ?lg) = st_status s" "node_log n s ?lg"
    by (simp_all add: log_inv_def cp Let_def)
  note ef = audit_entry_fields [OF e]
  have log': "run_log run w' = ?lg @ [e]"
    using ef(1) i(1) by (simp add: run_log_def w' mem_audit_get_run_def)
  have ord: "time_ordered (?lg @ [e])" using i(2,3) ef(2) by (simp add: time_ordered_snoc)
  have "rt_clock rt (w_tick w) \<le> rt_clock rt (w_tick w + 1)" using clock by (simp add: monoD)
  then have late: "\<forall>x \<in> set (?lg @ [e]). ar_timestamp x \<le> rt_clock rt (w_tick w')"
    using i(3) ef(2) by (auto simp: w' intro: order_trans)
  have chain: "is_complete_chain (?lg @ [e])" using i(4,6) ef(3) by (simp add: chain_snoc [OF ord])
  from step_gated [OF fn d e nx [unfolded s'] i(7)] s'
  have "log_gated (?lg @ [e])" and "case nx of None \<Rightarrow> True | Some n' \<Rightarrow> node_log n' s' (?lg @ [e])"
    using i(5) by (simp_all add: log_gated_snoc split: option.splits)
  with ord late chain ef(4) i(1) show ?thesis
    by (auto simp: log_inv_def cp' log' s' split: option.split)
qed

lemma log_inv_environment:
  assumes clock: "mono (rt_clock rt)" and "interferes run w w'" and inv: "log_inv rt run cp w"
  shows "log_inv rt run cp w'"
proof -
  from assms(2) have lg: "run_log run w' = run_log run w"
    by (auto simp: interferes_def run_log_def mem_audit_get_run_def filter_empty_conv)
  have "rt_clock rt (w_tick w) \<le> rt_clock rt (w_tick w')"
    using clock assms(2) by (simp add: interferes_def monoD)
  with inv show ?thesis by (auto simp: log_inv_def lg Let_def intro: order_trans)
qed

lemma reach_log_inv:
  assumes "run_reach rt rv False run init w0 x" and "mono (rt_clock rt)"
    and "st_run_id init = Some run" and "run_log run w0 = []"
  shows "log_inv rt run (fst x) (snd x)"
  using assms(1)
proof induction
  case start
  with assms(3,4) show ?case by (simp add: log_inv_def Let_def time_ordered_def log_gated_def)
next
  case (step x d y)
  then show ?case using log_inv_step [OF assms(2)] by (cases x; cases y) auto
next
  case (environment cp w w')
  then show ?case using log_inv_environment [OF assms(2)] by auto
qed simp_all

section \<open>What a crash does to the lg\<close>

text \<open>
  A process that dies after the record was written and before the checkpoint was: the node runs
  again from the same state, and its second record does not continue the first.
\<close>

lemma crash_breaks_chain:
  assumes "mono (rt_clock rt)" and inv: "log_inv rt run \<lparr>cp_state = st, cp_next = Some n\<rparr> w"
    and first: "exec_step rt rv d n st w = (Next nx st', w1)"
    and again: "exec_step rt rv d n st w1 = (Next nx' st'', w2)"
    and change: "st_status st' \<noteq> st_status st"
  shows "\<not> is_complete_chain (run_log run w2)"
proof -
  have step: "graph_step rt rv d (\<lparr>cp_state = st, cp_next = Some n\<rparr>, w) (\<lparr>cp_state = st', cp_next = nx\<rparr>, w1)"
    using first by (rule graph_step.node)
  from log_inv_step [OF assms(1) step inv] have i1: "time_ordered (run_log run w1)"
      "\<forall>e \<in> set (run_log run w1). ar_timestamp e \<le> rt_clock rt (w_tick w1)"
      "run_log run w1 \<noteq> [] \<longrightarrow> ar_to_state (last (run_log run w1)) = st_status st'"
    by (simp_all add: log_inv_def Let_def)
  from first obtain u0 c0 e0 where "audit_entry rt (w_tick w) n st u0 = Inr e0"
    and w1: "w1 = w\<lparr>w_ctx := c0, w_audit := w_audit w @ [e0], w_tick := w_tick w + 1\<rparr>"
    by (rule exec_step_Next)
  moreover have run: "st_run_id st = Some run" using inv by (simp add: log_inv_def Let_def)
  ultimately have ne: "run_log run w1 \<noteq> []"
    using audit_entry_fields(1) by (simp add: run_log_def mem_audit_get_run_def)
  from again obtain u c e where e: "audit_entry rt (w_tick w1) n st u = Inr e"
    and w2: "w2 = w1\<lparr>w_ctx := c, w_audit := w_audit w1 @ [e], w_tick := w_tick w1 + 1\<rparr>"
    by (rule exec_step_Next)
  note ef = audit_entry_fields [OF e]
  have log2: "run_log run w2 = run_log run w1 @ [e]"
    using ef(1) run by (simp add: run_log_def mem_audit_get_run_def w2)
  have "time_ordered (run_log run w1 @ [e])" using i1(1,2) ef(2) by (simp add: time_ordered_snoc)
  with ne i1(3) ef(3) change show ?thesis by (simp add: log2 chain_snoc)
qed

end
