(* ===== verification/Recovery.thy ===== *)
theory Recovery
  imports Audit_Trail
begin

text \<open>
  Crashes and exceptions: what a node that runs again after a crash does to the environment, and
  which nodes can raise at all.
\<close>

section \<open>Effects happen once\<close>

text \<open>
  A repeated execution finds its ledger row, whatever else happened in between: the same
  outcome, no effect.
\<close>

lemma execute_action_replay:
  assumes "execute_action ci a ps key c = (Inr out, c1)"
    and "\<And>row. ctx_get c1 key = Some row \<Longrightarrow> ctx_get c2 key = Some row"
  shows "execute_action ci a ps key c2 = (Inr out, c2)"
  using assms(1)
proof (cases rule: execute_action_cases)
  case (keyed tool target args p r')
  from execute_action_recorded [OF assms(1)] assms(2) obtain row
    where "ctx_get c2 key = Some row" "lr_result row = PDict (oc_result out)"
      "lr_compensation row = PDict (oc_compensation out)" by blast
  with keyed(5) [of c2] show ?thesis by (simp add: bindE_def ctx_ledger.run_replay)
qed simp

lemma execute_node:
  "execute rt st = (case (st_proposed_action st, st_idempotency_key st) of
     (None, _) \<Rightarrow> raiseE (KeyError ''proposed_action'')
   | (Some a, None) \<Rightarrow> raiseE (KeyError ''idempotency_key'')
   | (Some a, Some key) \<Rightarrow> bindE (execute_action (rt_coerce rt) a
       (case st_action_parameters st of None \<Rightarrow> [] | Some ps \<Rightarrow> ps) key) (\<lambda>outcome.
         returnE [Status EXECUTING, Execution_result (oc_result outcome),
                  Compensation (oc_compensation outcome)]))"
  by (rule ext) (simp add: execute_def bindE_def [of "liftE r" for r] need_def split: option.split)

lemma execute_again:
  assumes "execute rt st c = (Inr u, c1)"
    and "\<And>k row. ctx_get c1 k = Some row \<Longrightarrow> ctx_get c2 k = Some row"
  shows "execute rt st c2 = (Inr u, c2)"
proof -
  let ?ps = "case st_action_parameters st of None \<Rightarrow> [] | Some ps \<Rightarrow> ps"
  from execute_update [OF assms(1)] obtain a key out where a: "st_proposed_action st = Some a"
    and k: "st_idempotency_key st = Some key"
    and ex: "execute_action (rt_coerce rt) a ?ps key c = (Inr out, c1)"
    and u: "u = [Status EXECUTING, Execution_result (oc_result out), Compensation (oc_compensation out)]"
    by blast
  from execute_action_replay [OF ex] assms(2)
  have "execute_action (rt_coerce rt) a ?ps key c2 = (Inr out, c2)" by blast
  with a k u show ?thesis by (simp add: execute_node)
qed

lemma execute_known_key:
  assumes "execute rt st c = (r, c')" and "st_idempotency_key st = Some key"
    and "ctx_get c key = Some row"
  shows "c' = c"
proof (cases "st_proposed_action st")
  case None
  with assms(1) show ?thesis by (simp add: execute_node)
next
  case (Some a)
  let ?m = "execute_action (rt_coerce rt) a (case st_action_parameters st of None \<Rightarrow> [] | Some ps \<Rightarrow> ps) key"
  obtain r1 c1 where m: "?m c = (r1, c1)" by (cases "?m c")
  with execute_action_known_key [OF m assms(3)] assms(1,2) Some show ?thesis
    by (cases r1) (simp_all add: execute_node bindE_def)
qed

text \<open>A rollback that succeeded, run again: the services and the rows stay as they are.\<close>

lemma rolling_back_again:
  assumes "sandbox c" and "rolling_back rt st c = (Inr u, c1)"
  obtains u' c2 where "rolling_back rt st c1 = (Inr u', c2)" "clients c2 = clients c1"
    "ctx_content c2 = ctx_content c1"
proof -
  from rolling_back_update [OF assms(2)] obtain undo r where undo: "st_compensation st = Some undo"
    and ap: "apply_compensation (rt_coerce rt) undo c = (Inr r, c1)" by blast
  obtain r' c2 where "apply_compensation (rt_coerce rt) undo c1 = (Inr r', c2)"
      "clients c2 = clients c1" "ctx_content c2 = ctx_content c1"
    using compensation_again [OF sandbox_wf [OF assms(1)] ap] by blast
  with undo that show ?thesis by (simp add: rolling_back_def)
qed

section \<open>Which nodes can raise\<close>

definition total_reasoners :: "runtime \<Rightarrow> bool" where
  "total_reasoners rt \<longleftrightarrow>
     (\<forall>t ob. full_sweep ob \<longrightarrow> (\<exists>s. rt_diagnose rt t ob = Inr s)) \<and>
     (\<forall>t ob d r. full_sweep ob \<longrightarrow> (\<exists>p. rt_propose rt t ob d r = Inr p)) \<and>
     (\<forall>t a d r sit. \<exists>k. rt_classify rt t a d r sit = Inr k)"

definition fit_decision :: "human_decision option \<Rightarrow> bool" where
  "fit_decision d \<longleftrightarrow> (case d of
     None \<Rightarrow> True
   | Some h \<Rightarrow> (case hd_edited_action h of None \<Rightarrow> True | Some a \<Rightarrow> a = [] \<or> fp_ok a))"

lemma propose_total:
  assumes "diagnosed st" and "total_reasoners rt"
  shows "\<exists>u. propose_action rt t st c = (Inr u, c)"
proof -
  from assms(1) obtain ob diag where ob: "st_observations st = Some ob" and full: "full_sweep ob"
    and dg: "st_diagnosis st = Some diag"
    by (auto simp: inv_defs elim: holdsE)
  from assms(2) full obtain p where p: "rt_propose rt t ob diag (st_replan_context st) = Inr p"
    unfolding total_reasoners_def by blast
  let ?a = "join_action (pr_tool p) (pr_target p)"
  obtain q where "split_colon ?a = Some q" using split_colon_join_total by blast
  then have "split_action ?a = Inr q" by (simp add: split_action_Inr)
  then obtain inv where inv: "validate_proposal ob ?a = Inr inv" using validate_total by blast
  show ?thesis
  proof (cases inv)
    case None
    with inv valid_has_fingerprint obtain fp
      where "compute_fingerprint (rt_float rt) (rt_digest rt) ob ?a = Inr fp" by blast
    with None ob dg p inv show ?thesis by (simp add: propose_action_def)
  next
    case (Some why)
    with ob dg p inv show ?thesis by (simp add: propose_action_def)
  qed
qed

lemma classify_total:
  assumes "sound st" and "total_reasoners rt"
  shows "\<exists>u. classify_risk rt t st c = (Inr u, c)"
proof -
  from assms(1) obtain ob diag a where ob: "st_observations st = Some ob" and dg: "st_diagnosis st = Some diag"
    and a: "st_proposed_action st = Some a" "fp_ok a"
    by (auto simp: inv_defs elim!: holdsE)
  from fp_ok_split [OF a(2)] obtain tool target where sp: "split_action a = Inr (tool, target)" by blast
  then obtain sit where sit: "situational_features ob a = Inr sit" using situational_total by blast
  from assms(2) obtain k where "rt_classify rt t a diag (st_action_rationale st) sit = Inr k"
    unfolding total_reasoners_def by blast
  with ob dg a sp sit show ?thesis by (simp add: classify_risk_def Let_def)
qed

lemma approval_request_total:
  "sound st \<Longrightarrow> st_risk_tier_final st \<noteq> None \<Longrightarrow> \<exists>p. approval_request st = Inr p"
  by (auto simp: approval_request_def inv_defs elim!: holdsE)

lemma await_total:
  assumes s: "sound st" and tier: "st_risk_tier_final st \<noteq> None" and fit: "fit_decision (Some h)"
  shows "\<exists>u. await_approval rt h st c = (Inr u, c)"
proof -
  obtain p where p: "approval_request st = Inr p" using approval_request_total [OF s tier] by blast
  from s obtain ob where ob: "st_observations st = Some ob" "full_sweep ob"
    by (auto simp: inv_defs elim!: holdsE)
  show ?thesis
  proof (cases "hd_edited_action h")
    case (Some a)
    show ?thesis
    proof (cases "a = []")
      case False
      with fit Some have "fp_ok a" by (simp add: fit_decision_def)
      with fp_ok_iff [OF ob(2)] obtain fp
        where "compute_fingerprint (rt_float rt) (rt_digest rt) ob a = Inr fp" by blast
      with p ob Some False show ?thesis by (simp add: await_approval_def)
    qed (simp add: await_approval_def p Some)
  qed (simp add: await_approval_def p)
qed

lemma revalidate_total:
  assumes "sandbox c" and s: "sound st"
  shows "\<exists>u. revalidate rt t st c = (Inr u, c)"
proof -
  obtain ob where ob: "gather_observations (rt_log_clock rt t) c = Inr ob" "full_sweep ob"
    using gather_full_sweep [OF assms(1)] by blast
  from s obtain a where a: "st_proposed_action st = Some a" "fp_ok a" by (auto simp: inv_defs elim!: holdsE)
  from fp_ok_iff [OF ob(2)] a(2) obtain fp
    where "compute_fingerprint (rt_float rt) (rt_digest rt) ob a = Inr fp" by blast
  with ob a show ?thesis by (simp add: revalidate_def)
qed

lemma verify_total:
  assumes sb: "sandbox c" and s: "sound st" and e: "executed st"
  shows "\<exists>u. verify st c = (Inr u, c)"
proof -
  from s obtain a where a: "st_proposed_action st = Some a" "fp_ok a" by (auto simp: inv_defs elim!: holdsE)
  from e obtain res where res: "st_execution_result st = Some res" by (auto simp: inv_defs)
  from a(2) obtain tool target where sp: "split_colon a = Some (tool, target)"
    and t: "tool = ''delete_records'' \<or> target \<in> set KNOWN_SERVICES"
    by (auto simp: fp_ok_def split: option.splits)
  have "\<exists>b. verify_action c a res = Inr b"
  proof (cases "tool = ''delete_records''")
    case True
    with sp show ?thesis by (auto simp: verify_action_def split_action_def Let_def)
  next
    case False
    with t obtain s where "map_of (clients c) target = Some s" using sandbox_client [OF sb] by blast
    with False sp show ?thesis
      by (simp add: verify_action_def split_action_def get_service_health_def app_health_def)
  qed
  with a res show ?thesis by (auto simp: verify_def)
qed

lemma graph_next_total:
  assumes "node_fn rt d t n st c = (Inr u, c')" and "n = Await \<Longrightarrow> d \<noteq> None"
  shows "\<exists>nx. graph_next rv n (merge st u) = Inr nx"
proof (cases n)
  case Propose
  then show ?thesis by (simp add: route_simps)
next
  case Classify
  with assms show ?thesis by (auto simp: route_defs dest!: classify_update)
next
  case Await
  with assms obtain h where "d = Some h" by auto
  with await_entries(4) [of rt d t st c u c' h] assms Await show ?thesis by (simp add: route_defs)
next
  case Revalidate
  with assms show ?thesis by (auto simp: route_defs dest!: revalidate_update)
next
  case Verify
  with assms show ?thesis by (auto simp: route_defs dest!: verify_update)
next
  case Replan
  with assms show ?thesis by (auto simp: route_defs pure_node_defs)
qed simp_all

lemma node_total:
  assumes sb: "sandbox c" and inv: "node_inv rv n st" and rt: "total_reasoners rt" and d: "fit_decision d"
    and n: "n \<notin> {Execute, Rolling_back}" and dn: "n = Await \<Longrightarrow> d \<noteq> None"
  shows "\<exists>u. node_fn rt d t n st c = (Inr u, c)"
proof (cases n)
  case Diagnose
  obtain ob where ob: "gather_observations (rt_log_clock rt t) c = Inr ob" "full_sweep ob"
    using gather_full_sweep [OF sb] by blast
  moreover obtain s where "rt_diagnose rt t ob = Inr s" using rt ob(2) unfolding total_reasoners_def by blast
  ultimately show ?thesis using Diagnose by (simp add: diagnose_def)
next
  case Propose
  with inv rt show ?thesis by (simp add: propose_total)
next
  case Classify
  with inv rt show ?thesis by (simp add: classify_total)
next
  case Await
  with dn obtain h where "d = Some h" by auto
  with Await inv d show ?thesis using await_total [of st h] by (auto elim: holdsE)
next
  case Revalidate
  with inv sb show ?thesis by (simp add: revalidate_total)
next
  case Prepare
  with inv show ?thesis by (auto simp: prepare_execution_def inv_defs elim!: holdsE)
next
  case Verify
  with inv sb show ?thesis by (simp add: verify_total)
qed (use n in \<open>simp_all add: pure_node_defs\<close>)

lemma step_total:
  assumes sb: "sandbox (w_ctx w)" and inv: "node_inv rv n st" and rt: "total_reasoners rt"
    and d: "fit_decision d" and n: "n \<notin> {Execute, Rolling_back}"
  shows "\<nexists>e w'. exec_step rt rv d n st w = (Raised e, w')"
proof (cases "n = Await \<and> d = None")
  case True
  with inv have "\<exists>p. approval_request st = Inr p" by (auto intro: approval_request_total elim: holdsE)
  with True show ?thesis by (auto simp: exec_step_def)
next
  case False
  then have dn: "d \<noteq> None" if "n = Await" using that by simp
  obtain u where u: "node_fn rt d (w_tick w) n st (w_ctx w) = (Inr u, w_ctx w)"
    using node_total [OF sb inv rt d n dn] by blast
  from inv have "st_run_id st \<noteq> None" by (cases n) (auto simp: inv_defs)
  then obtain e where "audit_entry rt (w_tick w) n st u = Inr e"
    by (auto simp: audit_entry_def Let_def)
  with u have wa: "\<exists>w'. with_audit rt n (node_fn rt d (w_tick w) n) st w = (Inr u, w')"
    by (simp add: with_audit_def Let_def)
  obtain nx where "graph_next rv n (merge st u) = Inr nx" using graph_next_total [OF u dn] by blast
  with wa False show ?thesis by (auto simp: exec_step_def)
qed

text \<open>A step that is neither suspended nor raised.\<close>

lemma step_runs:
  assumes "sandbox (w_ctx w)" and "node_inv rv n st" and "total_reasoners rt"
    and "fit_decision d" and "n \<notin> {Execute, Rolling_back}" and "n = Await \<Longrightarrow> d \<noteq> None"
  obtains nx st' w' where "exec_step rt rv d n st w = (Next nx st', w')"
proof -
  obtain r w' where r: "exec_step rt rv d n st w = (r, w')" by (cases "exec_step rt rv d n st w")
  show ?thesis
  proof (cases r)
    case (Suspended p)
    with r assms(6) show ?thesis by (auto simp: exec_step_def split: if_splits prod.splits sum.splits)
  next
    case (Raised e)
    with r step_total [OF assms(1-5)] show ?thesis by auto
  next
    case (Next nx st')
    with r that show ?thesis by simp
  qed
qed

end
