(* ===== verification/Workflow.thy ===== *)
theory Workflow
  imports Recovery
begin

text \<open>
  \<^verbatim>\<open>start_workflow\<close> and \<^verbatim>\<open>resume_workflow\<close> of \<^verbatim>\<open>src/agent/graph.py\<close>. The graph library is behind
  the locale \<open>graph_engine\<close>: what its \<^verbatim>\<open>ainvoke\<close> does with an input and with a decision for a
  thread, as its documentation says of a checkpointed graph with durability \<open>sync\<close>. The step
  function of the model provides it.
\<close>

section \<open>Threads\<close>

record system =
  sys_threads :: "(string, checkpoint) dict"
  sys_world :: world

datatype invocation = Input agent_state | Resume human_decision

type_synonym engine = "invocation \<Rightarrow> string \<Rightarrow> system \<Rightarrow> run_result \<times> agent_state \<times> system"

definition over :: "'a option \<Rightarrow> 'a option \<Rightarrow> 'a option" where
  "over new old = (case new of None \<Rightarrow> old | Some x \<Rightarrow> Some x)"

lemma over_simps [simp]: "over None old = old" "over (Some x) old = Some x" "over new None = new"
  by (simp_all add: over_def split: option.split)

text \<open>\<^verbatim>\<open>{**old, **new}\<close> for two dictionaries of state keys.\<close>

definition overlay :: "agent_state \<Rightarrow> agent_state \<Rightarrow> agent_state" where
  "overlay old new =
     \<lparr>st_run_id = over (st_run_id new) (st_run_id old),
      st_scenario_id = over (st_scenario_id new) (st_scenario_id old),
      st_status = over (st_status new) (st_status old),
      st_observations = over (st_observations new) (st_observations old),
      st_diagnosis = over (st_diagnosis new) (st_diagnosis old),
      st_proposed_action = over (st_proposed_action new) (st_proposed_action old),
      st_action_parameters = over (st_action_parameters new) (st_action_parameters old),
      st_action_rationale = over (st_action_rationale new) (st_action_rationale old),
      st_state_fingerprint = over (st_state_fingerprint new) (st_state_fingerprint old),
      st_invalid_proposal_reason = over (st_invalid_proposal_reason new) (st_invalid_proposal_reason old),
      st_risk_tier_llm = over (st_risk_tier_llm new) (st_risk_tier_llm old),
      st_risk_tier_final = over (st_risk_tier_final new) (st_risk_tier_final old),
      st_risk_rationale = over (st_risk_rationale new) (st_risk_rationale old),
      st_redundancy_floor_applied = over (st_redundancy_floor_applied new) (st_redundancy_floor_applied old),
      st_approval_decision = over (st_approval_decision new) (st_approval_decision old),
      st_approver_id = over (st_approver_id new) (st_approver_id old),
      st_drift_detected = over (st_drift_detected new) (st_drift_detected old),
      st_idempotency_key = over (st_idempotency_key new) (st_idempotency_key old),
      st_execution_result = over (st_execution_result new) (st_execution_result old),
      st_verification_passed = over (st_verification_passed new) (st_verification_passed old),
      st_compensation = over (st_compensation new) (st_compensation old),
      st_rollback_result = over (st_rollback_result new) (st_rollback_result old),
      st_replan_cycles = over (st_replan_cycles new) (st_replan_cycles old),
      st_replan_context = over (st_replan_context new) (st_replan_context old),
      st_final_state = over (st_final_state new) (st_final_state old)\<rparr>"

definition start_workflow ::
  "engine \<Rightarrow> string \<Rightarrow> agent_state \<Rightarrow> system \<Rightarrow> run_result \<times> agent_state \<times> system" where
  "start_workflow ainvoke run_id initial_state =
     ainvoke (Input (overlay (empty_state\<lparr>st_run_id := Some run_id\<rparr>) initial_state)) run_id"

definition resume_workflow ::
  "engine \<Rightarrow> string \<Rightarrow> human_decision \<Rightarrow> system \<Rightarrow> run_result \<times> agent_state \<times> system" where
  "resume_workflow ainvoke run_id decision = ainvoke (Resume decision) run_id"

definition thread_state :: "system \<Rightarrow> string \<Rightarrow> agent_state" where
  "thread_state sys th =
     (case map_of (sys_threads sys) th of None \<Rightarrow> empty_state | Some cp \<Rightarrow> cp_state cp)"

text \<open>A call that raises, and one whose result has the key \<^verbatim>\<open>__interrupt__\<close>.\<close>

fun failed :: "run_result \<Rightarrow> bool" where
  "failed (Errored _) = True"
| "failed Library_error = True"
| "failed _ = False"

fun interrupted :: "run_result \<Rightarrow> bool" where
  "interrupted (Interrupted _) = True"
| "interrupted _ = False"

section \<open>What one invocation does\<close>

text \<open>
  From a checkpoint, nodes run one after the other until an interrupt, an exception, the end or
  the library's step limit; the decision answers the interrupt of the first node only.
\<close>

inductive invokes ::
  "runtime \<Rightarrow> bool \<Rightarrow> human_decision option \<Rightarrow> checkpoint \<times> world \<Rightarrow> run_result \<Rightarrow> checkpoint \<times> world \<Rightarrow> bool"
  for rt rv where
  suspended: "exec_step rt rv d n st w = (Suspended p, w') \<Longrightarrow>
    invokes rt rv d (\<lparr>cp_state = st, cp_next = Some n\<rparr>, w) (Interrupted p)
      (\<lparr>cp_state = st, cp_next = Some n\<rparr>, w')"
| raised: "exec_step rt rv d n st w = (Raised e, w') \<Longrightarrow>
    invokes rt rv d (\<lparr>cp_state = st, cp_next = Some n\<rparr>, w) (Errored e)
      (\<lparr>cp_state = st, cp_next = Some n\<rparr>, w')"
| ended: "exec_step rt rv d n st w = (Next None st', w') \<Longrightarrow>
    invokes rt rv d (\<lparr>cp_state = st, cp_next = Some n\<rparr>, w) Returned
      (\<lparr>cp_state = st', cp_next = None\<rparr>, w')"
| limit: "invokes rt rv d x Library_error x"
| further: "exec_step rt rv d n st w = (Next (Some n') st', w') \<Longrightarrow>
    invokes rt rv None (\<lparr>cp_state = st', cp_next = Some n'\<rparr>, w') r y \<Longrightarrow>
    invokes rt rv d (\<lparr>cp_state = st, cp_next = Some n\<rparr>, w) r y"

text \<open>What a result says about the checkpoint it leaves.\<close>

definition stops :: "run_result \<Rightarrow> checkpoint \<Rightarrow> bool" where
  "stops r cp \<longleftrightarrow> (case r of
     Interrupted p \<Rightarrow> cp_next cp = Some Await \<and> approval_request (cp_state cp) = Inr p
   | Returned \<Rightarrow> cp_next cp = None
   | Errored _ \<Rightarrow> cp_next cp \<noteq> None
   | Library_error \<Rightarrow> True)"

lemma invokes_inv:
  "invokes rt rv d x r y \<Longrightarrow> sandbox (w_ctx (snd x)) \<Longrightarrow> cp_inv rv (fst x) \<Longrightarrow>
     sandbox (w_ctx (snd y)) \<and> cp_inv rv (fst y) \<and> stops r (fst y)"
proof (induction rule: invokes.induct)
  case (suspended d n st w p w')
  then have "n = Await" "approval_request st = Inr p" "w' = w"
    by (auto simp: exec_step_def split: if_splits sum.splits prod.splits)
  with suspended show ?case by (simp add: stops_def)
next
  case (raised d n st w e w')
  then show ?case using exec_step_sandbox by (auto simp: stops_def)
next
  case (ended d n st w st' w')
  then show ?case using step_inv [OF ended(1)] by (auto simp: cp_inv_def stops_def)
next
  case (limit d x)
  then show ?case by (simp add: stops_def)
next
  case (further d n st w n' st' w' r y)
  then have "sandbox (w_ctx w') \<and> cp_inv rv \<lparr>cp_state = st', cp_next = Some n'\<rparr>"
    using step_inv [OF further(1)] by (simp add: cp_inv_def)
  with further.IH show ?case by simp
qed

lemma invokes_run_id:
  "invokes rt rv d x r y \<Longrightarrow> st_run_id (cp_state (fst y)) = st_run_id (cp_state (fst x))"
  by (induction rule: invokes.induct) (auto elim!: exec_step_Next)

section \<open>The engine\<close>

text \<open>The invariant of all threads.\<close>

definition sys_inv :: "bool \<Rightarrow> system \<Rightarrow> bool" where
  "sys_inv rv sys \<longleftrightarrow> sandbox (w_ctx (sys_world sys)) \<and>
     (\<forall>th cp. map_of (sys_threads sys) th = Some cp \<longrightarrow> cp_inv rv cp)"

locale graph_engine =
  fixes ainvoke :: engine
    and rt :: runtime
    and rv :: bool
  assumes input_law: "ainvoke (Input inp) th sys = (r, st, sys') \<Longrightarrow>
      \<exists>cp. map_of (sys_threads sys') = (map_of (sys_threads sys))(th \<mapsto> cp) \<and> st = cp_state cp \<and>
        invokes rt rv None (\<lparr>cp_state = overlay (thread_state sys th) inp, cp_next = Some Diagnose\<rparr>,
          sys_world sys) r (cp, sys_world sys')"
    and resume_law: "map_of (sys_threads sys) th = Some cp0 \<Longrightarrow> cp_next cp0 \<noteq> None \<Longrightarrow>
      ainvoke (Resume h) th sys = (r, st, sys') \<Longrightarrow>
      \<exists>cp. map_of (sys_threads sys') = (map_of (sys_threads sys))(th \<mapsto> cp) \<and> st = cp_state cp \<and>
        invokes rt rv (Some h) (cp0, sys_world sys) r (cp, sys_world sys')"
begin

text \<open>
  A fresh run started with harmless initial values stops at an approval, at an end or at an
  exception, with the invariant in its checkpoint; the other threads are as they were.
\<close>

lemma start_inv:
  assumes "sys_inv rv sys" and "map_of (sys_threads sys) run = None"
    and "st_run_id init = None" and "st_replan_cycles init = None"
    and "start_workflow ainvoke run init sys = (r, st, sys')"
  obtains cp where "sys_inv rv sys'" "map_of (sys_threads sys') = (map_of (sys_threads sys))(run \<mapsto> cp)"
    "st = cp_state cp" "cp_inv rv cp" "stops r cp" "st_run_id st = Some run"
proof -
  let ?st0 = "overlay (thread_state sys run) (overlay (empty_state\<lparr>st_run_id := Some run\<rparr>) init)"
  from input_law assms(5) obtain cp where
    th: "map_of (sys_threads sys') = (map_of (sys_threads sys))(run \<mapsto> cp)" and st: "st = cp_state cp"
    and inv: "invokes rt rv None (\<lparr>cp_state = ?st0, cp_next = Some Diagnose\<rparr>, sys_world sys) r
        (cp, sys_world sys')"
    unfolding start_workflow_def by blast
  have id0: "st_run_id ?st0 = Some run" and "st_replan_cycles ?st0 = None"
    using assms(2-4) by (simp_all add: overlay_def thread_state_def empty_state_def)
  then have "started ?st0" by (simp add: started_def)
  with invokes_inv [OF inv] assms(1)
  have "sandbox (w_ctx (sys_world sys'))" "cp_inv rv cp" "stops r cp"
    by (simp_all add: cp_inv_def sys_inv_def)
  moreover have "st_run_id st = Some run" using invokes_run_id [OF inv] id0 st by simp
  ultimately show ?thesis using that th st assms(1) by (auto simp: sys_inv_def)
qed

text \<open>A decision for a suspended run does the same from its checkpoint.\<close>

lemma resume_inv:
  assumes "sys_inv rv sys" and "map_of (sys_threads sys) run = Some cp0" and "cp_next cp0 \<noteq> None"
    and "resume_workflow ainvoke run h sys = (r, st, sys')"
  obtains cp where "sys_inv rv sys'" "map_of (sys_threads sys') = (map_of (sys_threads sys))(run \<mapsto> cp)"
    "st = cp_state cp" "cp_inv rv cp" "stops r cp"
    "st_run_id st = st_run_id (cp_state cp0)"
proof -
  from resume_law [OF assms(2,3)] assms(4) obtain cp where
    th: "map_of (sys_threads sys') = (map_of (sys_threads sys))(run \<mapsto> cp)" and st: "st = cp_state cp"
    and inv: "invokes rt rv (Some h) (cp0, sys_world sys) r (cp, sys_world sys')"
    unfolding resume_workflow_def by blast
  from invokes_inv [OF inv] assms(1,2)
  have "sandbox (w_ctx (sys_world sys'))" "cp_inv rv cp" "stops r cp"
    by (simp_all add: sys_inv_def)
  moreover have "st_run_id st = st_run_id (cp_state cp0)" using invokes_run_id [OF inv] st by simp
  ultimately show ?thesis using that th st assms(1) by (auto simp: sys_inv_def)
qed

end

section \<open>The engine of the model\<close>

definition run_engine :: "runtime \<Rightarrow> bool \<Rightarrow> nat \<Rightarrow> engine" where
  "run_engine rt rv limit iv th sys =
     (let go = (\<lambda>d n st.
        case drive rt rv limit d n st (sys_world sys) of
          (r, cp, w) \<Rightarrow> (r, cp_state cp,
            \<lparr>sys_threads = AList.update th cp (sys_threads sys), sys_world = w\<rparr>))
      in case iv of
           Input inp \<Rightarrow> go None Diagnose (overlay (thread_state sys th) inp)
         | Resume h \<Rightarrow>
             (case map_of (sys_threads sys) th of
                None \<Rightarrow> (Library_error, empty_state, sys)
              | Some cp \<Rightarrow>
                  (case cp_next cp of
                     None \<Rightarrow> (Returned, cp_state cp, sys)
                   | Some n \<Rightarrow> go (Some h) n (cp_state cp))))"

lemma drive_invokes:
  "drive rt rv k d n st w = (r, cp, w') \<Longrightarrow>
     invokes rt rv d (\<lparr>cp_state = st, cp_next = Some n\<rparr>, w) r (cp, w')"
proof (induction k arbitrary: d n st w)
  case 0
  then show ?case by (auto intro: invokes.limit)
next
  case (Suc k)
  obtain q w1 where q: "exec_step rt rv d n st w = (q, w1)" by (cases "exec_step rt rv d n st w")
  show ?case
  proof (cases q)
    case (Next nx st')
    show ?thesis
    proof (cases nx)
      case None
      with Next q Suc.prems show ?thesis by (auto intro: invokes.ended)
    next
      case (Some n')
      with Next q Suc.prems have "drive rt rv k None n' st' w1 = (r, cp, w')" by simp
      with Suc.IH q Next Some show ?thesis by (auto intro: invokes.further)
    qed
  qed (use q Suc.prems in \<open>auto intro: invokes.suspended invokes.raised\<close>)
qed

interpretation model_engine: graph_engine "run_engine rt rv limit" rt rv for rt rv limit
proof (unfold_locales, goal_cases)
  case (1 inp th sys r st sys')
  obtain cp w where d: "drive rt rv limit None Diagnose (overlay (thread_state sys th) inp)
      (sys_world sys) = (r, cp, w)"
    using 1 by (auto simp: run_engine_def split: prod.splits)
  with 1 have "st = cp_state cp" and
    "sys' = \<lparr>sys_threads = AList.update th cp (sys_threads sys), sys_world = w\<rparr>"
    by (simp_all add: run_engine_def)
  with drive_invokes [OF d] show ?case by (auto simp: AList.update_conv')
next
  case (2 sys th cp0 h r st sys')
  from 2(2) obtain n where n: "cp_next cp0 = Some n" by auto
  then have cp0: "cp0 = \<lparr>cp_state = cp_state cp0, cp_next = Some n\<rparr>" by (cases cp0) simp
  obtain cp w where d: "drive rt rv limit (Some h) n (cp_state cp0) (sys_world sys) = (r, cp, w)"
    using 2 n by (auto simp: run_engine_def split: prod.splits)
  with 2 n have "st = cp_state cp" and
    "sys' = \<lparr>sys_threads = AList.update th cp (sys_threads sys), sys_world = w\<rparr>"
    by (simp_all add: run_engine_def)
  with drive_invokes [OF d] cp0 show ?case by (auto simp: AList.update_conv')
qed

end
