(* ===== verification/Api.thy ===== *)
theory Api
  imports Workflow
begin

text \<open>
  \<^verbatim>\<open>src/api/\<close>: the registry of the latest known status of each run behind one interface
  (\<^verbatim>\<open>run_registry.py\<close>), its two implementations, and the endpoints (\<^verbatim>\<open>main.py\<close>). An answer is
  \<open>Inl\<close> of an HTTP error code or \<open>Inr\<close> of the body; an exception of the workflow answers 500.
\<close>

section \<open>Responses\<close>

lemma state_value_awaiting: "state_value s = ''AWAITING_APPROVAL'' \<longleftrightarrow> s = AWAITING_APPROVAL"
  by (cases s) simp_all

record run_status =
  rs_run_id :: string
  rs_status :: string
  rs_scenario_id :: "string option"
  rs_diagnosis :: "string option"
  rs_proposed_action :: "string option"
  rs_risk_tier :: "string option"
  rs_rationale :: "string option"
  rs_final_state :: "string option"

definition to_response :: "string \<Rightarrow> agent_state \<Rightarrow> run_status" where
  "to_response run_id result =
     \<lparr>rs_run_id = run_id,
      rs_status = (case st_status result of None \<Rightarrow> ''UNKNOWN'' | Some s \<Rightarrow> state_value s),
      rs_scenario_id = st_scenario_id result, rs_diagnosis = st_diagnosis result,
      rs_proposed_action = st_proposed_action result,
      rs_risk_tier = map_option risk_tier_value (st_risk_tier_final result),
      rs_rationale = st_action_rationale result,
      rs_final_state = map_option state_value (st_final_state result)\<rparr>"

section \<open>The registry\<close>

locale run_registry =
  fixes upsert :: "string \<Rightarrow> run_status \<Rightarrow> 'r \<Rightarrow> 'r"
    and get :: "'r \<Rightarrow> string \<Rightarrow> run_status option"
    and list_pending_approval :: "'r \<Rightarrow> run_status list"
    and invar :: "'r \<Rightarrow> bool"
  assumes upsert_invar: "invar g \<Longrightarrow> invar (upsert run f g)"
    and get_upsert: "invar g \<Longrightarrow>
      get (upsert run f g) run' = (if run' = run then Some (f\<lparr>rs_run_id := run\<rparr>) else get g run')"
    and get_id: "invar g \<Longrightarrow> get g run = Some row \<Longrightarrow> rs_run_id row = run"
    and pending_iff: "invar g \<Longrightarrow> row \<in> set (list_pending_approval g) \<longleftrightarrow>
      get g (rs_run_id row) = Some row \<and> rs_status row = ''AWAITING_APPROVAL''"
    and pending_once: "invar g \<Longrightarrow> distinct (map rs_run_id (list_pending_approval g))"
begin

text \<open>A run is in the approval queue exactly when its latest status says so.\<close>

lemma queued_iff:
  assumes inv: "invar g"
  shows "run \<in> rs_run_id ` set (list_pending_approval g) \<longleftrightarrow>
     (\<exists>row. get g run = Some row \<and> rs_status row = ''AWAITING_APPROVAL'')"
proof -
  show "run \<in> rs_run_id ` set (list_pending_approval g) \<longleftrightarrow>
      (\<exists>row. get g run = Some row \<and> rs_status row = ''AWAITING_APPROVAL'')" (is "?l \<longleftrightarrow> ?r")
  proof
    assume ?l
    then obtain row where "row \<in> set (list_pending_approval g)" "rs_run_id row = run" by (rule imageE) simp
    with pending_iff [OF inv, of row] show ?r by (simp add: exI [of _ row])
  next
    assume ?r
    then obtain row where row: "get g run = Some row" "rs_status row = ''AWAITING_APPROVAL''" by (elim exE conjE)
    from get_id [OF inv row(1)] row pending_iff [OF inv, of row] have "row \<in> set (list_pending_approval g)" by simp
    with get_id [OF inv row(1)] show ?l by (simp add: rev_image_eqI)
  qed
qed

lemma queued_after_upsert:
  "invar g \<Longrightarrow> run' \<in> rs_run_id ` set (list_pending_approval (upsert run f g)) \<longleftrightarrow>
     (if run' = run then rs_status f = ''AWAITING_APPROVAL''
      else run' \<in> rs_run_id ` set (list_pending_approval g))"
  by (simp add: queued_iff upsert_invar get_upsert)

end

text \<open>\<^verbatim>\<open>InMemoryRunRegistry\<close>: every field is overwritten, the insertion order stays.\<close>

type_synonym mem_registry = "(string, run_status) dict"

definition mem_upsert :: "string \<Rightarrow> run_status \<Rightarrow> mem_registry \<Rightarrow> mem_registry" where
  "mem_upsert run_id fs g = AList.update run_id (fs\<lparr>rs_run_id := run_id\<rparr>) g"

definition mem_run_get :: "mem_registry \<Rightarrow> string \<Rightarrow> run_status option" where
  "mem_run_get g run_id = map_of g run_id"

definition mem_pending :: "mem_registry \<Rightarrow> run_status list" where
  "mem_pending g = [r \<leftarrow> map snd g. rs_status r = ''AWAITING_APPROVAL'']"

definition mem_registry_wf :: "mem_registry \<Rightarrow> bool" where
  "mem_registry_wf g \<longleftrightarrow> distinct (map fst g) \<and> list_all (\<lambda>(k, r). rs_run_id r = k) g"

lemma mem_registry_ids: "mem_registry_wf g \<Longrightarrow> map rs_run_id (map snd g) = map fst g"
  by (induction g) (auto simp: mem_registry_wf_def)

lemma list_all_update: "list_all P d \<Longrightarrow> P (k, v) \<Longrightarrow> list_all P (AList.update k v d)"
  by (induction d) auto

interpretation mem_registry: run_registry mem_upsert mem_run_get mem_pending mem_registry_wf
proof (unfold_locales, goal_cases)
  case (1 g run f)
  then show ?case
    by (simp add: mem_registry_wf_def mem_upsert_def distinct_update list_all_update)
next
  case (2 g run f run')
  then show ?case by (simp add: mem_run_get_def mem_upsert_def AList.update_conv')
next
  case (3 g run row)
  then have "(run, row) \<in> set g" by (simp add: mem_run_get_def map_of_SomeD)
  with 3(1) show ?case by (auto simp: mem_registry_wf_def list_all_iff)
next
  case (4 g row)
  then have d: "distinct (map fst g)" and k: "\<And>a r. (a, r) \<in> set g \<Longrightarrow> rs_run_id r = a"
    by (auto simp: mem_registry_wf_def list_all_iff)
  have "row \<in> snd ` set g \<longleftrightarrow> (rs_run_id row, row) \<in> set g"
  proof
    assume "row \<in> snd ` set g"
    then obtain a where "(a, row) \<in> set g" by (auto simp: image_iff)
    with k [OF this] show "(rs_run_id row, row) \<in> set g" by simp
  qed (rule image_eqI [of _ _ "(rs_run_id row, row)"], simp_all)
  then show ?case using d by (simp add: mem_pending_def mem_run_get_def conj_commute)
next
  case (5 g)
  then have "distinct (map rs_run_id (map snd g))"
    by (simp only: mem_registry_ids) (simp add: mem_registry_wf_def)
  then show ?case unfolding mem_pending_def by (rule distinct_map_filter)
qed

text \<open>
  \<^verbatim>\<open>PostgresRunRegistry\<close>: the table \<^verbatim>\<open>runs\<close> with \<^verbatim>\<open>ON CONFLICT (run_id) DO UPDATE\<close>, the queue
  ordered by the time of the last update; \<open>now\<close> is the statement's time.
\<close>

record pg_registry =
  pr_rows :: "(run_status \<times> nat) list"
  pr_now :: nat

definition pg_upsert :: "string \<Rightarrow> run_status \<Rightarrow> pg_registry \<Rightarrow> pg_registry" where
  "pg_upsert run_id fs g =
     (let row = (fs\<lparr>rs_run_id := run_id\<rparr>, pr_now g) in
      \<lparr>pr_rows =
         (if run_id \<in> set (map (rs_run_id \<circ> fst) (pr_rows g))
          then map (\<lambda>r. if rs_run_id (fst r) = run_id then row else r) (pr_rows g)
          else pr_rows g @ [row]),
       pr_now = pr_now g + 1\<rparr>)"

definition pg_run_get :: "pg_registry \<Rightarrow> string \<Rightarrow> run_status option" where
  "pg_run_get g run_id = map_option fst (find (\<lambda>r. rs_run_id (fst r) = run_id) (pr_rows g))"

definition pg_pending :: "pg_registry \<Rightarrow> run_status list" where
  "pg_pending g = map fst (sort_key snd [r \<leftarrow> pr_rows g. rs_status (fst r) = ''AWAITING_APPROVAL''])"

definition pg_registry_wf :: "pg_registry \<Rightarrow> bool" where
  "pg_registry_wf g \<longleftrightarrow> distinct (map (rs_run_id \<circ> fst) (pr_rows g))"

lemma find_key:
  "distinct (map k rs) \<Longrightarrow> find (\<lambda>r. k r = x) rs = Some r \<longleftrightarrow> r \<in> set rs \<and> k r = x"
  by (induction rs) auto

lemma find_key_None: "find (\<lambda>r. k r = x) rs = None \<longleftrightarrow> x \<notin> k ` set rs"
  by (induction rs) auto

lemma find_map_same:
  assumes "k row = run" and "run \<in> k ` set rs"
  shows "find (\<lambda>r. k r = run) (map (\<lambda>r. if k r = run then row else r) rs) = Some row"
  using assms by (induction rs) auto

lemma find_map_other:
  assumes "k row = run" and "run' \<noteq> run"
  shows "find (\<lambda>r. k r = run') (map (\<lambda>r. if k r = run then row else r) rs) = find (\<lambda>r. k r = run') rs"
  using assms by (induction rs) auto

lemma find_append_key:
  "find P (xs @ ys) = (case find P xs of None \<Rightarrow> find P ys | Some x \<Rightarrow> Some x)"
  by (induction xs) auto

interpretation pg_registry: run_registry pg_upsert pg_run_get pg_pending pg_registry_wf
proof (unfold_locales, goal_cases)
  case (1 g run f)
  have same: "map (rs_run_id \<circ> fst) (map (\<lambda>r. if rs_run_id (fst r) = run then (f\<lparr>rs_run_id := run\<rparr>, pr_now g) else r) rs)
      = map (rs_run_id \<circ> fst) rs" for rs
    by (induction rs) simp_all
  show ?case
  proof (cases "run \<in> set (map (rs_run_id \<circ> fst) (pr_rows g))")
    case True
    then have "pr_rows (pg_upsert run f g) = map (\<lambda>r. if rs_run_id (fst r) = run
        then (f\<lparr>rs_run_id := run\<rparr>, pr_now g) else r) (pr_rows g)"
      by (simp only: pg_upsert_def Let_def pg_registry.simps if_True)
    with 1 same show ?thesis by (simp only: pg_registry_wf_def)
  next
    case False
    then have "pr_rows (pg_upsert run f g) = pr_rows g @ [(f\<lparr>rs_run_id := run\<rparr>, pr_now g)]"
      by (simp only: pg_upsert_def Let_def pg_registry.simps if_False)
    with 1 False show ?thesis by (auto simp: pg_registry_wf_def)
  qed
next
  case (2 g run f run')
  let ?k = "\<lambda>r. rs_run_id (fst r)" and ?row = "(f\<lparr>rs_run_id := run\<rparr>, pr_now g)"
  have k: "?k ?row = run" by simp
  show ?case
  proof (cases "run \<in> ?k ` set (pr_rows g)")
    case True
    with find_map_same [of ?k ?row run, OF k True] find_map_other [of ?k ?row run run', OF k] show ?thesis
      by (auto simp: pg_run_get_def pg_upsert_def Let_def comp_def)
  next
    case False
    then have "find (\<lambda>r. ?k r = run) (pr_rows g) = None" by (simp only: find_key_None) simp
    with False show ?thesis
      by (auto simp: pg_run_get_def pg_upsert_def Let_def find_append_key image_iff split: option.split)
  qed
next
  case (3 g run row)
  then obtain p where p: "find (\<lambda>r. rs_run_id (fst r) = run) (pr_rows g) = Some p" "row = fst p"
    by (auto simp: pg_run_get_def)
  from p(1) have "rs_run_id (fst p) = run" by (auto simp: find_Some_iff)
  with p(2) show ?case by simp
next
  case (4 g row)
  then have "find (\<lambda>r. rs_run_id (fst r) = rs_run_id row) (pr_rows g) = Some p \<longleftrightarrow>
      p \<in> set (pr_rows g) \<and> rs_run_id (fst p) = rs_run_id row" for p
    using find_key [of "rs_run_id \<circ> fst" "pr_rows g" "rs_run_id row" p]
    by (simp add: pg_registry_wf_def comp_def)
  then show ?case by (force simp: pg_run_get_def pg_pending_def)
next
  case (5 g)
  let ?rs = "[r \<leftarrow> pr_rows g. rs_status (fst r) = ''AWAITING_APPROVAL'']"
  from 5 have "distinct (map (rs_run_id \<circ> fst) ?rs)"
    by (simp add: pg_registry_wf_def distinct_map_filter)
  then have "distinct (map (rs_run_id \<circ> fst) (sort_key snd ?rs))" by (simp add: distinct_map)
  then show ?case by (simp add: pg_pending_def)
qed

section \<open>Endpoints\<close>

record create_run_request =
  cr_run_id :: "string option"
  cr_scenario_id :: "string option"
  cr_initial_state :: agent_state

text \<open>The service behind the app: the threads and the world, and the registry.\<close>

record service =
  sv_system :: system
  sv_registry :: mem_registry

definition answer_run ::
  "string \<Rightarrow> service \<Rightarrow> run_result \<times> agent_state \<times> system \<Rightarrow> run_status response \<times> service" where
  "answer_run run_id sv outcome =
     (case outcome of (r, result, sys) \<Rightarrow>
        if (case r of Errored _ \<Rightarrow> True | Library_error \<Rightarrow> True | _ \<Rightarrow> False)
        then (Inl 500, sv\<lparr>sv_system := sys\<rparr>)
        else (Inr (to_response run_id result),
              \<lparr>sv_system = sys,
               sv_registry = mem_upsert run_id (to_response run_id result) (sv_registry sv)\<rparr>))"

definition create_run :: "engine \<Rightarrow> string \<Rightarrow> create_run_request \<Rightarrow> service \<Rightarrow> run_status response \<times> service" where
  "create_run ainvoke uuid body sv =
     (let run_id = (if truthy (cr_run_id body) then the (cr_run_id body) else uuid);
          initial_state = (if truthy (cr_scenario_id body)
            then (cr_initial_state body)\<lparr>st_scenario_id := cr_scenario_id body\<rparr>
            else cr_initial_state body)
      in answer_run run_id sv (start_workflow ainvoke run_id initial_state (sv_system sv)))"

definition pending_approval :: "service \<Rightarrow> run_status list" where
  "pending_approval sv = mem_pending (sv_registry sv)"

definition api_get_run :: "service \<Rightarrow> string \<Rightarrow> run_status response" where
  "api_get_run sv run_id =
     (case mem_run_get (sv_registry sv) run_id of None \<Rightarrow> Inl 404 | Some row \<Rightarrow> Inr row)"

definition submit_decision ::
  "engine \<Rightarrow> string \<Rightarrow> human_decision \<Rightarrow> service \<Rightarrow> run_status response \<times> service" where
  "submit_decision ainvoke run_id body sv =
     (case mem_run_get (sv_registry sv) run_id of
        None \<Rightarrow> (Inl 404, sv)
      | Some existing \<Rightarrow>
          if rs_status existing \<noteq> ''AWAITING_APPROVAL'' then (Inl 409, sv)
          else answer_run run_id sv (resume_workflow ainvoke run_id body (sv_system sv)))"

definition get_audit :: "service \<Rightarrow> string \<Rightarrow> audit_record list response" where
  "get_audit sv run_id =
     (case mem_run_get (sv_registry sv) run_id of
        None \<Rightarrow> Inl 404
      | Some _ \<Rightarrow> Inr (mem_audit_get_run (w_audit (sys_world (sv_system sv))) run_id))"

section \<open>The registry follows the threads\<close>

text \<open>
  Every row is the response of its thread's state, as long as no call failed with 500.
\<close>

definition in_step :: "service \<Rightarrow> bool" where
  "in_step sv \<longleftrightarrow> mem_registry_wf (sv_registry sv) \<and>
     (\<forall>run row. mem_run_get (sv_registry sv) run = Some row \<longrightarrow>
        (\<exists>cp. map_of (sys_threads (sv_system sv)) run = Some cp \<and> row = to_response run (cp_state cp) \<and>
           (rs_status row = ''AWAITING_APPROVAL'' \<longrightarrow> cp_next cp = Some Await)))"

text \<open>Where a run stops, its status is \<^verbatim>\<open>AWAITING_APPROVAL\<close> exactly at the interrupt.\<close>

lemma stopped_status:
  assumes "cp_inv rv cp" and "stops r cp" and "\<And>e. r \<noteq> Errored e" and "r \<noteq> Library_error"
  shows "rs_status (to_response run (cp_state cp)) = ''AWAITING_APPROVAL'' \<longleftrightarrow> cp_next cp = Some Await"
proof (cases r)
  case (Interrupted p)
  with assms show ?thesis by (simp add: stops_def cp_inv_def to_response_def)
next
  case Returned
  with assms show ?thesis by (auto simp: stops_def cp_inv_def to_response_def)
qed (use assms in auto)

lemma answer_run_in_step:
  assumes "in_step sv" and "cp_inv rv cp" and "stops r cp" and "st = cp_state cp"
    and "map_of (sys_threads sys') = (map_of (sys_threads (sv_system sv)))(run \<mapsto> cp)"
    and "answer_run run sv (r, st, sys') = (Inr body, sv')"
  shows "in_step sv' \<and> body = to_response run st \<and> api_get_run sv' run = Inr body"
proof -
  from assms(6) have r: "\<And>e. r \<noteq> Errored e" "r \<noteq> Library_error"
    and body: "body = to_response run st"
    and sv': "sv' = \<lparr>sv_system = sys', sv_registry = mem_upsert run (to_response run st) (sv_registry sv)\<rparr>"
    by (auto simp: answer_run_def split: if_splits run_result.splits)
  from assms(1) have wf: "mem_registry_wf (sv_registry sv)" by (simp add: in_step_def)
  have id: "(to_response run st)\<lparr>rs_run_id := run\<rparr> = to_response run st" by (simp add: to_response_def)
  note get = mem_registry.get_upsert [OF wf, of run "to_response run st", unfolded id, unfolded assms(4)]
  have "in_step sv'"
    using assms(1,4,5) mem_registry.upsert_invar [OF wf] stopped_status [OF assms(2,3) r]
    by (auto simp: in_step_def sv' get)
  with body get show ?thesis by (simp add: api_get_run_def sv' assms(4))
qed

end
