(* ===== verification/Lifecycle.thy ===== *)
theory Lifecycle
  imports Api
begin

text \<open>
  Whole runs, node by node: a reasoner that proposes the restart of a known service, which the
  classifier finds low risk. When the restart heals the service the run completes; when it does
  not, the run goes through its replanning cycles and escalates.
\<close>

section \<open>Restarting heals all but the disk\<close>

lemma restart_status:
  "status (restart s) = ''healthy'' \<longleftrightarrow> (svc_has_disk s \<longrightarrow> disk_pct s < DEGRADED_THRESHOLD)"
  unfolding status_healthy_iff
  by (auto simp: restart_def clear_transient_def worst_pct_def baseline_defs threshold_defs)

lemma restart_perform_known:
  "map_of (clients c) svc = Some s \<Longrightarrow> restart_perform svc c =
     (Inr ([(''service'', PStr (svc_name s)), (''restart_count'', PInt (restart_count s + 1)),
            (''status'', PStr (status (restart s)))],
           noop_compensation ''restart has no reversible side effect''),
      set_client svc (restart s) c)"
  by (simp add: restart_perform_def app_restart_def bindE_def Let_def)
    (simp add: restart_def clear_transient_def)

lemma execute_restart_fresh:
  assumes s: "map_of (clients c) svc = Some s" and new: "ctx_get c key = None"
  obtains out c' where "execute_action ci (join_action ''restart_service'' svc) ps key c = (Inr out, c')"
    "oc_compensation out = noop_compensation ''restart has no reversible side effect''"
    "clients c' = AList.update svc (restart s) (clients c)"
    "ctx_get c' key \<noteq> None" "\<And>k. k \<noteq> key \<Longrightarrow> ctx_get c' k = ctx_get c k"
proof -
  have new': "ctx_get (set_client svc (restart s) c) key = None"
    using new by (simp add: ctx_get_def)
  have run: "execute_action ci (join_action ''restart_service'' svc) ps key c =
      bindE (run_tool ''restart_service'' key [(''service'', PStr svc)] (restart_perform svc))
        (\<lambda>m. returnE \<lparr>oc_result = mr_result m, oc_compensation = mr_compensation m\<rparr>) c"
    by (simp add: execute_action_def split_join execute_tool_def restart_service_def bindE_def)
  let ?res = "[(''service'', PStr (svc_name s)), (''restart_count'', PInt (restart_count s + 1)),
      (''status'', PStr (status (restart s)))]"
  let ?undo = "noop_compensation ''restart has no reversible side effect''"
  let ?row = "\<lparr>lr_tool_name = ''restart_service'', lr_args = [(''service'', PStr svc)],
      lr_result = PDict ?res, lr_compensation = PDict ?undo\<rparr>"
  have ex: "execute_action ci (join_action ''restart_service'' svc) ps key c =
      (Inr \<lparr>oc_result = ?res, oc_compensation = ?undo\<rparr>, ctx_record key ?row (set_client svc (restart s) c))"
    unfolding run by (simp add: run_tool_fresh [OF new] bindE_def restart_perform_known [OF s])
  have other: "ctx_get (ctx_record key ?row (set_client svc (restart s) c)) k = ctx_get c k" if "k \<noteq> key" for k
    using that ctx_ledger.get_record_other [of k key] by (simp add: ctx_get_def)
  show ?thesis
    by (rule that [OF ex]) (simp_all add: ctx_ledger.get_record_new [OF new'] other)
qed

section \<open>The scripted reasoner\<close>

text \<open>A runtime that always proposes to restart the service and gives that the tier.\<close>

definition scripted_restart :: "runtime \<Rightarrow> string \<Rightarrow> risk_tier \<Rightarrow> bool" where
  "scripted_restart rt svc tier \<longleftrightarrow> svc \<in> set KNOWN_SERVICES \<and>
     (\<forall>t ob. \<exists>s. rt_diagnose rt t ob = Inr s) \<and>
     (\<forall>t ob d r. \<exists>p. rt_propose rt t ob d r = Inr p \<and> pr_tool p = ''restart_service'' \<and> pr_target p = svc) \<and>
     (\<forall>t a d r sit. \<exists>k. rt_classify rt t a d r sit = Inr k \<and> cl_tier k = tier)"

abbreviation restarts :: "runtime \<Rightarrow> string \<Rightarrow> bool" where
  "restarts rt svc \<equiv> scripted_restart rt svc LOW"

lemma scripted_restartD:
  assumes "scripted_restart rt svc tier"
  shows "svc \<in> set KNOWN_SERVICES" and "\<exists>s. rt_diagnose rt t ob = Inr s"
    and "\<exists>p. rt_propose rt t ob d r = Inr p \<and> pr_tool p = ''restart_service'' \<and> pr_target p = svc"
    and "\<exists>k. rt_classify rt t a d r sit = Inr k \<and> cl_tier k = tier"
  using assms by (simp_all add: scripted_restart_def)

abbreviation restart_action :: "string \<Rightarrow> string" where
  "restart_action svc \<equiv> join_action ''restart_service'' svc"

lemma restarts_total: "scripted_restart rt svc tier \<Longrightarrow> total_reasoners rt"
  using scripted_restartD(2-4) unfolding total_reasoners_def by metis

lemma restart_fp_ok: "svc \<in> set KNOWN_SERVICES \<Longrightarrow> fp_ok (restart_action svc)"
  by (simp add: fp_ok_def split_colon_join KNOWN_TOOLS_def)

section \<open>Step by step\<close>

text \<open>
  \<open>posed P st run svc n\<close>: the state of a run after a diagnosis whose sweep showed the service as
  \<open>P\<close> says, with \<open>n\<close> cycles done. In a \<open>ready\<close> state the policy has no reason to raise the
  tier of a restart of the service.
\<close>

definition posed :: "(service_obs \<Rightarrow> bool) \<Rightarrow> agent_state \<Rightarrow> string \<Rightarrow> string \<Rightarrow> int \<Rightarrow> bool" where
  "posed P st run svc n \<longleftrightarrow> diagnosed st \<and> st_run_id st = Some run \<and> cycles st = n \<and>
     holds (\<lambda>ob. holds P (map_of (ob_services ob) svc)) (st_observations st)"

definition no_floor :: "service_obs \<Rightarrow> bool" where
  "no_floor so \<longleftrightarrow> MIN_REDUNDANT_REPLICAS \<le> m_replicas (so_metrics so) \<or> m_restart_count (so_metrics so) < 1"

abbreviation ready :: "agent_state \<Rightarrow> string \<Rightarrow> string \<Rightarrow> int \<Rightarrow> bool" where
  "ready \<equiv> posed no_floor"

definition goes ::
  "runtime \<Rightarrow> bool \<Rightarrow> node \<Rightarrow> agent_state \<Rightarrow> world \<Rightarrow> node \<Rightarrow> agent_state \<Rightarrow> world \<Rightarrow> bool" where
  "goes rt rv n st w n' st' w' \<longleftrightarrow> exec_step rt rv None n st w = (Next (Some n') st', w')"

lemma drive_goes:
  "goes rt rv n st w n' st' w' \<Longrightarrow> drive rt rv (Suc k) None n st w = drive rt rv k None n' st' w'"
  by (simp add: goes_def)

text \<open>A node that succeeds, with a run id in the state, is a step to where the wiring says.\<close>

lemma goesI:
  assumes "n \<noteq> Await" and "node_fn rt None (w_tick w) n st (w_ctx w) = (Inr u, c)"
    and "st_run_id st \<noteq> None" and "graph_next rv n (merge st u) = Inr (Some n')"
  shows "\<exists>w'. goes rt rv n st w n' (merge st u) w' \<and> w_ctx w' = c"
proof -
  from assms(3) obtain e where "audit_entry rt (w_tick w) n st u = Inr e"
    by (auto simp: audit_entry_def Let_def)
  with assms show ?thesis
    by (auto simp: goes_def exec_step_def with_audit_def Let_def)
qed

lemma go_diagnose:
  assumes sb: "sandbox (w_ctx w)" and rt: "scripted_restart rt svc tier" and st: "started st" "st_run_id st = Some run"
    and s: "map_of (clients (w_ctx w)) svc = Some s"
    and P: "\<And>now. P (service_view now s)"
  obtains st' w' where "goes rt rv Diagnose st w Propose st' w'" "w_ctx w' = w_ctx w"
    "posed P st' run svc (cycles st)"
proof -
  let ?t = "w_tick w"
  obtain ob where ob: "gather_observations (rt_log_clock rt ?t) (w_ctx w) = Inr ob" "full_sweep ob"
      "map_of (ob_services ob) svc = Some (service_view (rt_log_clock rt ?t svc) s)"
    using gather_sandbox [OF sb, of "rt_log_clock rt ?t"] rt s unfolding scripted_restart_def by metis
  obtain sm where sm: "rt_diagnose rt ?t ob = Inr sm" using scripted_restartD(2) [OF rt] by blast
  let ?u = "[Status DIAGNOSING, Observations ob, Diagnosis sm]"
  have "node_fn rt None ?t Diagnose st (w_ctx w) = (Inr ?u, w_ctx w)"
    using ob sm by (simp add: diagnose_def)
  from goesI [OF _ this, of rv Propose] st obtain w' where
    "goes rt rv Diagnose st w Propose (merge st ?u) w'" "w_ctx w' = w_ctx w" by auto
  moreover have "posed P (merge st ?u) run svc (cycles st)"
    using st ob P by (simp add: posed_def diagnosed_def started_def cycles_def)
  ultimately show ?thesis by (rule that)
qed

lemma go_propose:
  assumes rt: "scripted_restart rt svc tier" and at: "posed P st run svc n"
  obtains st' w' where "goes rt rv Propose st w Classify st' w'" "w_ctx w' = w_ctx w"
    "posed P st' run svc n" "sound st'" "st_proposed_action st' = Some (restart_action svc)"
proof -
  let ?t = "w_tick w"
  from at obtain ob diag where ob: "st_observations st = Some ob" "full_sweep ob" "st_diagnosis st = Some diag"
    by (auto simp: posed_def inv_defs elim!: holdsE)
  obtain p where p: "rt_propose rt ?t ob diag (st_replan_context st) = Inr p"
      "pr_tool p = ''restart_service''" "pr_target p = svc"
    using scripted_restartD(3) [OF rt] by metis
  have sp: "split_action (restart_action svc) = Inr (''restart_service'', svc)" by (simp add: split_join)
  have "grounded ''restart_service'' svc" using rt by (simp add: grounded_def KNOWN_TOOLS_def scripted_restart_def)
  with validate_full_sweep [OF ob(2) sp] have v: "validate_proposal ob (restart_action svc) = Inr None" by simp
  obtain fp where fp: "compute_fingerprint (rt_float rt) (rt_digest rt) ob (restart_action svc) = Inr fp"
    using valid_has_fingerprint [OF v] by blast
  let ?ps = "case pr_parameters p of None \<Rightarrow> [] | Some ps \<Rightarrow> ps"
  let ?u = "[Status ACTION_PROPOSED, Proposed_action (restart_action svc), Action_parameters ?ps,
      Action_rationale (pr_rationale p), State_fingerprint (Some fp), Invalid_proposal_reason None]"
  have "node_fn rt None ?t Propose st (w_ctx w) = (Inr ?u, w_ctx w)"
    using ob p v fp by (simp add: propose_action_def)
  from goesI [OF _ this, of rv Classify] at obtain w' where
    "goes rt rv Propose st w Classify (merge st ?u) w'" "w_ctx w' = w_ctx w"
    by (auto simp: posed_def route_simps truthy_def)
  moreover have "posed P (merge st ?u) run svc n" "sound (merge st ?u)"
    using at rt restart_fp_ok by (auto simp: posed_def inv_defs cycles_def scripted_restart_def)
  moreover have "st_proposed_action (merge st ?u) = Some (restart_action svc)" by simp
  ultimately show ?thesis by (rule that)
qed

lemma go_classify:
  assumes rt: "restarts rt svc" and at: "ready st run svc n" and s: "sound st"
    and a: "st_proposed_action st = Some (restart_action svc)"
  obtains st' w' where "goes rt rv Classify st w Prepare st' w'" "w_ctx w' = w_ctx w"
    "ready st' run svc n" "sound st'" "st_proposed_action st' = Some (restart_action svc)"
proof -
  let ?t = "w_tick w"
  from at obtain ob diag so where ob: "st_observations st = Some ob" "st_diagnosis st = Some diag"
    and so: "map_of (ob_services ob) svc = Some so"
      "MIN_REDUNDANT_REPLICAS \<le> m_replicas (so_metrics so) \<or> m_restart_count (so_metrics so) < 1"
    by (auto simp: posed_def no_floor_def inv_defs elim!: holdsE)
  have sp: "split_action (restart_action svc) = Inr (''restart_service'', svc)" by (simp add: split_join)
  obtain sf where sf: "situational_features ob (restart_action svc) = Inr (Some sf)"
      "sf_has_redundant_replica sf \<or> sf_restart_count_this_run sf < 1"
    using sp so by (auto simp: situational_features_def Let_def)
  obtain k where k: "rt_classify rt ?t (restart_action svc) diag (st_action_rationale st) (Some sf) = Inr k"
      "cl_tier k = LOW"
    using scripted_restartD(4) [OF rt] by metis
  have low: "apply_policy ''restart_service'' LOW (Some sf) = LOW"
    using sf(2) by (simp add: policy_low_iff FORCED_HIGH_TOOLS_def)
  let ?u = "[Status RISK_CLASSIFIED, Risk_tier_llm LOW, Risk_tier_final LOW,
      Risk_rationale (cl_rationale k), Redundancy_floor_applied False]"
  have "node_fn rt None ?t Classify st (w_ctx w) = (Inr ?u, w_ctx w)"
    using ob a sp sf(1) k low by (simp add: classify_risk_def Let_def)
  from goesI [OF _ this, of rv Prepare] at obtain w' where
    "goes rt rv Classify st w Prepare (merge st ?u) w'" "w_ctx w' = w_ctx w"
    by (auto simp: posed_def route_defs)
  moreover have "ready (merge st ?u) run svc n" "sound (merge st ?u)"
    using at s by (auto simp: posed_def inv_defs cycles_def)
  moreover have "st_proposed_action (merge st ?u) = Some (restart_action svc)" using a by simp
  ultimately show ?thesis by (rule that)
qed

lemma go_prepare:
  assumes at: "posed P st run svc n" and s: "sound st"
    and a: "st_proposed_action st = Some (restart_action svc)"
  obtains st' w' where "goes rt rv Prepare st w Execute st' w'" "w_ctx w' = w_ctx w"
    "posed P st' run svc n" "sound st'" "st_proposed_action st' = Some (restart_action svc)"
    "st_idempotency_key st' = Some (run @ '':'' @ restart_action svc)"
proof -
  let ?u = "[Status EXECUTING, Idempotency_key (run @ '':'' @ restart_action svc)]"
  from at have run: "st_run_id st = Some run" by (simp add: posed_def)
  with a have "node_fn rt None (w_tick w) Prepare st (w_ctx w) = (Inr ?u, w_ctx w)"
    by (simp add: prepare_execution_def)
  from goesI [OF _ this, of rv Execute] run obtain w' where
    "goes rt rv Prepare st w Execute (merge st ?u) w'" "w_ctx w' = w_ctx w" by auto
  moreover have "posed P (merge st ?u) run svc n" "sound (merge st ?u)"
    using at s by (auto simp: posed_def inv_defs cycles_def)
  moreover have "st_proposed_action (merge st ?u) = Some (restart_action svc)" using a by simp
  moreover have "st_idempotency_key (merge st ?u) = Some (run @ '':'' @ restart_action svc)" by simp
  ultimately show ?thesis by (rule that)
qed

lemma go_execute:
  assumes at: "posed P st run svc n" and s: "sound st"
    and a: "st_proposed_action st = Some (restart_action svc)"
    and key: "st_idempotency_key st = Some key"
    and ex: "\<And>ps. \<exists>out. execute_action (rt_coerce rt) (restart_action svc) ps key (w_ctx w) = (Inr out, c) \<and>
      oc_compensation out = noop_compensation why"
  obtains st' w' where "goes rt rv Execute st w Verify st' w'" "w_ctx w' = c"
    "posed P st' run svc n" "sound st'" "executed st'" "st_proposed_action st' = Some (restart_action svc)"
    "st_compensation st' = Some (noop_compensation why)"
proof -
  let ?ps = "case st_action_parameters st of None \<Rightarrow> [] | Some ps \<Rightarrow> ps"
  from ex obtain out where out: "execute_action (rt_coerce rt) (restart_action svc) ?ps key (w_ctx w) = (Inr out, c)"
      "oc_compensation out = noop_compensation why" by blast
  let ?u = "[Status EXECUTING, Execution_result (oc_result out), Compensation (noop_compensation why)]"
  have "node_fn rt None (w_tick w) Execute st (w_ctx w) = (Inr ?u, c)"
    using a key out by (simp add: execute_node bindE_def)
  from goesI [OF _ this, of rv Verify] at obtain w' where
    "goes rt rv Execute st w Verify (merge st ?u) w'" "w_ctx w' = c" by (auto simp: posed_def)
  moreover have "posed P (merge st ?u) run svc n" "sound (merge st ?u)" "executed (merge st ?u)"
    using at s by (auto simp: posed_def inv_defs cycles_def)
  moreover have "st_proposed_action (merge st ?u) = Some (restart_action svc)" using a by simp
  moreover have "st_compensation (merge st ?u) = Some (noop_compensation why)" by simp
  ultimately show ?thesis by (rule that)
qed

lemma verify_restart:
  assumes "st_proposed_action st = Some (restart_action svc)" and "executed st"
    and "map_of (clients c) svc = Some s"
  shows "verify st c = (Inr [Status VERIFYING, Verification_passed (status s = ''healthy'')], c)"
  using assms by (auto simp: verify_def verify_action_def split_join get_service_health_def
      app_health_def executed_def)

lemma go_verify:
  assumes at: "posed P st run svc n" and s: "sound st" and e: "executed st"
    and a: "st_proposed_action st = Some (restart_action svc)"
    and c: "map_of (clients (w_ctx w)) svc = Some sv"
  obtains st' w' where "goes rt rv Verify st w (if status sv = ''healthy'' then Completed else Rolling_back) st' w'"
    "w_ctx w' = w_ctx w" "posed P st' run svc n" "sound st'"
    "st_proposed_action st' = Some (restart_action svc)" "st_compensation st' = st_compensation st"
proof -
  let ?b = "status sv = ''healthy''"
  let ?u = "[Status VERIFYING, Verification_passed ?b]"
  have "node_fn rt None (w_tick w) Verify st (w_ctx w) = (Inr ?u, w_ctx w)"
    using verify_restart [OF a e c] by simp
  from goesI [OF _ this, of rv "if ?b then Completed else Rolling_back"] at obtain w' where
    "goes rt rv Verify st w (if ?b then Completed else Rolling_back) (merge st ?u) w'" "w_ctx w' = w_ctx w"
    by (auto simp: posed_def route_defs)
  moreover have "posed P (merge st ?u) run svc n" "sound (merge st ?u)"
    using at s by (auto simp: posed_def inv_defs cycles_def)
  moreover have "st_proposed_action (merge st ?u) = Some (restart_action svc)" using a by simp
  moreover have "st_compensation (merge st ?u) = st_compensation st" by simp
  ultimately show ?thesis by (rule that)
qed

lemma go_roll_back:
  assumes at: "posed P st run svc n" and undo: "st_compensation st = Some (noop_compensation why)"
  obtains st' w' where "goes rt rv Rolling_back st w Rolled_back st' w'" "w_ctx w' = w_ctx w"
    "posed P st' run svc n"
proof -
  let ?u = "[Status ROLLING_BACK, Rollback_result [(''applied'', PBool False), (''reason'', PStr why)]]"
  have "node_fn rt None (w_tick w) Rolling_back st (w_ctx w) = (Inr ?u, w_ctx w)"
    using undo undo_noop [of "rt_coerce rt" why "w_ctx w"] by (simp add: rolling_back_def bindE_def)
  from goesI [OF _ this, of rv Rolled_back] at obtain w' where
    "goes rt rv Rolling_back st w Rolled_back (merge st ?u) w'" "w_ctx w' = w_ctx w" by (auto simp: posed_def)
  moreover have "posed P (merge st ?u) run svc n"
    using at by (auto simp: posed_def inv_defs cycles_def)
  ultimately show ?thesis by (rule that)
qed

lemma go_rolled_back:
  assumes at: "posed P st run svc n"
  obtains st' w' where "goes rt rv Rolled_back st w Replan st' w'" "w_ctx w' = w_ctx w" "posed P st' run svc n"
proof -
  have "node_fn rt None (w_tick w) Rolled_back st (w_ctx w) = (Inr [Status ROLLED_BACK], w_ctx w)"
    by (simp add: rolled_back_def)
  from goesI [OF _ this, of rv Replan] at obtain w' where
    "goes rt rv Rolled_back st w Replan (merge st [Status ROLLED_BACK]) w'" "w_ctx w' = w_ctx w"
    by (auto simp: posed_def)
  moreover have "posed P (merge st [Status ROLLED_BACK]) run svc n"
    using at by (auto simp: posed_def inv_defs cycles_def)
  ultimately show ?thesis by (rule that)
qed

lemma go_replan:
  assumes at: "posed P st run svc n" and "0 \<le> n"
  obtains st' w' where "goes rt rv Replan st w (if n + 1 \<ge> MAX_REPLAN_CYCLES then Escalate else Propose) st' w'"
    "w_ctx w' = w_ctx w" "posed P st' run svc (n + 1)"
proof -
  let ?u = "[Status REPLANNING, Replan_cycles (n + 1), Replan_context (replan_reason st)]"
  have "node_fn rt None (w_tick w) Replan st (w_ctx w) = (Inr ?u, w_ctx w)"
    using at by (simp add: replan_def posed_def cycles_def)
  from goesI [OF _ this, of rv "if n + 1 \<ge> MAX_REPLAN_CYCLES then Escalate else Propose"] at obtain w' where
    "goes rt rv Replan st w (if n + 1 \<ge> MAX_REPLAN_CYCLES then Escalate else Propose) (merge st ?u) w'"
    "w_ctx w' = w_ctx w" by (auto simp: posed_def route_defs)
  moreover have "posed P (merge st ?u) run svc (n + 1)"
    using at assms(2) by (auto simp: posed_def inv_defs cycles_def)
  ultimately show ?thesis by (rule that)
qed

section \<open>Whole runs\<close>

text \<open>The key of a restart in a run.\<close>

abbreviation restart_key :: "string \<Rightarrow> string \<Rightarrow> string" where
  "restart_key run svc \<equiv> run @ '':'' @ restart_action svc"

text \<open>
  From a diagnosis to the execution: three nodes that change nothing.
\<close>

lemma go_to_execution:
  assumes rt: "restarts rt svc" and at: "ready st run svc n"
  obtains st' w' where "\<And>k. drive rt rv (k + 3) None Propose st w = drive rt rv k None Execute st' w'"
    "w_ctx w' = w_ctx w" "ready st' run svc n" "sound st'"
    "st_proposed_action st' = Some (restart_action svc)"
    "st_idempotency_key st' = Some (restart_key run svc)"
proof -
  obtain st1 w1 where 1: "goes rt rv Propose st w Classify st1 w1" "w_ctx w1 = w_ctx w"
    "ready st1 run svc n" "sound st1" "st_proposed_action st1 = Some (restart_action svc)"
    by (rule go_propose [OF rt at])
  obtain st2 w2 where 2: "goes rt rv Classify st1 w1 Prepare st2 w2" "w_ctx w2 = w_ctx w1"
    "ready st2 run svc n" "sound st2" "st_proposed_action st2 = Some (restart_action svc)"
    by (rule go_classify [OF rt 1(3-5)])
  obtain st3 w3 where 3: "goes rt rv Prepare st2 w2 Execute st3 w3" "w_ctx w3 = w_ctx w2"
    "ready st3 run svc n" "sound st3" "st_proposed_action st3 = Some (restart_action svc)"
    "st_idempotency_key st3 = Some (restart_key run svc)"
    by (rule go_prepare [OF 2(3-5)])
  have "drive rt rv (k + 3) None Propose st w = drive rt rv k None Execute st3 w3" for k
    using drive_goes [OF 1(1), of "k + 2"] drive_goes [OF 2(1), of "k + 1"] drive_goes [OF 3(1), of k]
    by (simp add: eval_nat_numeral)
  then show ?thesis by (rule that) (simp_all add: 1 2 3)
qed

text \<open>Execution with a given effect, and the verification of what it left.\<close>

lemma go_execute_verify:
  assumes at: "ready st run svc n" "sound st" "st_proposed_action st = Some (restart_action svc)"
      "st_idempotency_key st = Some key"
    and ex: "\<And>ps. \<exists>out. execute_action (rt_coerce rt) (restart_action svc) ps key (w_ctx w) = (Inr out, c) \<and>
      oc_compensation out = noop_compensation why"
    and sv: "map_of (clients c) svc = Some sv"
  obtains st' w' where "\<And>k. drive rt rv (k + 2) None Execute st w =
      drive rt rv k None (if status sv = ''healthy'' then Completed else Rolling_back) st' w'"
    "w_ctx w' = c" "ready st' run svc n" "st_compensation st' = Some (noop_compensation why)"
proof -
  obtain st1 w1 where 1: "goes rt rv Execute st w Verify st1 w1" "w_ctx w1 = c"
    "ready st1 run svc n" "sound st1" "executed st1" "st_proposed_action st1 = Some (restart_action svc)"
    "st_compensation st1 = Some (noop_compensation why)"
    by (rule go_execute [OF at ex])
  from sv 1(2) have sv1: "map_of (clients (w_ctx w1)) svc = Some sv" by simp
  obtain st2 w2 where 2: "goes rt rv Verify st1 w1 (if status sv = ''healthy'' then Completed else Rolling_back) st2 w2"
    "w_ctx w2 = w_ctx w1" "ready st2 run svc n" "st_compensation st2 = st_compensation st1"
    by (rule go_verify [OF 1(3-6) sv1])
  have "drive rt rv (k + 2) None Execute st w =
      drive rt rv k None (if status sv = ''healthy'' then Completed else Rolling_back) st2 w2" for k
    using drive_goes [OF 1(1), of "k + 1"] drive_goes [OF 2(1), of k] by (simp add: eval_nat_numeral)
  then show ?thesis by (rule that) (simp_all add: 1 2)
qed

lemma drive_completed:
  assumes "st_run_id st \<noteq> None"
  obtains w' where "drive rt rv (Suc k) None Completed st w = (Returned,
      \<lparr>cp_state = st\<lparr>st_status := Some COMPLETED, st_final_state := Some COMPLETED\<rparr>, cp_next = None\<rparr>, w')"
    "w_ctx w' = w_ctx w"
  using assms by (auto simp: exec_step_def with_audit_def completed_def audit_entry_def Let_def)

lemma drive_escalated:
  assumes "st_run_id st \<noteq> None"
  obtains w' where "drive rt rv (Suc k) None Escalate st w = (Returned,
      \<lparr>cp_state = st\<lparr>st_status := Some ESCALATED, st_final_state := Some ESCALATED\<rparr>, cp_next = None\<rparr>, w')"
    "w_ctx w' = w_ctx w"
  using assms by (auto simp: exec_step_def with_audit_def escalate_def audit_entry_def Let_def)

text \<open>A restart that heals: seven nodes to completion.\<close>

lemma healing_run:
  assumes sb: "sandbox (w_ctx w)" and rt: "restarts rt svc" and st: "started st" "st_run_id st = Some run"
    and s: "map_of (clients (w_ctx w)) svc = Some s"
    and first: "MIN_REDUNDANT_REPLICAS \<le> replicas s \<or> restart_count s < 1"
    and new: "ctx_get (w_ctx w) (restart_key run svc) = None"
    and heals: "svc_has_disk s \<longrightarrow> disk_pct s < DEGRADED_THRESHOLD"
  obtains cp w' where "drive rt rv (k + 7) None Diagnose st w = (Returned, cp, w')"
    "st_status (cp_state cp) = Some COMPLETED" "st_final_state (cp_state cp) = Some COMPLETED"
    "clients (w_ctx w') = AList.update svc (restart s) (clients (w_ctx w))"
proof -
  obtain st1 w1 where 1: "goes rt rv Diagnose st w Propose st1 w1" "w_ctx w1 = w_ctx w"
    "ready st1 run svc (cycles st)"
    by (rule go_diagnose [where P = no_floor, OF sb rt st s])
      (use first in \<open>auto simp: no_floor_def service_view_def\<close>)
  obtain st2 w2 where 2: "\<And>k. drive rt rv (k + 3) None Propose st1 w1 = drive rt rv k None Execute st2 w2"
    "w_ctx w2 = w_ctx w1" "ready st2 run svc (cycles st)" "sound st2"
    "st_proposed_action st2 = Some (restart_action svc)"
    "st_idempotency_key st2 = Some (restart_key run svc)"
    by (rule go_to_execution [OF rt 1(3), where rv = rv and w = w1]) blast
  let ?m = "\<lambda>ps. execute_action (rt_coerce rt) (restart_action svc) ps (restart_key run svc) (w_ctx w)"
  have c2: "w_ctx w2 = w_ctx w" by (simp add: 1 2)
  obtain out c' where out: "?m [] = (Inr out, c')"
      "oc_compensation out = noop_compensation ''restart has no reversible side effect''"
      "clients c' = AList.update svc (restart s) (clients (w_ctx w))"
      "ctx_get c' (restart_key run svc) \<noteq> None"
      "\<And>k. k \<noteq> restart_key run svc \<Longrightarrow> ctx_get c' k = ctx_get (w_ctx w) k"
    by (rule execute_restart_fresh [OF s new, where ci = "rt_coerce rt" and ps = "[]"]) blast
  have same: "?m ps = ?m []" for ps
    by (simp add: execute_action_def split_join execute_tool_def)
  have ex: "\<exists>out. execute_action (rt_coerce rt) (restart_action svc) ps (restart_key run svc) (w_ctx w2) = (Inr out, c') \<and>
      oc_compensation out = noop_compensation ''restart has no reversible side effect''" for ps
    using out(1,2) same [of ps] c2 by simp
  have sv: "map_of (clients c') svc = Some (restart s)" by (simp add: out AList.update_conv')
  obtain st3 w3 where 3: "\<And>k. drive rt rv (k + 2) None Execute st2 w2 =
      drive rt rv k None (if status (restart s) = ''healthy'' then Completed else Rolling_back) st3 w3"
    "w_ctx w3 = c'" "ready st3 run svc (cycles st)"
    by (rule go_execute_verify [OF 2(3-6) ex sv, where rv = rv]) blast
  obtain w4 where 4: "drive rt rv (Suc k) None Completed st3 w3 = (Returned,
      \<lparr>cp_state = st3\<lparr>st_status := Some COMPLETED, st_final_state := Some COMPLETED\<rparr>, cp_next = None\<rparr>, w4)"
    "w_ctx w4 = w_ctx w3"
    using drive_completed [of st3 rt rv k w3] 3(3) by (auto simp: posed_def)
  have "drive rt rv (k + 7) None Diagnose st w = drive rt rv (Suc k) None Completed st3 w3"
    using drive_goes [OF 1(1), of "k + 6"] 2(1) [of "k + 3"] 3(1) [of "k + 1"] heals
    by (simp add: restart_status eval_nat_numeral)
  also note 4(1)
  finally show ?thesis by (rule that) (simp_all add: 4(2) 3(2) out(3))
qed

text \<open>A cycle whose execution leaves the service unhealthy: eight nodes to the next cycle.\<close>

lemma failing_cycle:
  assumes rt: "restarts rt svc" and at: "ready st run svc n" and n: "0 \<le> n"
    and ex: "\<And>ps. \<exists>out. execute_action (rt_coerce rt) (restart_action svc) ps (restart_key run svc) (w_ctx w)
      = (Inr out, c) \<and> oc_compensation out = noop_compensation why"
    and sv: "map_of (clients c) svc = Some sv" "status sv \<noteq> ''healthy''"
  obtains st' w' where "\<And>k. drive rt rv (k + 8) None Propose st w =
      drive rt rv k None (if n + 1 \<ge> MAX_REPLAN_CYCLES then Escalate else Propose) st' w'"
    "w_ctx w' = c" "ready st' run svc (n + 1)"
proof -
  obtain st2 w2 where 2: "\<And>k. drive rt rv (k + 3) None Propose st w = drive rt rv k None Execute st2 w2"
    "w_ctx w2 = w_ctx w" "ready st2 run svc n" "sound st2"
    "st_proposed_action st2 = Some (restart_action svc)"
    "st_idempotency_key st2 = Some (restart_key run svc)"
    by (rule go_to_execution [OF rt at, where rv = rv and w = w]) blast
  have ex2: "\<exists>out. execute_action (rt_coerce rt) (restart_action svc) ps (restart_key run svc) (w_ctx w2)
      = (Inr out, c) \<and> oc_compensation out = noop_compensation why" for ps
    using ex 2(2) by simp
  obtain st3 w3 where 3: "\<And>k. drive rt rv (k + 2) None Execute st2 w2 =
      drive rt rv k None (if status sv = ''healthy'' then Completed else Rolling_back) st3 w3"
    "w_ctx w3 = c" "ready st3 run svc n" "st_compensation st3 = Some (noop_compensation why)"
    by (rule go_execute_verify [OF 2(3-6) ex2 sv(1), where rv = rv]) blast
  obtain st4 w4 where 4: "goes rt rv Rolling_back st3 w3 Rolled_back st4 w4" "w_ctx w4 = w_ctx w3"
    "ready st4 run svc n"
    by (rule go_roll_back [OF 3(3,4)])
  obtain st5 w5 where 5: "goes rt rv Rolled_back st4 w4 Replan st5 w5" "w_ctx w5 = w_ctx w4" "ready st5 run svc n"
    by (rule go_rolled_back [OF 4(3)])
  obtain st6 w6 where 6: "goes rt rv Replan st5 w5 (if n + 1 \<ge> MAX_REPLAN_CYCLES then Escalate else Propose) st6 w6"
    "w_ctx w6 = w_ctx w5" "ready st6 run svc (n + 1)"
    by (rule go_replan [OF 5(3) n])
  have "drive rt rv (k + 8) None Propose st w =
      drive rt rv k None (if n + 1 \<ge> MAX_REPLAN_CYCLES then Escalate else Propose) st6 w6" for k
    using 2(1) [of "k + 5"] 3(1) [of "k + 3"] sv(2) drive_goes [OF 4(1), of "k + 2"]
      drive_goes [OF 5(1), of "k + 1"] drive_goes [OF 6(1), of k]
    by (simp add: eval_nat_numeral)
  then show ?thesis by (rule that) (simp_all add: 3 4 5 6)
qed

text \<open>
  A restart that does not heal, proposed again and again: the service is restarted once, the
  later executions answer from the ledger, and after three cycles the run escalates.
\<close>

lemma thrashing_run:
  assumes sb: "sandbox (w_ctx w)" and rt: "restarts rt svc"
    and st: "st_replan_cycles st = None" "st_run_id st = Some run"
    and s: "map_of (clients (w_ctx w)) svc = Some s"
    and first: "MIN_REDUNDANT_REPLICAS \<le> replicas s \<or> restart_count s < 1"
    and new: "ctx_get (w_ctx w) (restart_key run svc) = None"
    and full: "svc_has_disk s" "DEGRADED_THRESHOLD \<le> disk_pct s"
  obtains st' w' where "\<And>k. drive rt rv (k + 25) None Diagnose st w = drive rt rv k None Escalate st' w'"
    "clients (w_ctx w') = AList.update svc (restart s) (clients (w_ctx w))"
    "st_run_id st' = Some run"
proof -
  let ?why = "''restart has no reversible side effect''"
  have started: "started st" "cycles st = 0" using st by (simp_all add: started_def cycles_def)
  obtain st1 w1 where 1: "goes rt rv Diagnose st w Propose st1 w1" "w_ctx w1 = w_ctx w"
    "ready st1 run svc (cycles st)"
    by (rule go_diagnose [where P = no_floor, OF sb rt started(1) st(2) s])
      (use first in \<open>auto simp: no_floor_def service_view_def\<close>)
  let ?m = "\<lambda>ps. execute_action (rt_coerce rt) (restart_action svc) ps (restart_key run svc)"
  have same: "?m ps = ?m []" for ps
    by (rule ext) (simp add: execute_action_def split_join execute_tool_def)
  obtain out c' where out: "?m [] (w_ctx w) = (Inr out, c')" "oc_compensation out = noop_compensation ?why"
      "clients c' = AList.update svc (restart s) (clients (w_ctx w))"
      "ctx_get c' (restart_key run svc) \<noteq> None"
      "\<And>k. k \<noteq> restart_key run svc \<Longrightarrow> ctx_get c' k = ctx_get (w_ctx w) k"
    by (rule execute_restart_fresh [OF s new, where ci = "rt_coerce rt" and ps = "[]"]) blast
  have again: "?m [] c' = (Inr out, c')" by (rule execute_action_retry [OF out(1)])
  have ex1: "\<exists>out. ?m ps (w_ctx w1) = (Inr out, c') \<and> oc_compensation out = noop_compensation ?why" for ps
    using out(1,2) same [of ps] 1(2) by simp
  have ex2: "\<exists>out. ?m ps c' = (Inr out, c') \<and> oc_compensation out = noop_compensation ?why" for ps
    using again out(2) same [of ps] by simp
  have sv: "map_of (clients c') svc = Some (restart s)" by (simp add: out AList.update_conv')
  have ill: "status (restart s) \<noteq> ''healthy''" using full by (simp add: restart_status)
  obtain st2 w2 where 2: "\<And>k. drive rt rv (k + 8) None Propose st1 w1 =
      drive rt rv k None (if cycles st + 1 \<ge> MAX_REPLAN_CYCLES then Escalate else Propose) st2 w2"
    "w_ctx w2 = c'" "ready st2 run svc (cycles st + 1)"
    by (rule failing_cycle [OF rt 1(3) _ ex1 sv ill, where rv = rv]) (simp_all add: started)
  have ex2': "\<exists>out. ?m ps (w_ctx w2) = (Inr out, c') \<and> oc_compensation out = noop_compensation ?why" for ps
    using ex2 2(2) by simp
  obtain st3 w3 where 3: "\<And>k. drive rt rv (k + 8) None Propose st2 w2 =
      drive rt rv k None (if cycles st + 1 + 1 \<ge> MAX_REPLAN_CYCLES then Escalate else Propose) st3 w3"
    "w_ctx w3 = c'" "ready st3 run svc (cycles st + 1 + 1)"
    by (rule failing_cycle [OF rt 2(3) _ ex2' sv ill, where rv = rv]) (simp_all add: started)
  have ex3': "\<exists>out. ?m ps (w_ctx w3) = (Inr out, c') \<and> oc_compensation out = noop_compensation ?why" for ps
    using ex2 3(2) by simp
  obtain st4 w4 where 4: "\<And>k. drive rt rv (k + 8) None Propose st3 w3 =
      drive rt rv k None (if cycles st + 1 + 1 + 1 \<ge> MAX_REPLAN_CYCLES then Escalate else Propose) st4 w4"
    "w_ctx w4 = c'" "ready st4 run svc (cycles st + 1 + 1 + 1)"
    by (rule failing_cycle [OF rt 3(3) _ ex3' sv ill, where rv = rv]) (simp_all add: started)
  have "drive rt rv (k + 25) None Diagnose st w = drive rt rv k None Escalate st4 w4" for k
    using drive_goes [OF 1(1), of "k + 24"] 2(1) [of "k + 16"] 3(1) [of "k + 8"] 4(1) [of k]
    by (simp add: started MAX_REPLAN_CYCLES_def add.commute [of k] eval_nat_numeral)
  then show ?thesis using 4(3) by (intro that [of st4 w4]) (simp_all add: 4 out posed_def)
qed

end
