(* ===== verification/Demo.thy ===== *)
theory Demo
  imports Lifecycle
begin

text \<open>
  A concrete sandbox and concrete runs, on which the properties are instantiated: the three
  services of \<^verbatim>\<open>src/env/registry.py\<close> with a memory leak on \<^verbatim>\<open>service_a\<close> and a full disk on
  \<^verbatim>\<open>service_c\<close>, the rows of \<^verbatim>\<open>src/env/db/init.sql\<close>, and scripted reasoners.
\<close>

definition demo_a :: service_state where
  "demo_a = (new_service ''service_a'' False 1)\<lparr>memory_pct := 95, active_faults := [''memory_leak'']\<rparr>"

definition demo_c :: service_state where
  "demo_c = (new_service ''service_c'' True 1)\<lparr>disk_pct := 95, active_faults := [''disk_full'']\<rparr>"

definition demo_rows :: "db_row list" where
  "demo_rows =
     [\<lparr>r_id = 1, r_kind = ''order'', r_payload = ''order-1001: shipped''\<rparr>,
      \<lparr>r_id = 2, r_kind = ''order'', r_payload = ''order-1002: pending''\<rparr>,
      \<lparr>r_id = 4, r_kind = ''session'', r_payload = ''session-a1: active''\<rparr>,
      \<lparr>r_id = 5, r_kind = ''session'', r_payload = ''session-a2: expired''\<rparr>]"

definition demo_ctx :: tool_ctx where
  "demo_ctx =
     \<lparr>clients = [(''service_a'', demo_a), (''service_b'', new_service ''service_b'' False 1),
                 (''service_c'', demo_c)],
      store = [], records = new_records demo_rows\<rparr>"

definition demo_world :: world where
  "demo_world = \<lparr>w_ctx = demo_ctx, w_audit = [], w_tick = 0\<rparr>"

definition demo_state :: agent_state where
  "demo_state = empty_state\<lparr>st_run_id := Some ''run-1''\<rparr>"

text \<open>Reasoners that always answer the same.\<close>

definition scripted :: "string \<Rightarrow> string \<Rightarrow> risk_tier \<Rightarrow> runtime" where
  "scripted tool target tier =
     \<lparr>rt_clock = (\<lambda>_. ''2026-01-01T00:00:00+00:00''), rt_log_clock = (\<lambda>_ _. ''t''),
      rt_diagnose = (\<lambda>_ _. Inr ''summary''),
      rt_propose = (\<lambda>_ _ _ _. Inr \<lparr>pr_tool = tool, pr_target = target, pr_parameters = None,
                                    pr_rationale = ''why''\<rparr>),
      rt_classify = (\<lambda>_ _ _ _ _. Inr \<lparr>cl_tier = tier, cl_rationale = ''because''\<rparr>),
      rt_float = (\<lambda>_. ''0.5''), rt_digest = (\<lambda>_. ''5f''), rt_coerce = (\<lambda>_. None)\<rparr>"

definition yes_decision :: human_decision where
  "yes_decision = \<lparr>hd_decision = Approved, hd_edited_action = None, hd_approver_id = Some ''ops''\<rparr>"

section \<open>Playing a run\<close>

text \<open>One step of the graph per decision of the list, as long as steps are possible.\<close>

fun play :: "runtime \<Rightarrow> bool \<Rightarrow> human_decision option list \<Rightarrow> checkpoint \<times> world \<Rightarrow> checkpoint \<times> world" where
  "play rt rv [] x = x"
| "play rt rv (d # ds) (cp, w) =
     (case cp_next cp of
        None \<Rightarrow> (cp, w)
      | Some n \<Rightarrow>
          (case exec_step rt rv d n (cp_state cp) w of
             (Next nx st', w') \<Rightarrow> play rt rv ds (\<lparr>cp_state = st', cp_next = nx\<rparr>, w')
           | _ \<Rightarrow> (cp, w)))"

lemma play_reach:
  "run_reach rt rv crashes run init w0 x \<Longrightarrow> run_reach rt rv crashes run init w0 (play rt rv ds x)"
proof (induction ds arbitrary: x)
  case (Cons d ds)
  obtain cp w where x: "x = (cp, w)" by (cases x)
  show ?case
  proof (cases "cp_next cp")
    case None
    with x Cons.prems show ?thesis by simp
  next
    case (Some n)
    then have cp: "cp = \<lparr>cp_state = cp_state cp, cp_next = Some n\<rparr>" by (cases cp) simp
    obtain r w1 where r: "exec_step rt rv d n (cp_state cp) w = (r, w1)"
      by (cases "exec_step rt rv d n (cp_state cp) w")
    show ?thesis
    proof (cases r)
      case (Next nx st')
      with r have "graph_step rt rv d (\<lparr>cp_state = cp_state cp, cp_next = Some n\<rparr>, w)
          (\<lparr>cp_state = st', cp_next = nx\<rparr>, w1)"
        by (auto intro: graph_step.node)
      with Cons.prems x cp have "run_reach rt rv crashes run init w0 (\<lparr>cp_state = st', cp_next = nx\<rparr>, w1)"
        using run_reach.step by metis
      with Cons.IH Some r Next x show ?thesis by simp
    qed (use x r Some Cons.prems in simp_all)
  qed
qed simp

definition demo_start :: "checkpoint \<times> world" where
  "demo_start = (\<lparr>cp_state = demo_state, cp_next = Some Diagnose\<rparr>, demo_world)"

lemma demo_start_reach: "run_reach rt rv crashes ''run-1'' demo_state demo_world demo_start"
  unfolding demo_start_def by (rule run_reach.start)

lemma demo_sandbox [simp]: "sandbox (w_ctx demo_world)"
  by code_simp

lemma demo_started [simp]: "started demo_state"
  by code_simp

lemma demo_run_id [simp]: "st_run_id demo_state = Some ''run-1''"
  by (simp add: demo_state_def)

lemma demo_log [simp]: "run_log run demo_world = []"
  by (simp add: run_log_def demo_world_def mem_audit_get_run_def)

text \<open>What the evaluations look at: the pending node, the action and the decision.\<close>

definition summary :: "checkpoint \<times> world \<Rightarrow> node option \<times> string option \<times> approval_decision option" where
  "summary x = (cp_next (fst x), st_proposed_action (cp_state (fst x)), st_approval_decision (cp_state (fst x)))"

text \<open>A restart of \<^verbatim>\<open>service_a\<close> that is low risk, about to be executed.\<close>

definition restart_run :: runtime where
  "restart_run = scripted ''restart_service'' ''service_a'' LOW"

lemma demo_restarts: "svc \<in> set KNOWN_SERVICES \<Longrightarrow> restarts (scripted ''restart_service'' svc LOW) svc"
  by (simp add: scripted_restart_def scripted_def)

lemma restart_run_restarts: "restarts restart_run ''service_a''"
  by (simp add: restart_run_def demo_restarts KNOWN_SERVICES_def SERVICE_ROLES_def)

definition at_restart :: "checkpoint \<times> world" where
  "at_restart = play restart_run True [None, None, None, None] demo_start"

lemma at_restart_reach: "run_reach restart_run True crashes ''run-1'' demo_state demo_world at_restart"
  unfolding at_restart_def by (rule play_reach [OF demo_start_reach])

lemma at_restart_summary: "summary at_restart = (Some Execute, Some ''restart_service:service_a'', None)"
  by code_simp

text \<open>
  A deletion of the sessions that the classifier calls low risk: it waits for the approver and,
  once approved, is revalidated, or executed at once in the graph without revalidation.
\<close>

definition delete_run :: runtime where
  "delete_run = scripted ''delete_records'' ''session'' LOW"

definition at_revalidate :: "checkpoint \<times> world" where
  "at_revalidate = play delete_run True [None, None, None, None, Some yes_decision] demo_start"

definition at_delete :: "checkpoint \<times> world" where
  "at_delete = play delete_run False [None, None, None, None, Some yes_decision, None] demo_start"

lemma at_revalidate_reach: "run_reach delete_run True crashes ''run-1'' demo_state demo_world at_revalidate"
  unfolding at_revalidate_def by (rule play_reach [OF demo_start_reach])

lemma at_delete_reach: "run_reach delete_run False crashes ''run-1'' demo_state demo_world at_delete"
  unfolding at_delete_def by (rule play_reach [OF demo_start_reach])

lemma at_revalidate_summary:
  "summary at_revalidate = (Some Revalidate, Some ''delete_records:session'', Some Approved)"
  by code_simp

lemma at_delete_summary: "summary at_delete = (Some Execute, Some ''delete_records:session'', Some Approved)"
  by code_simp

lemmas at_nexts =
  at_restart_summary [unfolded summary_def] at_revalidate_summary [unfolded summary_def]
  at_delete_summary [unfolded summary_def]

lemma scripted_clock: "mono (rt_clock (scripted tool target tier))"
  by (simp add: scripted_def mono_def)

lemma scripted_total: "total_reasoners (scripted tool target tier)"
  by (simp add: scripted_def total_reasoners_def)

lemma demo_runs [simp]:
  "total_reasoners delete_run" "total_reasoners restart_run"
  "mono (rt_clock delete_run)" "mono (rt_clock restart_run)"
  by (simp_all add: delete_run_def restart_run_def scripted_total scripted_clock)

lemma fit_None [simp]: "fit_decision None"
  by (simp add: fit_decision_def)

text \<open>
  The restart after a crash: the tool has run and recorded its row, the checkpoint still says
  that the execution is pending.
\<close>

definition after_crash :: world where
  "after_crash = snd (exec_step restart_run True None Execute (cp_state (fst at_restart)) (snd at_restart))"

lemma at_restart_ledger: "ctx_get (w_ctx (snd at_restart)) ''run-1:restart_service:service_a'' = None"
  by code_simp

lemma at_restart_inv:
  "sandbox (w_ctx (snd at_restart)) \<and> node_inv True Execute (cp_state (fst at_restart)) \<and>
   st_run_id (cp_state (fst at_restart)) = Some ''run-1''"
proof -
  have reach: "run_reach restart_run True False ''run-1'' demo_state demo_world (fst at_restart, snd at_restart)"
    using at_restart_reach by simp
  have "log_inv restart_run ''run-1'' (fst at_restart) (snd at_restart)"
    using reach_log_inv [OF reach] by simp
  with reach_inv [OF reach] reach_node [OF reach] at_nexts show ?thesis
    by (simp add: log_inv_def Let_def)
qed

lemma after_crash_reach:
  "run_reach restart_run True True ''run-1'' demo_state demo_world
     (\<lparr>cp_state = cp_state (fst at_restart), cp_next = Some Execute\<rparr>, after_crash)"
proof (rule run_reach.crash)
  have "fst at_restart = \<lparr>cp_state = cp_state (fst at_restart), cp_next = Some Execute\<rparr>"
    using at_nexts by (cases "fst at_restart") simp
  then show "run_reach restart_run True True ''run-1'' demo_state demo_world
      (\<lparr>cp_state = cp_state (fst at_restart), cp_next = Some Execute\<rparr>, snd at_restart)"
    using at_restart_reach [of True] by (metis prod.collapse)
qed (simp_all add: after_crash_def prod_eq_iff)

lemma after_crash_ledger:
  "\<exists>row. ctx_get (w_ctx after_crash) ''run-1:restart_service:service_a'' = Some row"
proof -
  let ?st = "cp_state (fst at_restart)" and ?c = "w_ctx (snd at_restart)"
  let ?key = "''run-1:restart_service:service_a''"
  have a: "st_proposed_action ?st = Some (restart_action ''service_a'')" using at_nexts by (simp add: join_action_def)
  then have key: "st_idempotency_key ?st = Some ?key"
    using at_restart_inv by (auto simp: keyed_def join_action_def)
  obtain s where s: "map_of (clients ?c) ''service_a'' = Some s"
    using at_restart_inv sandbox_client [of ?c "''service_a''"] by (auto simp: KNOWN_SERVICES_def SERVICE_ROLES_def)
  obtain out c' where out: "execute_action (rt_coerce restart_run) (restart_action ''service_a'')
      (case st_action_parameters ?st of None \<Rightarrow> [] | Some ps \<Rightarrow> ps) ?key ?c = (Inr out, c')"
      "oc_compensation out = noop_compensation ''restart has no reversible side effect''"
      "clients c' = AList.update ''service_a'' (restart s) (clients ?c)"
      "ctx_get c' ?key \<noteq> None" "\<And>k. k \<noteq> ?key \<Longrightarrow> ctx_get c' k = ctx_get ?c k"
    by (rule execute_restart_fresh [OF s at_restart_ledger, where ci = "rt_coerce restart_run"
          and ps = "case st_action_parameters ?st of None \<Rightarrow> [] | Some ps \<Rightarrow> ps"]) blast
  have "snd (execute restart_run ?st ?c) = c'"
    using a key out(1) by (simp add: execute_node bindE_def)
  moreover have "w_ctx after_crash = snd (execute restart_run ?st ?c)"
    by (simp add: after_crash_def exec_step_def with_audit_def Let_def split: prod.split sum.split)
  ultimately show ?thesis using out(4) by simp
qed

end
