(* ===== verification/Fault_Injector.thy ===== *)
theory Fault_Injector
  imports Observations
begin

text \<open>
  \<^verbatim>\<open>src/env/fault_injector.py\<close> and \<^verbatim>\<open>src/env/db/reset.py\<close>: putting the sandbox into a named bad
  state and back to its baseline, over the same requests that the services answer.
\<close>

section \<open>The enumerations read from their values\<close>

definition fault_types :: "fault_type list" where
  "fault_types = [MEMORY_LEAK, HIGH_ERROR_RATE, CPU_SPIKE, SERVICE_DOWN, DISK_FULL]"

definition fault_rates :: "fault_rate list" where
  "fault_rates = [RATE_LOW, RATE_MEDIUM, RATE_HIGH]"

text \<open>\<^verbatim>\<open>FaultType(v)\<close> and \<^verbatim>\<open>FaultRate(v)\<close>: a \<^verbatim>\<open>ValueError\<close> for anything that is not a value.\<close>

definition fault_type_of :: "string \<Rightarrow> fault_type result" where
  "fault_type_of v =
     (case find (\<lambda>f. fault_type_value f = v) fault_types of
        None \<Rightarrow> Inl (ValueError (py_repr v @ '' is not a valid FaultType''))
      | Some f \<Rightarrow> Inr f)"

definition fault_rate_of :: "string \<Rightarrow> fault_rate result" where
  "fault_rate_of v =
     (case find (\<lambda>r. fault_rate_value r = v) fault_rates of
        None \<Rightarrow> Inl (ValueError (py_repr v @ '' is not a valid FaultRate''))
      | Some r \<Rightarrow> Inr r)"

lemma fault_type_roundtrip: "fault_type_of v = Inr f \<longleftrightarrow> v = fault_type_value f"
  by (cases f) (auto simp: fault_type_of_def fault_types_def split: if_splits)

lemma fault_rate_roundtrip: "fault_rate_of v = Inr r \<longleftrightarrow> v = fault_rate_value r"
  by (cases r) (auto simp: fault_rate_of_def fault_rates_def split: if_splits)

lemma fault_of_value [simp]:
  "fault_type_of (fault_type_value f) = Inr f" "fault_rate_of (fault_rate_value r) = Inr r"
  by (simp_all add: fault_type_roundtrip fault_rate_roundtrip)

section \<open>The injector\<close>

text \<open>
  The client is looked up first, then the two values are read while the request is built, and
  the answer's status is checked last.
\<close>

definition inject :: "string \<Rightarrow> string \<Rightarrow> string \<Rightarrow> (tool_ctx, pydict) io" where
  "inject service fault_type rate =
     (\<lambda>c. bindE (liftE (client c service)) (\<lambda>_.
          bindE (liftE (fault_type_of fault_type)) (\<lambda>f.
          bindE (liftE (fault_rate_of rate)) (\<lambda>r.
            http_post service (app_admin_fault f r)))) c)"

definition injector_get_health :: "tool_ctx \<Rightarrow> string \<Rightarrow> health_obs result" where
  "injector_get_health c service = http_get service app_health c"

definition injector_get_metrics :: "tool_ctx \<Rightarrow> string \<Rightarrow> metrics_obs result" where
  "injector_get_metrics c service = http_get service app_metrics c"

definition SEED_ROWS :: "(string \<times> string) list" where
  "SEED_ROWS =
     [(''order'', ''order-1001: shipped''), (''order'', ''order-1002: pending''),
      (''order'', ''order-1003: delivered''), (''session'', ''session-a1: active''),
      (''session'', ''session-a2: expired''), (''cache_entry'', ''cache-key-42: stale'')]"

text \<open>
  \<^verbatim>\<open>TRUNCATE TABLE records RESTART IDENTITY\<close> and the insertion of the seed rows, whose ids the
  serial column counts from 1.
\<close>

definition number_rows :: "int \<Rightarrow> (string \<times> string) list \<Rightarrow> db_row list" where
  "number_rows i seeds = map (\<lambda>(j, k, p). \<lparr>r_id = i + int j, r_kind = k, r_payload = p\<rparr>)
     (zip [0 ..< length seeds] seeds)"

definition reset_database :: "pg_records \<Rightarrow> pg_records" where
  "reset_database table = number_rows 1 SEED_ROWS"

fun reset_each :: "string list \<Rightarrow> (tool_ctx, unit) io" where
  "reset_each [] = returnE ()"
| "reset_each (service # services) =
     bindE (http_post service app_admin_reset) (\<lambda>_. reset_each services)"

text \<open>\<^verbatim>\<open>reset_all\<close>, with the table behind the DSN when the injector has one.\<close>

definition reset_all :: "pg_records option \<Rightarrow> tool_ctx \<Rightarrow> unit result \<times> pg_records option \<times> tool_ctx" where
  "reset_all db c =
     (case reset_each (map fst (clients c)) c of
        (Inl e, c') \<Rightarrow> (Inl e, db, c')
      | (Inr u, c') \<Rightarrow> (Inr u, map_option reset_database db, c'))"

section \<open>What an injection does\<close>

lemma inject_unknown_service [simp]:
  "map_of (clients c) n = None \<Longrightarrow> inject n f r c = (Inl (client_error c n), c)"
  by (simp add: inject_def bindE_def)

lemma inject_known:
  "map_of (clients c) n = Some s \<Longrightarrow>
     inject n (fault_type_value f) (fault_rate_value r) c = http_post n (app_admin_fault f r) c"
  by (simp add: inject_def bindE_def)

lemma apply_fault_Inr_iff: "(\<exists>s'. apply_fault f r s = Inr s') \<longleftrightarrow> (f = DISK_FULL \<longrightarrow> svc_has_disk s)"
  by (cases f) auto

text \<open>What an injection needs, and that it has no effect when it raises.\<close>

lemma inject_iff:
  assumes s: "map_of (clients c) n = Some s"
  shows "(\<exists>res c'. inject n ft rt c = (Inr res, c')) \<longleftrightarrow>
    (\<exists>f r. ft = fault_type_value f \<and> rt = fault_rate_value r \<and> (f = DISK_FULL \<longrightarrow> svc_has_disk s))"
proof -
  have "(\<exists>res c'. inject n ft rt c = (Inr res, c')) \<longleftrightarrow>
      (\<exists>f r. fault_type_of ft = Inr f \<and> fault_rate_of rt = Inr r \<and> (\<exists>s'. apply_fault f r s = Inr s'))"
    using s by (auto simp: inject_def bindE_def app_admin_fault_def split: sum.split)
  then show ?thesis by (simp add: apply_fault_Inr_iff fault_type_roundtrip fault_rate_roundtrip)
qed

lemma inject_Inl: "inject n ft rt c = (Inl e, c') \<Longrightarrow> c' = c"
proof (cases "map_of (clients c) n")
  case (Some s)
  assume "inject n ft rt c = (Inl e, c')"
  with Some show ?thesis
    by (auto simp: inject_def bindE_def app_admin_fault_def set_client_same split: sum.splits)
qed simp

lemma inject_sandbox [wf_intros]: "sandbox c \<Longrightarrow> sandbox (snd (inject n ft rt c))"
  by (auto simp: inject_def bindE_def sandbox_http_post split: sum.split)

section \<open>What a reset does\<close>

lemma app_admin_reset_answer: "\<exists>r. app_admin_reset s = (Inr r, reset s)"
  by (simp add: app_admin_reset_def Let_def)

lemma http_post_reset:
  assumes "map_of (clients c) n = Some s"
  shows "\<exists>r. http_post n app_admin_reset c = (Inr r, set_client n (reset s) c)"
  using assms app_admin_reset_answer [of s] by auto

lemma reset_each_known:
  assumes "set ns \<subseteq> set (map fst (clients c))"
  shows "\<exists>c'. reset_each ns c = (Inr (), c') \<and> store c' = store c \<and> records c' = records c \<and>
    map fst (clients c') = map fst (clients c) \<and>
    (\<forall>n. map_of (clients c') n = (if n \<in> set ns then map_option reset (map_of (clients c) n)
                                   else map_of (clients c) n))"
  using assms
proof (induction ns arbitrary: c)
  case (Cons n ns)
  then obtain s where s: "map_of (clients c) n = Some s"
    by (cases "map_of (clients c) n") (auto simp: map_of_eq_None_iff)
  let ?c = "set_client n (reset s) c"
  have keys: "map fst (clients ?c) = map fst (clients c)"
    using s by (simp add: set_client_def update_fst_same)
  with Cons.prems have "set ns \<subseteq> set (map fst (clients ?c))" by auto
  from Cons.IH [OF this] obtain c' where c': "reset_each ns ?c = (Inr (), c')"
    "store c' = store ?c" "records c' = records ?c" "map fst (clients c') = map fst (clients ?c)"
    "\<And>m. map_of (clients c') m = (if m \<in> set ns then map_option reset (map_of (clients ?c) m)
        else map_of (clients ?c) m)" by blast
  obtain r where "http_post n app_admin_reset c = (Inr r, ?c)" using http_post_reset [OF s] by blast
  with c'(1) have "reset_each (n # ns) c = (Inr (), c')" by simp
  moreover have "reset (reset s) = reset s" by (simp add: reset_def)
  ultimately show ?case using c'(2-5) keys s by auto
qed simp

text \<open>A service after a reset is the service that was created, with one replica.\<close>

lemma reset_is_new: "reset s = new_service (svc_name s) (svc_has_disk s) BASELINE_REPLICAS"
  by (simp add: reset_def new_service_def)

lemma reset_healthy: "status (reset s) = ''healthy''"
  by (simp add: status_healthy_iff worst_pct_def reset_def baseline_defs threshold_defs)

lemma reset_all_baseline:
  obtains c' where "reset_all db c = (Inr (), map_option reset_database db, c')"
    "\<And>n. map_of (clients c') n =
       map_option (\<lambda>s. new_service (svc_name s) (svc_has_disk s) BASELINE_REPLICAS) (map_of (clients c) n)"
    "store c' = store c" "records c' = records c"
proof -
  obtain c' where c': "reset_each (map fst (clients c)) c = (Inr (), c')" "store c' = store c"
    "records c' = records c"
    "\<And>n. map_of (clients c') n = (if n \<in> set (map fst (clients c)) then map_option reset (map_of (clients c) n)
       else map_of (clients c) n)"
    using reset_each_known [of "map fst (clients c)" c] by blast
  have "map_of (clients c') n = map_option (\<lambda>s. new_service (svc_name s) (svc_has_disk s) BASELINE_REPLICAS)
      (map_of (clients c) n)" for n
  proof (cases "map_of (clients c) n")
    case None
    then show ?thesis by (simp add: c'(4))
  next
    case (Some s)
    then have "n \<in> set (map fst (clients c))" by (metis map_of_eq_None_iff option.distinct(1) set_map)
    with Some show ?thesis by (simp only: c'(4) if_True option.map reset_is_new)
  qed
  with c' that show ?thesis by (simp add: reset_all_def)
qed

lemma reset_each_sandbox: "sandbox c \<Longrightarrow> sandbox (snd (reset_each ns c))"
proof (induction ns arbitrary: c)
  case (Cons n ns)
  then have "sandbox (snd (http_post n app_admin_reset c))" by (simp add: sandbox_http_post)
  with Cons.IH show ?case
    by (cases "http_post n app_admin_reset c") (auto simp: bindE_def split: sum.split)
qed simp

lemma reset_all_sandbox: "sandbox c \<Longrightarrow> sandbox (snd (snd (reset_all db c)))"
  using reset_each_sandbox [of c "map fst (clients c)"]
  by (auto simp: reset_all_def split: prod.split sum.split)

end
