(* ===== verification/Sandbox_Properties.thy ===== *)
theory Sandbox_Properties
  imports Demo Fault_Injector
begin

text \<open>
  What the tools, their compensations and the fault injector do to the sandbox: which actions can
  be taken back, which cannot, and that nothing they do leaves the states that the services can be
  in.
\<close>

section \<open>Taking actions back\<close>

lemma demo_clients [simp]:
  "map_of (clients demo_ctx) ''service_a'' = Some demo_a"
  "map_of (clients demo_ctx) ''service_c'' = Some demo_c"
  by (simp_all add: demo_ctx_def)

lemma demo_ledger [simp]: "ctx_get demo_ctx key = None"
  by (simp add: demo_ctx_def ctx_get_def mem_get_def)

lemma demo_ctx_sandbox [simp]: "sandbox demo_ctx"
  using demo_sandbox by (simp add: demo_world_def)

lemma update_twice: "AList.update k v (AList.update k v' d) = AList.update k v d"
  by (induction d) auto

lemma update_same: "map_of d k = Some v \<Longrightarrow> AList.update k v d = d"
  by (induction d) auto

text \<open>An evaluated call that did not raise.\<close>

lemma ran: "\<not> isl (fst r) \<Longrightarrow> \<exists>x. r = (Inr x, snd r)"
  by (cases r; cases "fst r") auto

text \<open>
  C18: A scaling is taken back by the compensation that it returns: every service and every row is
  again what it was before, whatever count the scaling had asked for.
\<close>

theorem scaling_is_undone:
  assumes "map_of (clients c) svc = Some s" and "ctx_get c key = None"
    and "execute_action ci (join_action ''scale_service'' svc) ps key c = (Inr out, c1)"
  shows "\<exists>r c2 n. apply_compensation ci (oc_compensation out) c1 = (Inr r, c2) \<and>
    param_replicas ci ps = Inr n \<and> map_of (clients c1) svc = Some (s\<lparr>replicas := n\<rparr>) \<and>
    clients c2 = clients c \<and> records c2 = records c"
  using undo_scale_outcome [OF assms] by metis

lemma demo_scaling: "\<not> isl (fst (execute_action (\<lambda>_. None) (join_action ''scale_service'' ''service_a'')
     [(''replicas'', PInt 3)] ''k'' demo_ctx))"
  by code_simp

theorem scaling_is_undone_witness:
  "\<exists>out c1 r c2. execute_action (\<lambda>_. None) (join_action ''scale_service'' ''service_a'')
        [(''replicas'', PInt 3)] ''k'' demo_ctx = (Inr out, c1) \<and>
     apply_compensation (\<lambda>_. None) (oc_compensation out) c1 = (Inr r, c2) \<and> clients c2 = clients demo_ctx"
proof -
  from ran [OF demo_scaling] obtain out where ex:
    "execute_action (\<lambda>_. None) (join_action ''scale_service'' ''service_a'') [(''replicas'', PInt 3)] ''k'' demo_ctx =
       (Inr out, snd (execute_action (\<lambda>_. None) (join_action ''scale_service'' ''service_a'')
          [(''replicas'', PInt 3)] ''k'' demo_ctx))" ..
  from scaling_is_undone [OF demo_clients(1) demo_ledger ex] ex show ?thesis by blast
qed

text \<open>
  C19: A change of a configuration value is taken back exactly when the key had a value before: then
  the services are as they were. A key that was not set stays set: the compensation holds no value
  for it, its request is refused with 422, and the new value remains.
\<close>

theorem config_change_undone_iff_set:
  assumes "map_of (clients c) svc = Some s" and "ctx_get c key = None"
    and "map_of ps ''key'' = Some (PStr k)" and "map_of ps ''value'' = Some (PStr v)"
    and "execute_action ci (join_action ''apply_config_change'' svc) ps key c = (Inr out, c1)"
  shows "case map_of (config s) k of
      Some _ \<Rightarrow> \<exists>r c2. apply_compensation ci (oc_compensation out) c1 = (Inr r, c2) \<and>
        clients c2 = clients c \<and> records c2 = records c
    | None \<Rightarrow> apply_compensation ci (oc_compensation out) c1 = (Inl (HTTPStatusError 422), c1) \<and>
        (\<exists>s1. map_of (clients c1) svc = Some s1 \<and> map_of (config s1) k = Some v)"
proof -
  note o = undo_config_outcome [OF assms]
  let ?s1 = "s\<lparr>config := AList.update k v (config s)\<rparr>"
  have s1: "map_of (clients c1) svc = Some ?s1" unfolding o(2) by (simp add: update_conv')
  show ?thesis
  proof (cases "map_of (config s) k")
    case None
    then show ?thesis using o(1) undo_config_none [OF s1, of ci k] s1 by (simp add: update_conv')
  next
    case (Some p)
    have "?s1\<lparr>config := AList.update k p (config ?s1)\<rparr> = s" using Some by (simp add: update_twice update_same)
    with Some show ?thesis
      using o undo_config [OF s1, of ci k p] update_twice [of svc s _ "clients c"] update_same [OF assms(1)] by auto
  qed
qed

definition config_edit :: "(string \<times> pyval) list" where
  "config_edit = [(''key'', PStr ''pool_size''), (''value'', PStr ''50'')]"

lemma demo_config: "\<not> isl (fst (execute_action (\<lambda>_. None) (join_action ''apply_config_change'' ''service_a'')
     config_edit ''k'' demo_ctx))"
  by code_simp

theorem config_change_undone_iff_set_witness:
  "\<exists>out c1. execute_action (\<lambda>_. None) (join_action ''apply_config_change'' ''service_a'')
        config_edit ''k'' demo_ctx = (Inr out, c1) \<and>
     apply_compensation (\<lambda>_. None) (oc_compensation out) c1 = (Inl (HTTPStatusError 422), c1)"
proof -
  let ?ex = "execute_action (\<lambda>_. None) (join_action ''apply_config_change'' ''service_a'') config_edit ''k'' demo_ctx"
  from ran [OF demo_config] obtain out where ex: "?ex = (Inr out, snd ?ex)" ..
  have unset: "map_of (config demo_a) ''pool_size'' = None" by code_simp
  have ps: "map_of config_edit ''key'' = Some (PStr ''pool_size'')"
    "map_of config_edit ''value'' = Some (PStr ''50'')"
    by (simp_all add: config_edit_def)
  show ?thesis
    using config_change_undone_iff_set [OF demo_clients(1) demo_ledger ps ex] ex unset by auto
qed

text \<open>
  C20: A rollback of a deployment is taken back by deploying the version again: the version history
  is what it was, the other services and the rows are unchanged, and the service is in the state of a
  process that has just been started on it.
\<close>

theorem rollback_is_undone:
  assumes "map_of (clients c) svc = Some s" and "wf_service s" and "ctx_get c key = None"
    and "execute_action ci (join_action ''rollback_deployment'' svc) ps key c = (Inr out, c1)"
  shows "\<exists>r c2 s1 s2. apply_compensation ci (oc_compensation out) c1 = (Inr r, c2) \<and>
    map_of (clients c1) svc = Some s1 \<and> version_history s1 = butlast (version_history s) \<and>
    map_of (clients c2) svc = Some s2 \<and> version_history s2 = version_history s \<and>
    s2 = clear_transient s \<and> records c2 = records c \<and>
    (\<forall>n. n \<noteq> svc \<longrightarrow> map_of (clients c2) n = map_of (clients c) n)"
proof -
  obtain r c2 where "apply_compensation ci (oc_compensation out) c1 = (Inr r, c2)"
    "map_of (clients c1) svc = Some (clear_transient (s\<lparr>version_history := butlast (version_history s)\<rparr>))"
    "map_of (clients c2) svc = Some (clear_transient s)"
    "\<And>n. n \<noteq> svc \<Longrightarrow> map_of (clients c2) n = map_of (clients c) n" "records c2 = records c"
    by (rule undo_rollback_outcome [OF assms]) blast
  then show ?thesis by (simp add: clear_transient_def)
qed

text \<open>Service a after a deployment.\<close>

definition deployed_ctx :: tool_ctx where
  "deployed_ctx = set_client ''service_a'' (demo_a\<lparr>version_history := [''v1'', ''v2'']\<rparr>) demo_ctx"

lemma demo_rollback: "\<not> isl (fst (execute_action (\<lambda>_. None) (join_action ''rollback_deployment'' ''service_a'')
     [] ''k'' deployed_ctx))"
  by code_simp

theorem rollback_is_undone_witness:
  "\<exists>out c1 r c2. execute_action (\<lambda>_. None) (join_action ''rollback_deployment'' ''service_a'')
        [] ''k'' deployed_ctx = (Inr out, c1) \<and>
     apply_compensation (\<lambda>_. None) (oc_compensation out) c1 = (Inr r, c2) \<and>
     map_option version_history (map_of (clients c1) ''service_a'') = Some [''v1''] \<and>
     map_option version_history (map_of (clients c2) ''service_a'') = Some [''v1'', ''v2'']"
proof -
  let ?ex = "execute_action (\<lambda>_. None) (join_action ''rollback_deployment'' ''service_a'') [] ''k'' deployed_ctx"
  let ?s = "demo_a\<lparr>version_history := [''v1'', ''v2'']\<rparr>"
  from ran [OF demo_rollback] obtain out where ex: "?ex = (Inr out, snd ?ex)" ..
  have s: "map_of (clients deployed_ctx) ''service_a'' = Some ?s" by (simp add: deployed_ctx_def update_conv')
  have wf: "wf_service ?s" by code_simp
  have new: "ctx_get deployed_ctx ''k'' = None" by code_simp
  from rollback_is_undone [OF s wf new ex] obtain r c2 s1 s2 where o:
    "apply_compensation (\<lambda>_. None) (oc_compensation out) (snd ?ex) = (Inr r, c2)"
    "map_of (clients (snd ?ex)) ''service_a'' = Some s1" "version_history s1 = butlast (version_history ?s)"
    "map_of (clients c2) ''service_a'' = Some s2" "version_history s2 = version_history ?s"
    by (elim exE conjE)
  show ?thesis
    by (rule exI [of _ out], rule exI [of _ "snd ?ex"], rule exI [of _ r], rule exI [of _ c2],
        intro conjI, rule ex) (simp_all add: o(1,2,4), simp_all add: o(3,5))
qed

text \<open>
  C21: Deleted records come back: after a deletion the rows that it chose are gone, and its
  compensation restores the content of the table, row for row, and touches no service.
\<close>

theorem deletion_is_undone:
  assumes "wf_ctx c" and "ctx_get c key = None"
    and "execute_action ci (join_action ''delete_records'' kind) ps key c = (Inr out, c1)"
  shows "\<exists>ids r c2. param_ids ci ps = Inr ids \<and>
    ctx_content c1 = (\<lambda>i. if i \<in> r_id ` set (case ids of
        Some is \<Rightarrow> ctx_get_by_ids c is | None \<Rightarrow> ctx_get_by_kind c (Some kind) 1000000)
      then None else ctx_content c i) \<and>
    apply_compensation ci (oc_compensation out) c1 = (Inr r, c2) \<and>
    ctx_content c2 = ctx_content c \<and> clients c2 = clients c"
proof -
  obtain ids rs r c2 where o: "param_ids ci ps = Inr ids"
    "rs = (case ids of Some is \<Rightarrow> ctx_get_by_ids c is | None \<Rightarrow> ctx_get_by_kind c (Some kind) 1000000)"
    "ctx_content c1 = (\<lambda>i. if i \<in> r_id ` set rs then None else ctx_content c i)"
    "apply_compensation ci (oc_compensation out) c1 = (Inr r, c2)"
    "ctx_content c2 = ctx_content c" "clients c2 = clients c"
    by (rule undo_delete_outcome [OF assms]) blast
  show ?thesis by (rule exI [of _ ids], rule exI [of _ r], rule exI [of _ c2]) (use o in simp)
qed

definition two_rows :: "(string \<times> pyval) list" where
  "two_rows = [(''ids'', PList [PInt 4, PInt 5])]"

lemma demo_deletion: "\<not> isl (fst (execute_action (\<lambda>_. None) (join_action ''delete_records'' ''session'')
     two_rows ''k'' demo_ctx))"
  by code_simp

theorem deletion_is_undone_witness:
  "\<exists>out c1 r c2. execute_action (\<lambda>_. None) (join_action ''delete_records'' ''session'') two_rows ''k'' demo_ctx = (Inr out, c1) \<and>
     apply_compensation (\<lambda>_. None) (oc_compensation out) c1 = (Inr r, c2) \<and>
     ctx_content c2 = ctx_content demo_ctx"
proof -
  let ?ex = "execute_action (\<lambda>_. None) (join_action ''delete_records'' ''session'') two_rows ''k'' demo_ctx"
  from ran [OF demo_deletion] obtain out where ex: "?ex = (Inr out, snd ?ex)" ..
  have wf: "wf_ctx demo_ctx" using demo_ctx_sandbox by (simp add: sandbox_def)
  from deletion_is_undone [OF wf demo_ledger ex] ex show ?thesis by blast
qed

section \<open>The sandbox stays well formed\<close>

text \<open>
  C17: Whatever action is executed, whatever compensation is applied, whichever fault is injected
  and whether or not the environment is reset, every service keeps its name and its disk surface,
  its version history stays non-empty and without immediate repetitions, and the table keeps
  distinct, numbered rows: the sandbox invariant that all other properties start from.
\<close>

theorem sandbox_is_kept:
  assumes "sandbox c"
  shows "sandbox (snd (execute_action ci a ps key c)) \<and> sandbox (snd (apply_compensation ci undo c)) \<and>
    sandbox (snd (inject n ft rt c)) \<and> sandbox (snd (snd (reset_all db c)))"
proof (intro conjI)
  show "sandbox (snd (execute_action ci a ps key c))"
    by (rule execute_action_sandbox [OF assms prod.collapse [symmetric]])
qed (rule apply_compensation_sandbox [OF assms] inject_sandbox [OF assms] reset_all_sandbox [OF assms])+

theorem sandbox_is_kept_witness:
  "sandbox (snd (execute_action (\<lambda>_. None) ''restart_service:service_a'' [] ''k'' demo_ctx)) \<and>
   sandbox (snd (apply_compensation (\<lambda>_. None) (noop_compensation ''why'') demo_ctx)) \<and>
   sandbox (snd (inject ''service_c'' ''disk_full'' ''high'' demo_ctx)) \<and>
   sandbox (snd (snd (reset_all None demo_ctx)))"
  by (rule sandbox_is_kept [OF demo_ctx_sandbox])

text \<open>
  C26: An injection takes effect exactly for a known service, a named type and rate, and a full disk
  only where there is a disk: then the service carries that fault and nothing else has changed. In
  every other case it raises and the environment is as before.
\<close>

theorem injection_is_exact:
  assumes "inject n ft rt c = (res, c')"
  shows "case res of
      Inr _ \<Rightarrow> \<exists>s s' f r. map_of (clients c) n = Some s \<and> ft = fault_type_value f \<and> rt = fault_rate_value r \<and>
        apply_fault f r s = Inr s' \<and> c' = set_client n s' c
    | Inl _ \<Rightarrow> c' = c \<and> \<not> (\<exists>s f r. map_of (clients c) n = Some s \<and> ft = fault_type_value f \<and>
        rt = fault_rate_value r \<and> (svc_has_disk s \<or> f \<noteq> DISK_FULL))"
proof (cases res)
  case (Inl e)
  with assms have inj: "inject n ft rt c = (Inl e, c')" by simp
  have False if "map_of (clients c) n = Some s" "ft = fault_type_value f" "rt = fault_rate_value r"
      "svc_has_disk s \<or> f \<noteq> DISK_FULL" for s f r
  proof -
    from that have "\<exists>res c'. inject n ft rt c = (Inr res, c')" unfolding inject_iff [OF that(1)] by blast
    with inj show False by simp
  qed
  then show ?thesis using Inl inject_Inl [OF inj] by auto
next
  case (Inr d)
  then have inj: "inject n ft rt c = (Inr d, c')" using assms by simp
  then obtain s where s: "map_of (clients c) n = Some s"
    by (cases "map_of (clients c) n") simp_all
  from inj have "\<exists>res c'. inject n ft rt c = (Inr res, c')" by blast
  then obtain f r where v: "ft = fault_type_value f" "rt = fault_rate_value r"
      and disk: "f = DISK_FULL \<longrightarrow> svc_has_disk s"
    unfolding inject_iff [OF s] by blast
  from disk obtain s' where s': "apply_fault f r s = Inr s'" using apply_fault_Inr_iff by blast
  then have "c' = set_client n s' c"
    using inj s unfolding v inject_known [OF s] by (simp add: app_admin_fault_def)
  with Inr s v s' show ?thesis by auto
qed

theorem injection_is_exact_witness:
  "snd (inject ''service_a'' ''disk_full'' ''high'' demo_ctx) = demo_ctx \<and>
   (\<exists>s'. snd (inject ''service_c'' ''disk_full'' ''high'' demo_ctx) = set_client ''service_c'' s' demo_ctx)"
proof
  let ?a = "inject ''service_a'' ''disk_full'' ''high'' demo_ctx"
    and ?c = "inject ''service_c'' ''disk_full'' ''high'' demo_ctx"
  have "isl (fst ?a)" by code_simp
  then show "snd ?a = demo_ctx"
    using injection_is_exact [OF prod.collapse [symmetric, of ?a]] by (cases "fst ?a") simp_all
  have "\<not> isl (fst ?c)" by code_simp
  then show "\<exists>s'. snd ?c = set_client ''service_c'' s' demo_ctx"
    using injection_is_exact [OF prod.collapse [symmetric, of ?c]] by (cases "fst ?c") auto
qed

text \<open>
  C27: A reset from whatever state leaves every service as a freshly created one with one replica,
  healthy and without faults, and the table with its seed rows; the ledger of executed actions is
  not cleared.
\<close>

theorem reset_reaches_baseline:
  "case reset_all db c of (res, db', c') \<Rightarrow> res = Inr () \<and> db' = map_option reset_database db \<and>
     map_of (clients c') n =
       map_option (\<lambda>s. new_service (svc_name s) (svc_has_disk s) BASELINE_REPLICAS) (map_of (clients c) n) \<and>
     status (new_service m d BASELINE_REPLICAS) = ''healthy'' \<and> store c' = store c"
proof -
  obtain c' where "reset_all db c = (Inr (), map_option reset_database db, c')"
    "\<And>n. map_of (clients c') n =
       map_option (\<lambda>s. new_service (svc_name s) (svc_has_disk s) BASELINE_REPLICAS) (map_of (clients c) n)"
    "store c' = store c"
    by (rule reset_all_baseline) blast
  moreover have "status (new_service m d BASELINE_REPLICAS) = ''healthy''"
    using reset_healthy [of "new_service m d 1"] by (simp add: reset_is_new) (simp add: new_service_def)
  ultimately show ?thesis by simp
qed

text \<open>
  A restart brings a service to \<^verbatim>\<open>healthy\<close> exactly when it has no disk or its disk is below the
  threshold: it clears every other fault, and never a full disk.
\<close>

lemma restart_heals_iff:
  "status (restart s) = ''healthy'' \<longleftrightarrow> (if svc_has_disk s then disk_pct s < DEGRADED_THRESHOLD else True)"
  by (simp add: restart_status)

end
