(* ===== verification/Approved_Run.thy ===== *)
theory Approved_Run
  imports Lifecycle
begin

text \<open>
  Whole runs that need a human: a restart that the policy does not let through as low risk goes
  in five nodes to the suspension, and an approval of it, as long as the service stays as it
  was, goes through the revalidation to the end of the run.
\<close>

section \<open>To the suspension\<close>

text \<open>What the fingerprint of a proposed restart was computed from.\<close>

definition anchored :: "runtime \<Rightarrow> agent_state \<Rightarrow> string \<Rightarrow> service_state \<Rightarrow> bool" where
  "anchored rt st svc s \<longleftrightarrow> (\<exists>fp. st_state_fingerprint st = Some fp \<and>
     (\<forall>ob now. map_of (ob_services ob) svc = Some (service_view now s) \<longrightarrow>
        compute_fingerprint (rt_float rt) (rt_digest rt) ob (restart_action svc) = Inr fp))"

definition shows_service :: "service_state \<Rightarrow> service_obs \<Rightarrow> bool" where
  "shows_service s so \<longleftrightarrow> (\<exists>now. so = service_view now s)"

lemma split_restart: "split_action (restart_action svc) = Inr (''restart_service'', svc)"
  by (simp add: split_join)

lemma propose_anchors:
  assumes rt: "svc \<in> set KNOWN_SERVICES" and at: "posed (shows_service s) st run svc n"
    and go: "goes rt rv Propose st w Classify st' w'"
    and a: "st_proposed_action st' = Some (restart_action svc)"
  shows "anchored rt st' svc s"
proof -
  from at obtain ob now where ob: "st_observations st = Some ob" "full_sweep ob"
      "map_of (ob_services ob) svc = Some (service_view now s)"
    by (auto simp: posed_def shows_service_def inv_defs elim!: holdsE)
  from go obtain u c where fn: "propose_action rt (w_tick w) st (w_ctx w) = (Inr u, c)"
    and st': "st' = merge st u"
    unfolding goes_def by (rule exec_step_Next) simp
  have g: "grounded ''restart_service'' svc" using rt by (simp add: grounded_def KNOWN_TOOLS_def)
  with validate_full_sweep [OF ob(2) split_restart]
  have "validate_proposal ob (restart_action svc) = Inr None" by simp
  with propose_update [OF fn] ob(1) a st' obtain fp where
    fp: "compute_fingerprint (rt_float rt) (rt_digest rt) ob (restart_action svc) = Inr fp"
    "st_state_fingerprint st' = Some fp" by auto
  have "compute_fingerprint (rt_float rt) (rt_digest rt) ob' (restart_action svc) = Inr fp"
    if "map_of (ob_services ob') svc = Some (service_view now' s)" for ob' now'
    using view_fingerprint [OF split_restart _ that ob(3)] fp(1) by simp
  with fp(2) show ?thesis by (auto simp: anchored_def)
qed

lemma go_classify_gated:
  assumes rt: "scripted_restart rt svc tier" and at: "posed P st run svc n" and s: "sound st"
    and a: "st_proposed_action st = Some (restart_action svc)"
    and gated: "\<And>so. P so \<Longrightarrow> tier \<noteq> LOW \<or> \<not> no_floor so"
  obtains st' w' where "goes rt rv Classify st w Mark_awaiting st' w'" "w_ctx w' = w_ctx w"
    "posed P st' run svc n" "sound st'" "st_proposed_action st' = Some (restart_action svc)"
    "st_risk_tier_final st' = Some (if tier = LOW then MEDIUM else tier)"
    "st_state_fingerprint st' = st_state_fingerprint st"
proof -
  let ?t = "w_tick w" and ?final = "if tier = LOW then MEDIUM else tier"
  from at obtain ob diag so where ob: "st_observations st = Some ob" "st_diagnosis st = Some diag"
    and so: "map_of (ob_services ob) svc = Some so" "P so"
    by (auto simp: posed_def inv_defs elim!: holdsE)
  obtain sf where sf: "situational_features ob (restart_action svc) = Inr (Some sf)"
      "sf_has_redundant_replica sf \<longleftrightarrow> MIN_REDUNDANT_REPLICAS \<le> m_replicas (so_metrics so)"
      "sf_restart_count_this_run sf = m_restart_count (so_metrics so)"
    using so by (auto simp: situational_features_def Let_def split_restart)
  obtain k where k: "rt_classify rt ?t (restart_action svc) diag (st_action_rationale st) (Some sf) = Inr k"
      "cl_tier k = tier"
    using scripted_restartD(4) [OF rt] by metis
  have final: "apply_policy ''restart_service'' tier (Some sf) = ?final"
    using gated [OF so(2)] sf(2,3) by (auto simp: apply_policy_def FORCED_HIGH_TOOLS_def no_floor_def)
  let ?u = "[Status RISK_CLASSIFIED, Risk_tier_llm tier, Risk_tier_final ?final,
      Risk_rationale (cl_rationale k), Redundancy_floor_applied
        (tier = LOW \<and> ?final = MEDIUM \<and> \<not> sf_has_redundant_replica sf)]"
  have "node_fn rt None ?t Classify st (w_ctx w) = (Inr ?u, w_ctx w)"
    using ob a sf(1) k final by (simp add: classify_risk_def Let_def split_restart)
  from goesI [OF _ this, of rv Mark_awaiting] at obtain w' where
    "goes rt rv Classify st w Mark_awaiting (merge st ?u) w'" "w_ctx w' = w_ctx w"
    by (cases "tier = LOW") (auto simp: posed_def route_defs)
  moreover have "posed P (merge st ?u) run svc n" "sound (merge st ?u)"
    using at s by (auto simp: posed_def inv_defs cycles_def)
  moreover have "st_proposed_action (merge st ?u) = Some (restart_action svc)" using a by simp
  moreover have "st_risk_tier_final (merge st ?u) = Some ?final" by simp
  moreover have "st_state_fingerprint (merge st ?u) = st_state_fingerprint st" by simp
  ultimately show ?thesis by (rule that)
qed

lemma go_mark_awaiting:
  assumes at: "posed P st run svc n" and s: "sound st"
  obtains st' w' where "goes rt rv Mark_awaiting st w Await st' w'" "w_ctx w' = w_ctx w"
    "posed P st' run svc n" "sound st'" "st_proposed_action st' = st_proposed_action st"
    "st_risk_tier_final st' = st_risk_tier_final st" "st_state_fingerprint st' = st_state_fingerprint st"
    "st_status st' = Some AWAITING_APPROVAL"
proof -
  have "node_fn rt None (w_tick w) Mark_awaiting st (w_ctx w) = (Inr [Status AWAITING_APPROVAL], w_ctx w)"
    by (simp add: mark_awaiting_approval_def)
  from goesI [OF _ this, of rv Await] at obtain w' where
    "goes rt rv Mark_awaiting st w Await (merge st [Status AWAITING_APPROVAL]) w'" "w_ctx w' = w_ctx w"
    by (auto simp: posed_def)
  moreover have "posed P (merge st [Status AWAITING_APPROVAL]) run svc n"
      "sound (merge st [Status AWAITING_APPROVAL])"
    using at s by (auto simp: posed_def inv_defs cycles_def)
  ultimately show ?thesis by (rule that) simp_all
qed

text \<open>From the diagnosis to the suspension: five nodes, which change nothing.\<close>

definition suspended_at :: "agent_state \<Rightarrow> string \<Rightarrow> string \<Rightarrow> service_state \<Rightarrow> bool" where
  "suspended_at st run svc s \<longleftrightarrow> (\<exists>n. posed (shows_service s) st run svc n) \<and> sound st \<and>
     st_proposed_action st = Some (restart_action svc) \<and> st_status st = Some AWAITING_APPROVAL"

lemma gated_run:
  assumes sb: "sandbox (w_ctx w)" and rt: "scripted_restart rt svc tier"
    and st: "started st" "st_run_id st = Some run"
    and s: "map_of (clients (w_ctx w)) svc = Some s"
    and gated: "tier \<noteq> LOW \<or> (replicas s < MIN_REDUNDANT_REPLICAS \<and> 1 \<le> restart_count s)"
  obtains p st' w' where "\<And>k. drive rt rv (k + 5) None Diagnose st w =
      (Interrupted p, \<lparr>cp_state = st', cp_next = Some Await\<rparr>, w')"
    "w_ctx w' = w_ctx w" "suspended_at st' run svc s" "anchored rt st' svc s"
    "st_risk_tier_final st' = Some (if tier = LOW then MEDIUM else tier)"
proof -
  let ?P = "shows_service s"
  have known: "svc \<in> set KNOWN_SERVICES" using rt by (simp add: scripted_restart_def)
  have gated': "tier \<noteq> LOW \<or> \<not> no_floor so" if "?P so" for so
    using gated that by (auto simp: no_floor_def shows_service_def service_view_def)
  obtain st1 w1 where 1: "goes rt rv Diagnose st w Propose st1 w1" "w_ctx w1 = w_ctx w"
    "posed ?P st1 run svc (cycles st)"
    by (rule go_diagnose [where P = ?P, OF sb rt st s]) (auto simp: shows_service_def)
  obtain st2 w2 where 2: "goes rt rv Propose st1 w1 Classify st2 w2" "w_ctx w2 = w_ctx w1"
    "posed ?P st2 run svc (cycles st)" "sound st2" "st_proposed_action st2 = Some (restart_action svc)"
    by (rule go_propose [OF rt 1(3)])
  have anch: "anchored rt st2 svc s" by (rule propose_anchors [OF known 1(3) 2(1,5)])
  obtain st3 w3 where 3: "goes rt rv Classify st2 w2 Mark_awaiting st3 w3" "w_ctx w3 = w_ctx w2"
    "posed ?P st3 run svc (cycles st)" "sound st3" "st_proposed_action st3 = Some (restart_action svc)"
    "st_risk_tier_final st3 = Some (if tier = LOW then MEDIUM else tier)"
    "st_state_fingerprint st3 = st_state_fingerprint st2"
    by (rule go_classify_gated [OF rt 2(3-5) gated'])
  obtain st4 w4 where 4: "goes rt rv Mark_awaiting st3 w3 Await st4 w4" "w_ctx w4 = w_ctx w3"
    "posed ?P st4 run svc (cycles st)" "sound st4" "st_proposed_action st4 = st_proposed_action st3"
    "st_risk_tier_final st4 = st_risk_tier_final st3" "st_state_fingerprint st4 = st_state_fingerprint st3"
    "st_status st4 = Some AWAITING_APPROVAL"
    by (rule go_mark_awaiting [OF 3(3,4)])
  obtain p where p: "approval_request st4 = Inr p"
    using approval_request_total [OF 4(4)] 4(6) 3(6) by auto
  have d: "drive rt rv (k + 5) None Diagnose st w = (Interrupted p, \<lparr>cp_state = st4, cp_next = Some Await\<rparr>, w4)" for k
    using drive_goes [OF 1(1), of "k + 4"] drive_goes [OF 2(1), of "k + 3"]
      drive_goes [OF 3(1), of "k + 2"] drive_goes [OF 4(1), of "k + 1"] p
    by (simp add: eval_nat_numeral exec_step_def)
  have "suspended_at st4 run svc s" using 4 3(5) by (auto simp: suspended_at_def)
  moreover have "anchored rt st4 svc s" using anch 4(7) 3(7) by (simp add: anchored_def)
  ultimately show ?thesis by (intro that [OF d]) (simp_all add: 1 2 3 4)
qed

section \<open>From the approval to the end\<close>

lemma step_approve:
  assumes at: "suspended_at st run svc s" and tier: "st_risk_tier_final st \<noteq> None"
    and h: "hd_decision h = Approved" "hd_edited_action h = None"
  obtains st' w' where "exec_step rt True (Some h) Await st w = (Next (Some Revalidate) st', w')"
    "w_ctx w' = w_ctx w" "suspended_at st' run svc s" "st_state_fingerprint st' = st_state_fingerprint st"
proof -
  let ?u = "[Approval_decision Approved, Approver_id (hd_approver_id h)]"
  from at have s: "sound st" and run: "st_run_id st = Some run" by (auto simp: suspended_at_def posed_def)
  obtain p where "approval_request st = Inr p" using approval_request_total [OF s tier] by blast
  with h have fn: "node_fn rt (Some h) (w_tick w) Await st (w_ctx w) = (Inr ?u, w_ctx w)"
    by (simp add: await_approval_def Let_def)
  obtain e where "audit_entry rt (w_tick w) Await st ?u = Inr e"
    using run by (auto simp: audit_entry_def Let_def)
  with fn have "\<exists>w'. exec_step rt True (Some h) Await st w = (Next (Some Revalidate) (merge st ?u), w') \<and>
      w_ctx w' = w_ctx w"
    by (simp add: exec_step_def with_audit_def Let_def route_defs)
  moreover have "suspended_at (merge st ?u) run svc s"
    using at by (auto simp: suspended_at_def posed_def inv_defs cycles_def)
  ultimately show ?thesis using that by auto
qed

lemma go_revalidate:
  assumes sb: "sandbox (w_ctx w)" and known: "svc \<in> set KNOWN_SERVICES"
    and at: "suspended_at st run svc s0" and anch: "anchored rt st svc s"
    and s: "map_of (clients (w_ctx w)) svc = Some s"
  obtains st' w' n where "goes rt True Revalidate st w Prepare st' w'" "w_ctx w' = w_ctx w"
    "posed (\<lambda>_. True) st' run svc n" "sound st'" "st_proposed_action st' = Some (restart_action svc)"
proof -
  let ?t = "w_tick w"
  obtain ob where ob: "gather_observations (rt_log_clock rt ?t) (w_ctx w) = Inr ob" "full_sweep ob"
      "map_of (ob_services ob) svc = Some (service_view (rt_log_clock rt ?t svc) s)"
    using gather_sandbox [OF sb, of "rt_log_clock rt ?t"] known s by metis
  from anch ob(3) obtain fp where fp: "st_state_fingerprint st = Some fp"
      "compute_fingerprint (rt_float rt) (rt_digest rt) ob (restart_action svc) = Inr fp"
    by (auto simp: anchored_def)
  let ?u = "[Status REVALIDATING, Observations ob, State_fingerprint (Some fp), Drift_detected False]"
  from at have a: "st_proposed_action st = Some (restart_action svc)" by (simp add: suspended_at_def)
  have "node_fn rt None ?t Revalidate st (w_ctx w) = (Inr ?u, w_ctx w)"
    using ob fp a by (simp add: revalidate_def)
  from goesI [OF _ this, of True Prepare] at obtain w' where
    go: "goes rt True Revalidate st w Prepare (merge st ?u) w'" "w_ctx w' = w_ctx w"
    by (auto simp: route_defs suspended_at_def posed_def)
  obtain n where "posed (\<lambda>_. True) (merge st ?u) run svc n" "sound (merge st ?u)"
    using at ob by (auto simp: suspended_at_def posed_def inv_defs cycles_def)
  with a show ?thesis by (intro that [OF go]) simp_all
qed

text \<open>The execution of a restart that the ledger does not know yet.\<close>

lemma go_restart:
  assumes at: "posed P st run svc n" and sd: "sound st"
    and a: "st_proposed_action st = Some (restart_action svc)"
    and key: "st_idempotency_key st = Some (restart_key run svc)"
    and s: "map_of (clients (w_ctx w)) svc = Some s"
    and new: "ctx_get (w_ctx w) (restart_key run svc) = None"
  obtains st' w' why where "goes rt rv Execute st w Verify st' w'" "posed P st' run svc n" "sound st'" "executed st'"
    "st_proposed_action st' = Some (restart_action svc)" "st_compensation st' = Some (noop_compensation why)"
    "clients (w_ctx w') = AList.update svc (restart s) (clients (w_ctx w))"
    "\<And>k. k \<noteq> restart_key run svc \<Longrightarrow> ctx_get (w_ctx w') k = ctx_get (w_ctx w) k"
proof -
  let ?m = "\<lambda>ps. execute_action (rt_coerce rt) (restart_action svc) ps (restart_key run svc) (w_ctx w)"
  obtain out c' where out: "?m [] = (Inr out, c')"
      "oc_compensation out = noop_compensation ''restart has no reversible side effect''"
      "clients c' = AList.update svc (restart s) (clients (w_ctx w))"
      "\<And>k. k \<noteq> restart_key run svc \<Longrightarrow> ctx_get c' k = ctx_get (w_ctx w) k"
    by (rule execute_restart_fresh [OF s new, where ci = "rt_coerce rt" and ps = "[]"]) blast
  have "?m ps = ?m []" for ps by (simp add: execute_action_def split_join execute_tool_def)
  with out have ex: "\<exists>out. ?m ps = (Inr out, c') \<and>
      oc_compensation out = noop_compensation ''restart has no reversible side effect''" for ps by simp
  obtain st' w' where go: "goes rt rv Execute st w Verify st' w'" "w_ctx w' = c'"
    "posed P st' run svc n" "sound st'" "executed st'" "st_proposed_action st' = Some (restart_action svc)"
    "st_compensation st' = Some (noop_compensation ''restart has no reversible side effect'')"
    by (rule go_execute [OF at sd a key ex])
  show ?thesis by (rule that [OF go(1,3-7)]) (use out(3,4) go(2) in simp_all)
qed

text \<open>
  An approved restart that heals: six nodes to completion, when the fields of the service that the
  fingerprint covers are as they were at the proposal.
\<close>

lemma approved_run:
  assumes sb: "sandbox (w_ctx w)" and known: "svc \<in> set KNOWN_SERVICES"
    and at: "suspended_at st run svc s0" and anch: "anchored rt st svc s"
    and tier: "st_risk_tier_final st \<noteq> None"
    and h: "hd_decision h = Approved" "hd_edited_action h = None"
    and s: "map_of (clients (w_ctx w)) svc = Some s"
    and new: "ctx_get (w_ctx w) (restart_key run svc) = None"
    and heals: "svc_has_disk s \<longrightarrow> disk_pct s < DEGRADED_THRESHOLD"
  obtains cp w' where "drive rt True (k + 6) (Some h) Await st w = (Returned, cp, w')"
    "st_status (cp_state cp) = Some COMPLETED" "st_final_state (cp_state cp) = Some COMPLETED"
    "clients (w_ctx w') = AList.update svc (restart s) (clients (w_ctx w))"
    "\<And>k. k \<noteq> restart_key run svc \<Longrightarrow> ctx_get (w_ctx w') k = ctx_get (w_ctx w) k"
proof -
  obtain st1 w1 where 1: "exec_step rt True (Some h) Await st w = (Next (Some Revalidate) st1, w1)"
    "w_ctx w1 = w_ctx w" "suspended_at st1 run svc s0" "st_state_fingerprint st1 = st_state_fingerprint st"
    by (rule step_approve [OF at tier h])
  have sb1: "sandbox (w_ctx w1)" and s1: "map_of (clients (w_ctx w1)) svc = Some s"
    and anch1: "anchored rt st1 svc s"
    using sb s anch 1(2,4) by (simp_all add: anchored_def)
  obtain st2 w2 n where 2: "goes rt True Revalidate st1 w1 Prepare st2 w2" "w_ctx w2 = w_ctx w1"
    "posed (\<lambda>_. True) st2 run svc n" "sound st2" "st_proposed_action st2 = Some (restart_action svc)"
    by (rule go_revalidate [OF sb1 known 1(3) anch1 s1])
  obtain st3 w3 where 3: "goes rt True Prepare st2 w2 Execute st3 w3" "w_ctx w3 = w_ctx w2"
    "posed (\<lambda>_. True) st3 run svc n" "sound st3" "st_proposed_action st3 = Some (restart_action svc)"
    "st_idempotency_key st3 = Some (restart_key run svc)"
    by (rule go_prepare [OF 2(3-5)])
  have s3: "map_of (clients (w_ctx w3)) svc = Some s" and new3: "ctx_get (w_ctx w3) (restart_key run svc) = None"
    using s new 1(2) 2(2) 3(2) by simp_all
  obtain st4 w4 why where 4: "goes rt True Execute st3 w3 Verify st4 w4"
    "posed (\<lambda>_. True) st4 run svc n" "sound st4" "executed st4"
    "st_proposed_action st4 = Some (restart_action svc)" "st_compensation st4 = Some (noop_compensation why)"
    "clients (w_ctx w4) = AList.update svc (restart s) (clients (w_ctx w3))"
    "\<And>k. k \<noteq> restart_key run svc \<Longrightarrow> ctx_get (w_ctx w4) k = ctx_get (w_ctx w3) k"
    by (rule go_restart [OF 3(3-6) s3 new3]) blast
  have sv: "map_of (clients (w_ctx w4)) svc = Some (restart s)" by (simp add: 4(7) AList.update_conv')
  obtain st5 w5 where 5: "goes rt True Verify st4 w4 (if status (restart s) = ''healthy'' then Completed else Rolling_back) st5 w5"
    "w_ctx w5 = w_ctx w4" "posed (\<lambda>_. True) st5 run svc n" "sound st5"
    "st_proposed_action st5 = Some (restart_action svc)" "st_compensation st5 = st_compensation st4"
    by (rule go_verify [OF 4(2-5) sv])
  have 5: "goes rt True Verify st4 w4 Completed st5 w5" "w_ctx w5 = w_ctx w4" "st_run_id st5 \<noteq> None"
    using 5 heals by (simp_all add: restart_status posed_def)
  obtain w6 where 6: "drive rt True (Suc k) None Completed st5 w5 = (Returned,
      \<lparr>cp_state = st5\<lparr>st_status := Some COMPLETED, st_final_state := Some COMPLETED\<rparr>, cp_next = None\<rparr>, w6)"
    "w_ctx w6 = w_ctx w5"
    by (rule drive_completed [OF 5(3)])
  have "drive rt True (k + 6) (Some h) Await st w = drive rt True (Suc k) None Completed st5 w5"
    using 1(1) drive_goes [OF 2(1), of "k + 4"] drive_goes [OF 3(1), of "k + 3"]
      drive_goes [OF 4(1), of "k + 2"] drive_goes [OF 5(1), of "k + 1"]
    by (simp add: eval_nat_numeral)
  also note 6(1)
  finally show ?thesis by (rule that) (simp_all add: 1(2) 2(2) 3(2) 4(7,8) 5(2) 6(2))
qed

end
