(* ===== verification/Service_Properties.thy ===== *)
theory Service_Properties
  imports Demo Api Approved_Run
begin

text \<open>
  The agent as a service: the policy over the classifier, the in-memory and the Postgres stores as
  two implementations of the same abstract maps, the approval queue and the decisions of the HTTP
  API, and the run of an approved action.
\<close>

section \<open>The risk policy\<close>

text \<open>
  C25: The policy never lowers the classifier's tier; it says low exactly for a tool that is not
  forced, a tier that was low, and a target that is redundant or not restarted before; applying it
  again changes nothing.
\<close>

theorem policy_only_raises:
  "t \<le> apply_policy tool t sit \<and> apply_policy tool (apply_policy tool t sit) sit = apply_policy tool t sit \<and>
   (apply_policy tool t sit = LOW \<longleftrightarrow> tool \<notin> set FORCED_HIGH_TOOLS \<and> t = LOW \<and>
      (case sit of None \<Rightarrow> True
                 | Some sf \<Rightarrow> sf_has_redundant_replica sf \<or> sf_restart_count_this_run sf < 1))"
  by (simp add: policy_raises policy_idem policy_low_iff split: option.split)

section \<open>Two implementations of one store\<close>

definition same_ledger ::
  "(string \<Rightarrow> pydict) \<Rightarrow> (string \<Rightarrow> pyval) \<Rightarrow> (rat \<Rightarrow> string) \<Rightarrow> mem_ledger \<Rightarrow> pg_action list \<Rightarrow> bool" where
  "same_ledger ja jb fr led table \<longleftrightarrow>
     (\<forall>k. pg_get ja jb table k = map_option (pg_stored ja jb fr) (mem_get led k))"

text \<open>
  C22: The Postgres ledger implements the in-memory one up to what a row looks like when it is
  read back: the same key holds a row in both, also after recording another row, whether or not its
  key was taken.
\<close>

theorem ledgers_agree:
  assumes "same_ledger ja jb fr led table"
  shows "same_ledger ja jb fr (mem_record k r led) (pg_record fr k r table)"
  using assms by (simp add: same_ledger_def mem_get_record pg_get_record split: option.split)

definition demo_row :: ledger_row where
  "demo_row = \<lparr>lr_tool_name = ''restart_service'', lr_args = [(''service'', PStr ''service_a'')],
     lr_result = PDict [], lr_compensation = PDict []\<rparr>"

theorem ledgers_agree_witness:
  "same_ledger (\<lambda>_. []) (\<lambda>_. PDict []) (\<lambda>_. ''0.0'') (mem_record ''k'' demo_row [])
     (pg_record (\<lambda>_. ''0.0'') ''k'' demo_row [])"
  by (rule ledgers_agree) (simp add: same_ledger_def pg_get_def mem_get_def)

text \<open>
  A replay from the Postgres ledger, whose \<^verbatim>\<open>JSONB\<close> columns come back as text: the stored result is
  not a dictionary, and the tool raises instead of answering.
\<close>

lemma postgres_replay_raises:
  assumes "pg_get ja PStr table key = Some row"
  shows "run_idempotent (pg_get ja PStr) (pg_record fr) tool key args perform table = (Inl ValidationError, table)"
proof -
  from assms obtain s where "lr_result row = PStr s" by (auto simp: pg_get_def pg_row_of_def)
  with assms show ?thesis by (simp add: run_idempotent_def make_mutation_result_def bindR_def)
qed










section \<open>The HTTP API\<close>

text \<open>
  The service after a sequence of requests that were answered: runs created under new ids, with
  harmless initial values, and decisions.
\<close>

inductive api_reach :: "engine \<Rightarrow> service \<Rightarrow> service \<Rightarrow> bool" for ainvoke sv0 where
  initial: "api_reach ainvoke sv0 sv0"
| created: "api_reach ainvoke sv0 sv \<Longrightarrow>
    map_of (sys_threads (sv_system sv)) (if truthy (cr_run_id body) then the (cr_run_id body) else uuid) = None \<Longrightarrow>
    st_run_id (cr_initial_state body) = None \<Longrightarrow> st_replan_cycles (cr_initial_state body) = None \<Longrightarrow>
    create_run ainvoke uuid body sv = (Inr answer, sv') \<Longrightarrow> api_reach ainvoke sv0 sv'"
| decided: "api_reach ainvoke sv0 sv \<Longrightarrow> submit_decision ainvoke run h sv = (Inr answer, sv') \<Longrightarrow>
    api_reach ainvoke sv0 sv'"

definition coherent :: "bool \<Rightarrow> service \<Rightarrow> bool" where
  "coherent rv sv \<longleftrightarrow> in_step sv \<and> sys_inv rv (sv_system sv) \<and>
     (\<forall>run. (mem_run_get (sv_registry sv) run = None) = (map_of (sys_threads (sv_system sv)) run = None))"

lemma answer_run_registry:
  assumes "answer_run run sv (r, st, sys') = (Inr body, sv')" and "mem_registry_wf (sv_registry sv)"
  shows "mem_run_get (sv_registry sv') run' = (if run' = run then Some (to_response run st)
           else mem_run_get (sv_registry sv) run') \<and> sv_system sv' = sys'"
  using assms mem_registry.get_upsert [OF assms(2), of run "to_response run st" run']
  by (auto simp: answer_run_def to_response_def split: if_splits run_result.splits)

lemma answer_run_coherent:
  assumes "coherent rv sv" and "sys_inv rv sys'" and "cp_inv rv cp" and "stops r cp" and "st = cp_state cp"
    and "map_of (sys_threads sys') = (map_of (sys_threads (sv_system sv)))(run \<mapsto> cp)"
    and "answer_run run sv (r, st, sys') = (Inr body, sv')"
  shows "coherent rv sv'"
proof -
  from assms(1) have step: "in_step sv" and wf: "mem_registry_wf (sv_registry sv)"
    by (simp_all add: coherent_def in_step_def)
  show ?thesis
    using assms answer_run_in_step [OF step assms(3-7)] answer_run_registry [OF assms(7) wf]
    by (simp add: coherent_def)
qed

lemma api_reach_coherent:
  assumes "api_reach (run_engine rt rv limit) sv0 sv" and "coherent rv sv0"
  shows "coherent rv sv"
  using assms
proof (induction rule: api_reach.induct)
  case (created sv body uuid answer sv')
  let ?run = "if truthy (cr_run_id body) then the (cr_run_id body) else uuid"
    and ?init = "if truthy (cr_scenario_id body)
      then (cr_initial_state body)\<lparr>st_scenario_id := cr_scenario_id body\<rparr> else cr_initial_state body"
  obtain r st sys' where s: "start_workflow (run_engine rt rv limit) ?run ?init (sv_system sv) = (r, st, sys')"
    by (rule prod_cases3)
  from created have c: "coherent rv sv" by simp
  then have inv: "sys_inv rv (sv_system sv)" by (simp add: coherent_def)
  have init: "st_run_id ?init = None" "st_replan_cycles ?init = None" using created.hyps by simp_all
  obtain cp where "sys_inv rv sys'" "cp_inv rv cp" "stops r cp" "st = cp_state cp"
    "map_of (sys_threads sys') = (map_of (sys_threads (sv_system sv)))(?run \<mapsto> cp)"
    by (rule model_engine.start_inv [OF inv created.hyps(2) init s]) blast
  moreover have "answer_run ?run sv (r, st, sys') = (Inr answer, sv')"
    using created.hyps(5) s by (simp only: create_run_def Let_def)
  ultimately show ?case by (rule answer_run_coherent [OF c])
next
  case (decided sv run h answer sv')
  then have c: "coherent rv sv" by simp
  from decided.hyps(2) obtain row where row: "mem_run_get (sv_registry sv) run = Some row"
      "rs_status row = ''AWAITING_APPROVAL''"
    and a: "answer_run run sv (resume_workflow (run_engine rt rv limit) run h (sv_system sv)) = (Inr answer, sv')"
    by (auto simp: submit_decision_def split: option.splits if_splits)
  from c row obtain cp0 where cp0: "map_of (sys_threads (sv_system sv)) run = Some cp0" "cp_next cp0 = Some Await"
    unfolding coherent_def in_step_def by metis
  obtain r st sys' where s: "resume_workflow (run_engine rt rv limit) run h (sv_system sv) = (r, st, sys')"
    by (rule prod_cases3)
  from c have inv: "sys_inv rv (sv_system sv)" by (simp add: coherent_def)
  from cp0(2) have open': "cp_next cp0 \<noteq> None" by simp
  obtain cp where "sys_inv rv sys'" "cp_inv rv cp" "stops r cp" "st = cp_state cp"
    "map_of (sys_threads sys') = (map_of (sys_threads (sv_system sv)))(run \<mapsto> cp)"
    by (rule model_engine.resume_inv [OF inv cp0(1) open' s]) blast
  then show ?case using a s answer_run_coherent [OF c] by simp
qed simp

lemma coherent_awaiting:
  assumes "coherent rv sv"
  shows "(\<exists>row. mem_run_get (sv_registry sv) run = Some row \<and> rs_status row = ''AWAITING_APPROVAL'') \<longleftrightarrow>
    (\<exists>cp. map_of (sys_threads (sv_system sv)) run = Some cp \<and> cp_next cp = Some Await)"
proof
  assume "\<exists>row. mem_run_get (sv_registry sv) run = Some row \<and> rs_status row = ''AWAITING_APPROVAL''"
  with assms show "\<exists>cp. map_of (sys_threads (sv_system sv)) run = Some cp \<and> cp_next cp = Some Await"
    unfolding coherent_def in_step_def by metis
next
  assume "\<exists>cp. map_of (sys_threads (sv_system sv)) run = Some cp \<and> cp_next cp = Some Await"
  then obtain cp where cp: "map_of (sys_threads (sv_system sv)) run = Some cp" "cp_next cp = Some Await" by blast
  then have "cp_inv rv cp" using assms by (simp add: coherent_def sys_inv_def)
  with cp(2) have st: "st_status (cp_state cp) = Some AWAITING_APPROVAL" by (simp add: cp_inv_def)
  from assms cp obtain row where row: "mem_run_get (sv_registry sv) run = Some row"
    unfolding coherent_def by (metis not_Some_eq)
  with assms cp(1) have "row = to_response run (cp_state cp)"
    unfolding coherent_def in_step_def by (metis option.inject)
  with row st show "\<exists>row. mem_run_get (sv_registry sv) run = Some row \<and> rs_status row = ''AWAITING_APPROVAL''"
    by (simp add: to_response_def)
qed

definition empty_service :: "world \<Rightarrow> service" where
  "empty_service w = \<lparr>sv_system = \<lparr>sys_threads = [], sys_world = w\<rparr>, sv_registry = []\<rparr>"

lemma empty_coherent: "sandbox (w_ctx w) \<Longrightarrow> coherent rv (empty_service w)"
  by (simp add: coherent_def in_step_def sys_inv_def empty_service_def mem_registry_wf_def mem_run_get_def)

text \<open>
  C15: The approval queue is exact: after any sequence of answered requests to a service that
  started empty, the runs it lists are exactly those whose thread is suspended at the approval,
  and every row is the response of its thread's current state.
\<close>

theorem approval_queue_is_exact:
  assumes "api_reach (run_engine rt rv limit) (empty_service w) sv" and "sandbox (w_ctx w)"
  shows "run \<in> rs_run_id ` set (pending_approval sv) \<longleftrightarrow>
      (\<exists>cp. map_of (sys_threads (sv_system sv)) run = Some cp \<and> cp_next cp = Some Await)"
proof -
  from api_reach_coherent [OF assms(1) empty_coherent [OF assms(2)]] have c: "coherent rv sv" .
  then have wf: "mem_registry_wf (sv_registry sv)" by (simp add: coherent_def in_step_def)
  show ?thesis
    unfolding pending_approval_def mem_registry.queued_iff [OF wf] by (rule coherent_awaiting [OF c])
qed

definition plain_request :: create_run_request where
  "plain_request = \<lparr>cr_run_id = None, cr_scenario_id = None, cr_initial_state = empty_state\<rparr>"

definition demo_created :: "run_status response \<times> service" where
  "demo_created = create_run (run_engine delete_run True 26) ''u1'' plain_request (empty_service demo_world)"

lemma demo_created_answer: "\<not> isl (fst demo_created)"
  by code_simp

lemma demo_created_waits:
  "map_option cp_next (map_of (sys_threads (sv_system (snd demo_created))) ''u1'') = Some (Some Await)"
  by code_simp

lemma demo_created_reach:
  "api_reach (run_engine delete_run True 26) (empty_service demo_world) (snd demo_created)"
proof -
  from demo_created_answer obtain b where "fst demo_created = Inr b" by (cases "fst demo_created") auto
  then have e: "create_run (run_engine delete_run True 26) ''u1'' plain_request (empty_service demo_world) =
      (Inr b, snd demo_created)" by (simp add: demo_created_def prod_eq_iff)
  show ?thesis
    by (rule api_reach.created [OF api_reach.initial _ _ _ e])
      (simp_all add: empty_service_def plain_request_def empty_state_def)
qed

theorem approval_queue_is_exact_witness:
  "''u1'' \<in> rs_run_id ` set (pending_approval (snd demo_created))"
  using approval_queue_is_exact [OF demo_created_reach demo_sandbox, of "''u1''"] demo_created_waits by auto



section \<open>An approved action\<close>

text \<open>
  C13: The run with a human in it: a restart that the classifier does not call low suspends within
  five nodes, without having changed anything; when the service is still in the state the
  approver saw, the approval takes the run to \<^verbatim>\<open>COMPLETED\<close>, and the service has been restarted once
  and nothing else has changed in the services.
\<close>

theorem approved_restart_completes:
  assumes "sandbox (w_ctx w)" and "scripted_restart rt svc tier" and "tier \<noteq> LOW"
    and "started st" and "st_run_id st = Some run"
    and "map_of (clients (w_ctx w)) svc = Some s" and "ctx_get (w_ctx w) (restart_key run svc) = None"
    and "svc_has_disk s \<longrightarrow> disk_pct s < DEGRADED_THRESHOLD"
    and "hd_decision h = Approved" and "hd_edited_action h = None"
  shows "\<exists>p st1 w1 cp w2. drive rt True (j + 5) None Diagnose st w =
      (Interrupted p, \<lparr>cp_state = st1, cp_next = Some Await\<rparr>, w1) \<and> w_ctx w1 = w_ctx w \<and>
    st_status st1 = Some AWAITING_APPROVAL \<and>
    drive rt True (k + 6) (Some h) Await st1 w1 = (Returned, cp, w2) \<and>
    st_final_state (cp_state cp) = Some COMPLETED \<and>
    clients (w_ctx w2) = AList.update svc (restart s) (clients (w_ctx w)) \<and> status (restart s) = ''healthy''"
proof -
  have gated: "tier \<noteq> LOW \<or> (replicas s < MIN_REDUNDANT_REPLICAS \<and> 1 \<le> restart_count s)" using assms(3) by simp
  obtain p st1 w1 where one: "\<And>k. drive rt True (k + 5) None Diagnose st w =
      (Interrupted p, \<lparr>cp_state = st1, cp_next = Some Await\<rparr>, w1)" "w_ctx w1 = w_ctx w"
    "suspended_at st1 run svc s" "anchored rt st1 svc s"
    "st_risk_tier_final st1 = Some (if tier = LOW then MEDIUM else tier)"
    by (rule gated_run [OF assms(1,2,4,5,6) gated, where rv = True]) blast
  have known: "svc \<in> set KNOWN_SERVICES" using assms(2) by (simp add: scripted_restart_def)
  have sb: "sandbox (w_ctx w1)" and s: "map_of (clients (w_ctx w1)) svc = Some s"
    and new: "ctx_get (w_ctx w1) (restart_key run svc) = None" using assms(1,6,7) one(2) by simp_all
  have tier: "st_risk_tier_final st1 \<noteq> None" using one(5) by simp
  obtain cp w2 where two: "drive rt True (k + 6) (Some h) Await st1 w1 = (Returned, cp, w2)"
    "st_final_state (cp_state cp) = Some COMPLETED"
    "clients (w_ctx w2) = AList.update svc (restart s) (clients (w_ctx w1))"
    by (rule approved_run [OF sb known one(3,4) tier assms(9,10) s new assms(8), where k = k]) blast
  have "st_status st1 = Some AWAITING_APPROVAL" using one(3) by (simp add: suspended_at_def)
  moreover have "status (restart s) = ''healthy''" using assms(8) by (simp add: restart_status)
  ultimately show ?thesis
    using one(1) [of j] one(2) two
    by (intro exI [of _ p] exI [of _ st1] exI [of _ w1] exI [of _ cp] exI [of _ w2] conjI) simp_all
qed

definition gated_restart :: runtime where
  "gated_restart = scripted ''restart_service'' ''service_a'' MEDIUM"

theorem approved_restart_completes_witness:
  "\<exists>p st1 w1 cp w2. drive gated_restart True (0 + 5) None Diagnose demo_state demo_world =
      (Interrupted p, \<lparr>cp_state = st1, cp_next = Some Await\<rparr>, w1) \<and> w_ctx w1 = w_ctx demo_world \<and>
    st_status st1 = Some AWAITING_APPROVAL \<and>
    drive gated_restart True (0 + 6) (Some yes_decision) Await st1 w1 = (Returned, cp, w2) \<and>
    st_final_state (cp_state cp) = Some COMPLETED \<and>
    clients (w_ctx w2) = AList.update ''service_a'' (restart demo_a) (clients (w_ctx demo_world)) \<and>
    status (restart demo_a) = ''healthy''"
  by (rule approved_restart_completes [where tier = MEDIUM and run = "''run-1''"])
    (simp_all add: gated_restart_def scripted_restart_def scripted_def KNOWN_SERVICES_def SERVICE_ROLES_def
      demo_world_def demo_ctx_def ctx_get_def mem_get_def yes_decision_def demo_a_def new_service_def
      del: demo_sandbox, use demo_sandbox in \<open>simp add: demo_world_def demo_ctx_def demo_a_def new_service_def\<close>)

section \<open>Steps do not raise\<close>



end
