(* ===== verification/Heuristics.thy ===== *)
theory Heuristics
  imports Workflow
begin

text \<open>
  The reasoner and the risk classifier of \<^verbatim>\<open>src/eval/runner.py\<close> that need no language model:
  the service with the worst single signal is restarted, or its disk cleaned, and a fixed table
  gives the tier of a tool. A score is printed with \<open>format_fixed\<close>, as everywhere.
\<close>

section \<open>The worst signal\<close>

text \<open>\<^verbatim>\<open>max(pairs, key=second)\<close>: the first of the greatest pairs.\<close>

fun first_max :: "'a \<times> rat \<Rightarrow> ('a \<times> rat) list \<Rightarrow> 'a \<times> rat" where
  "first_max best [] = best"
| "first_max best (p # ps) = first_max (if snd p > snd best then p else best) ps"

definition signals_of :: "service_obs \<Rightarrow> (string, rat) dict" where
  "signals_of obs =
     [(''memory_pct'', m_memory_pct (so_metrics obs)), (''cpu_pct'', m_cpu_pct (so_metrics obs)),
      (''error_rate_pct'', m_error_rate (so_metrics obs) * 100)] @
     (case so_disk obs of None \<Rightarrow> [] | Some used \<Rightarrow> [(''disk_pct'', used)])"

definition service_worst :: "service_obs \<Rightarrow> string \<times> rat" where
  "service_worst obs = first_max (hd (signals_of obs)) (tl (signals_of obs))"

definition service_scores :: "observations \<Rightarrow> ((string \<times> string) \<times> rat) list" where
  "service_scores ob = map (\<lambda>(name, obs). ((name, fst (service_worst obs)), snd (service_worst obs))) (ob_services ob)"

definition worst_signal :: "observations \<Rightarrow> (string \<times> string \<times> rat) result" where
  "worst_signal ob =
     (case ob_services ob of
        [] \<Rightarrow> Inl StopIteration
      | (first, _) # _ \<Rightarrow>
          (case first_max ((first, ''status''), -1) (service_scores ob) of
             ((service, sig), score) \<Rightarrow> Inr (service, sig, score)))"

section \<open>Reasoner and classifier\<close>

text \<open>A \<^verbatim>\<open>StopIteration\<close> cannot leave a coroutine: Python turns it into a \<^verbatim>\<open>RuntimeError\<close>.\<close>

definition in_coroutine :: "'a result \<Rightarrow> 'a result" where
  "in_coroutine r = (case r of Inl StopIteration \<Rightarrow> Inl RuntimeError | _ \<Rightarrow> r)"

definition heuristic_diagnose :: "observations \<Rightarrow> string result" where
  "heuristic_diagnose ob = in_coroutine
     (bindR (worst_signal ob) (\<lambda>(service, sig, score).
        Inr (service @ '' shows the worst signal: '' @ sig @ ''='' @ format_fixed 0 score)))"

definition heuristic_propose :: "observations \<Rightarrow> string \<Rightarrow> string option \<Rightarrow> proposal result" where
  "heuristic_propose ob diagnosis replan_context = in_coroutine
     (bindR (worst_signal ob) (\<lambda>(target, sig, score).
        let tool = (if sig = ''disk_pct'' then ''clear_cache'' else ''restart_service'') in
        Inr \<lparr>pr_tool = tool, pr_target = target, pr_parameters = Some [],
             pr_rationale = ''heuristic reasoner: '' @ target @ [CHR 0x27] @ ''s worst signal was '' @ sig\<rparr>))"

definition TIERS :: "(string, risk_tier) dict" where
  "TIERS = [(''clear_cache'', LOW), (''scale_service'', LOW), (''restart_service'', MEDIUM),
     (''apply_config_change'', MEDIUM), (''rollback_deployment'', HIGH), (''delete_records'', HIGH)]"

definition heuristic_tier :: "string \<Rightarrow> risk_tier" where
  "heuristic_tier proposed_action =
     (case map_of TIERS (split_head proposed_action) of None \<Rightarrow> MEDIUM | Some t \<Rightarrow> t)"

definition heuristic_classify ::
  "string \<Rightarrow> string \<Rightarrow> string option \<Rightarrow> situational option \<Rightarrow> classification result" where
  "heuristic_classify proposed_action diagnosis rationale sit =
     Inr \<lparr>cl_tier = heuristic_tier proposed_action,
          cl_rationale = ''heuristic classifier: '' @ split_head proposed_action @ '' defaults to '' @
            risk_tier_value (heuristic_tier proposed_action)\<rparr>"

text \<open>A runtime with both, the rest from outside.\<close>

definition heuristic_context :: "runtime \<Rightarrow> runtime" where
  "heuristic_context ext = ext\<lparr>rt_diagnose := (\<lambda>_. heuristic_diagnose),
     rt_propose := (\<lambda>_. heuristic_propose), rt_classify := (\<lambda>_. heuristic_classify)\<rparr>"

section \<open>What they answer\<close>

lemma first_max_upper:
  "snd best \<le> snd (first_max best ps) \<and> (\<forall>p \<in> set ps. snd p \<le> snd (first_max best ps))"
proof (induction ps arbitrary: best)
  case (Cons p ps)
  let ?b = "if snd p > snd best then p else best"
  have "snd best \<le> snd ?b" "snd p \<le> snd ?b" by simp_all
  with Cons.IH [of ?b] show ?case by (auto simp del: if_split_asm split del: if_split)
qed simp

lemma first_max_member: "first_max best ps \<in> insert best (set ps)"
  by (induction ps arbitrary: best) (auto split: if_splits)

text \<open>The start value only survives when nothing beats it.\<close>

lemma first_max_beats:
  assumes "p \<in> set ps" and "snd best < snd p"
  shows "first_max best ps \<in> set ps"
proof -
  have "snd p \<le> snd (first_max best ps)" using first_max_upper assms(1) by blast
  with assms(2) have "first_max best ps \<noteq> best" by auto
  with first_max_member show ?thesis by blast
qed

lemma service_worst_in: "service_worst obs \<in> set (signals_of obs)"
proof -
  obtain p ps where s: "signals_of obs = p # ps" by (simp add: signals_of_def)
  then show ?thesis using first_max_member [of p ps] by (simp add: service_worst_def)
qed

lemma service_worst_upper: "p \<in> set (signals_of obs) \<Longrightarrow> snd p \<le> snd (service_worst obs)"
proof -
  assume p: "p \<in> set (signals_of obs)"
  obtain q qs where s: "signals_of obs = q # qs" by (simp add: signals_of_def)
  then show ?thesis using p first_max_upper [of q qs] by (auto simp: service_worst_def)
qed

lemma disk_signal: "fst (service_worst obs) = ''disk_pct'' \<Longrightarrow> so_disk obs \<noteq> None"
proof -
  assume d: "fst (service_worst obs) = ''disk_pct''"
  have "fst p \<noteq> ''disk_pct''" if "p \<in> set (signals_of obs)" "so_disk obs = None" for p
    using that by (auto simp: signals_of_def)
  with d service_worst_in show ?thesis by blast
qed

text \<open>
  The signal that is found is one of the swept service, and no signal of any service is greater,
  as long as the sweep shows a service with a memory share that is not negative.
\<close>

lemma worst_signal_spec:
  assumes "(n0, so0) \<in> set (ob_services ob)" and "0 \<le> m_memory_pct (so_metrics so0)"
  obtains svc sig score obs where "worst_signal ob = Inr (svc, sig, score)"
    "(svc, obs) \<in> set (ob_services ob)" "service_worst obs = (sig, score)"
    "\<And>n so p. (n, so) \<in> set (ob_services ob) \<Longrightarrow> p \<in> set (signals_of so) \<Longrightarrow> snd p \<le> score"
proof -
  let ?g = "\<lambda>(name, obs). ((name, fst (service_worst obs)), snd (service_worst obs))"
  let ?ps = "service_scores ob"
  obtain first so1 rest where obs: "ob_services ob = (first, so1) # rest"
    using assms(1) by (cases "ob_services ob") auto
  let ?best = "((first, ''status''), -1) :: (string \<times> string) \<times> rat"
  have "(''memory_pct'', m_memory_pct (so_metrics so0)) \<in> set (signals_of so0)"
    by (simp add: signals_of_def)
  then have "m_memory_pct (so_metrics so0) \<le> snd (service_worst so0)"
    using service_worst_upper by fastforce
  with assms have beat: "?g (n0, so0) \<in> set ?ps" "snd ?best < snd (?g (n0, so0))" by (force simp: service_scores_def)+
  let ?r = "first_max ?best ?ps"
  from beat have "?r \<in> set ?ps" by (rule first_max_beats)
  then obtain svc so where r: "?r = ?g (svc, so)" "(svc, so) \<in> set (ob_services ob)"
    by (auto simp: service_scores_def)
  have w: "worst_signal ob = Inr (svc, fst (service_worst so), snd (service_worst so))"
    using r(1) obs by (simp add: worst_signal_def split_beta)
  have up: "snd p \<le> snd (service_worst so)" if "(n, so') \<in> set (ob_services ob)" "p \<in> set (signals_of so')"
    for n so' p
  proof -
    have "?g (n, so') \<in> set ?ps" using that(1) by (force simp: service_scores_def)
    then have "snd (?g (n, so')) \<le> snd ?r" using first_max_upper by blast
    with r(1) service_worst_upper [OF that(2)] show ?thesis by simp
  qed
  show ?thesis by (rule that [OF w r(2)]) (use up in auto)
qed
lemma worst_signal_cases:
  assumes "full_sweep ob"
  obtains svc sig score where "worst_signal ob = Inr (svc, sig, score)"
    "svc \<in> set KNOWN_SERVICES" "sig = ''disk_pct'' \<longrightarrow> has_disk svc"
proof -
  have keys: "map fst (ob_services ob) = KNOWN_SERVICES" using assms by (simp add: full_sweep_def)
  then obtain first so1 rest where obs: "ob_services ob = (first, so1) # rest"
    by (cases "ob_services ob") (auto simp: KNOWN_SERVICES_def SERVICE_ROLES_def)
  let ?best = "((first, ''status''), -1) :: (string \<times> string) \<times> rat"
  obtain svc sig score where r: "first_max ?best (service_scores ob) = ((svc, sig), score)"
    by (metis surj_pair)
  have w: "worst_signal ob = Inr (svc, sig, score)" using r obs by (simp add: worst_signal_def)
  from first_max_member [of ?best "service_scores ob"] r
  consider "svc = first" "sig = ''status''"
    | so where "(svc, so) \<in> set (ob_services ob)" "sig = fst (service_worst so)"
    by (auto simp: service_scores_def)
  then have "svc \<in> set KNOWN_SERVICES \<and> (sig = ''disk_pct'' \<longrightarrow> has_disk svc)"
  proof cases
    case 1
    have "first \<in> set KNOWN_SERVICES" using keys obs by (metis list.set_intros(1) list.simps(9) fst_conv)
    with 1 show ?thesis by simp
  next
    case 2
    have known: "svc \<in> set KNOWN_SERVICES" using 2(1) keys by (metis fst_conv image_eqI list.set_map)
    have "distinct (map fst (ob_services ob))" using keys by (simp add: KNOWN_SERVICES_def SERVICE_ROLES_def)
    from map_of_is_SomeI [OF this 2(1)] have so: "map_of (ob_services ob) svc = Some so" .
    from assms known obtain so' where "map_of (ob_services ob) svc = Some so'" "(so_disk so' \<noteq> None) = has_disk svc"
      by (rule full_sweep_service)
    with so 2(2) disk_signal known show ?thesis by auto
  qed
  then show ?thesis by (intro that [OF w]) simp_all
qed

text \<open>
  On every full sweep both answer, and the proposal is a reversible tool on a service that has
  what the tool needs.
\<close>

lemma heuristic_diagnose_total: "full_sweep ob \<Longrightarrow> \<exists>s. heuristic_diagnose ob = Inr s"
  by (erule worst_signal_cases) (simp add: heuristic_diagnose_def in_coroutine_def)

lemma heuristic_proposal:
  assumes "full_sweep ob"
  obtains pr where "heuristic_propose ob diag why = Inr pr"
    "pr_tool pr \<in> {''clear_cache'', ''restart_service''}" "grounded (pr_tool pr) (pr_target pr)"
proof -
  obtain svc sig score where w: "worst_signal ob = Inr (svc, sig, score)"
    and svc: "svc \<in> set KNOWN_SERVICES" "sig = ''disk_pct'' \<longrightarrow> has_disk svc"
    using assms by (rule worst_signal_cases)
  from w obtain pr where pr: "heuristic_propose ob diag why = Inr pr" "pr_target pr = svc"
      "pr_tool pr = (if sig = ''disk_pct'' then ''clear_cache'' else ''restart_service'')"
    by (simp add: heuristic_propose_def in_coroutine_def Let_def)
  show ?thesis
    by (rule that [OF pr(1)]; cases "sig = ''disk_pct''")
      (use pr(2,3) svc in \<open>simp_all add: grounded_def KNOWN_TOOLS_def\<close>)
qed

lemma heuristic_total: "total_reasoners (heuristic_context ext)"
proof -
  have "\<exists>p. heuristic_propose ob d r = Inr p" if "full_sweep ob" for ob d r
    using heuristic_proposal [OF that] by metis
  then show ?thesis
    using heuristic_diagnose_total
    by (simp add: total_reasoners_def heuristic_context_def heuristic_classify_def)
qed

lemma heuristic_tier_of:
  "split_head a = tool \<Longrightarrow> tool \<in> set KNOWN_TOOLS \<Longrightarrow>
     heuristic_tier a = (if tool \<in> {''clear_cache'', ''scale_service''} then LOW
       else if tool \<in> set FORCED_HIGH_TOOLS then HIGH else MEDIUM)"
  by (erule known_tool_cases) (simp_all add: heuristic_tier_def TIERS_def FORCED_HIGH_TOOLS_def)

text \<open>The proposal is never one that the graph has to send back: the next node classifies it.\<close>

lemma heuristic_step:
  assumes "diagnosed st"
  obtains st' w' tool target where
    "exec_step (heuristic_context ext) rv d Propose st w = (Next (Some Classify) st', w')"
    "w_ctx w' = w_ctx w" "st_proposed_action st' = Some (join_action tool target)"
    "tool \<in> {''clear_cache'', ''restart_service''}" "grounded tool target"
proof -
  let ?rt = "heuristic_context ext" and ?t = "w_tick w"
  from assms obtain ob diag where ob: "st_observations st = Some ob" "full_sweep ob" "st_diagnosis st = Some diag"
    by (auto simp: inv_defs elim!: holdsE)
  obtain pr where pr: "heuristic_propose ob diag (st_replan_context st) = Inr pr"
    "pr_tool pr \<in> {''clear_cache'', ''restart_service''}" "grounded (pr_tool pr) (pr_target pr)"
    using ob(2) by (rule heuristic_proposal)
  let ?a = "join_action (pr_tool pr) (pr_target pr)"
  have "CHR '':'' \<notin> set (pr_tool pr)" using pr(2) by auto
  then have sp: "split_action ?a = Inr (pr_tool pr, pr_target pr)" by (simp add: split_join)
  have v: "validate_proposal ob ?a = Inr None" using validate_full_sweep [OF ob(2) sp] pr(3) by simp
  obtain fp where fp: "compute_fingerprint (rt_float ?rt) (rt_digest ?rt) ob ?a = Inr fp"
    using valid_has_fingerprint [OF v] by blast
  have p: "rt_propose ?rt ?t ob diag (st_replan_context st) = Inr pr"
    using pr(1) by (simp add: heuristic_context_def)
  let ?u = "[Status ACTION_PROPOSED, Proposed_action ?a,
      Action_parameters (case pr_parameters pr of None \<Rightarrow> [] | Some ps \<Rightarrow> ps),
      Action_rationale (pr_rationale pr), State_fingerprint (Some fp), Invalid_proposal_reason None]"
  have u: "propose_action ?rt ?t st (w_ctx w) = (Inr ?u, w_ctx w)"
    using ob p v fp by (simp add: propose_action_def)
  have "st_run_id st \<noteq> None" using assms by (simp add: inv_defs)
  then obtain e where e: "audit_entry ?rt ?t Propose st ?u = Inr e" by (auto simp: audit_entry_def Let_def)
  have "exec_step ?rt rv d Propose st w = (Next (Some Classify) (merge st ?u),
      w\<lparr>w_audit := w_audit w @ [e], w_tick := ?t + 1\<rparr>)"
    using e u by (simp add: exec_step_def with_audit_def Let_def mem_audit_record_def
        route_simps(1) truthy_def)
  then show ?thesis by (rule that) (use pr in simp_all)
qed

end
