(* ===== verification/LLM_Clients.thy ===== *)
theory LLM_Clients
  imports Heuristics
begin

text \<open>
  The reasoners and classifiers backed by a language model (\<^verbatim>\<open>src/agent/diagnosis.py\<close>,
  \<^verbatim>\<open>src/risk/classifier.py\<close>, \<^verbatim>\<open>src/llm/ollama_client.py\<close>) around the model itself: what is sent, how
  an answer is read back, and which backend the evaluation picks (\<^verbatim>\<open>src/eval/runner.py\<close>). The services
  of Anthropic and OpenAI and the Ollama server are parameters, and so are the texts of the prompts,
  the JSON schemas that pydantic derives and \<^verbatim>\<open>json.loads\<close>.
\<close>

section \<open>What is sent\<close>

text \<open>The dictionary of a sweep, as \<^verbatim>\<open>gather_observations\<close> returns it.\<close>

definition service_obs_dict :: "service_obs \<Rightarrow> pydict" where
  "service_obs_dict so =
     [(''health'', PDict (health_dict (so_health so))), (''metrics'', PDict (metrics_dict (so_metrics so))),
      (''logs'', PList (map PStr (so_logs so)))] @
     (case so_disk so of
        None \<Rightarrow> []
      | Some used \<Rightarrow> [(''disk'', PDict [(''service'', PStr (h_service (so_health so))), (''used_pct'', PFloat used)])])"

definition observations_dict :: "observations \<Rightarrow> pydict" where
  "observations_dict ob =
     [(''services'', PDict (map (\<lambda>(n, so). (n, PDict (service_obs_dict so))) (ob_services ob))),
      (''records'', PList (map row_pyval (ob_records ob)))]"

text \<open>\<^verbatim>\<open>json.dumps(payload, indent=2, sort_keys=True)\<close>, at a level of nesting.\<close>

definition indented :: "nat \<Rightarrow> string \<Rightarrow> string list \<Rightarrow> string \<Rightarrow> string" where
  "indented n opening items closing =
     (if items = [] then opening @ closing
      else opening @ [CHR 0x0A] @
        join_with ('','' @ [CHR 0x0A]) (map (\<lambda>i. replicate (2 * n + 2) (CHR 0x20) @ i) items) @
        [CHR 0x0A] @ replicate (2 * n) (CHR 0x20) @ closing)"

fun json_indent :: "(rat \<Rightarrow> string) \<Rightarrow> nat \<Rightarrow> pyval \<Rightarrow> string" where
  "json_indent fr n (PList xs) = indented n ''['' (map (json_indent fr (n + 1)) xs) '']''"
| "json_indent fr n (PDict d) =
     (let members = map (\<lambda>p. (fst p, json_indent fr (n + 1) (snd p))) d
      in indented n ''{'' (map (\<lambda>p. json_string (fst p) @ '': '' @ snd p) (sort_key fst members)) ''}'')"
| "json_indent fr n v = json_dumps True fr v"

definition report :: "(rat \<Rightarrow> string) \<Rightarrow> pydict \<Rightarrow> string" where
  "report fr payload = json_indent fr 0 (PDict payload)"

text \<open>What the second step sees; the reason to replan only when there is one.\<close>

definition proposal_payload :: "observations \<Rightarrow> string \<Rightarrow> string option \<Rightarrow> pydict" where
  "proposal_payload ob diagnosis replan_context =
     [(''observations'', PDict (observations_dict ob)),
      (''diagnosis'', PDict [(''summary'', PStr diagnosis)])] @
     (if truthy replan_context then [(''why_you_are_replanning'', PStr (the replan_context))] else [])"

definition situational_dict :: "situational \<Rightarrow> pydict" where
  "situational_dict sf =
     [(''replicas'', PInt (sf_replicas sf)), (''restart_count_this_run'', PInt (sf_restart_count_this_run sf)),
      (''error_rate'', PFloat (sf_error_rate sf)), (''memory_pct'', PFloat (sf_memory_pct sf)),
      (''cpu_pct'', PFloat (sf_cpu_pct sf)), (''disk_pct'', optional PFloat (sf_disk_pct sf)),
      (''has_redundant_replica'', PBool (sf_has_redundant_replica sf))]"

definition risk_payload ::
  "(rat \<Rightarrow> string) \<Rightarrow> string \<Rightarrow> string \<Rightarrow> string option \<Rightarrow> situational option \<Rightarrow> string" where
  "risk_payload fr proposed_action diagnosis rationale sit =
     json_dumps True fr (PDict
       [(''proposed_action'', PStr proposed_action), (''diagnosis'', PStr diagnosis),
        (''rationale'', optional PStr rationale),
        (''situational'', optional (\<lambda>sf. PDict (situational_dict sf)) sit)])"

section \<open>What comes back\<close>

text \<open>\<^verbatim>\<open>DiagnosisOutput\<close> with its optional service, and pydantic's reading of the three outputs.\<close>

record diagnosis_output =
  do_summary :: string
  do_root_cause_service :: "string option"

definition field_str :: "pydict \<Rightarrow> string \<Rightarrow> string result" where
  "field_str d k = (case map_of d k of None \<Rightarrow> Inl ValidationError | Some v \<Rightarrow> as_str v)"

definition read_diagnosis :: "pyval \<Rightarrow> diagnosis_output result" where
  "read_diagnosis v =
     bindR (as_dict v) (\<lambda>d.
     bindR (field_str d ''summary'') (\<lambda>s.
     bindR (case pd_get d ''root_cause_service'' of
              PNone \<Rightarrow> Inr None | x \<Rightarrow> bindR (as_str x) (\<lambda>r. Inr (Some r))) (\<lambda>root.
       Inr \<lparr>do_summary = s, do_root_cause_service = root\<rparr>)))"

definition read_proposal :: "pyval \<Rightarrow> proposal result" where
  "read_proposal v =
     bindR (as_dict v) (\<lambda>d.
     bindR (field_str d ''tool'') (\<lambda>tool.
     bindR (field_str d ''target'') (\<lambda>target.
     bindR (field_str d ''rationale'') (\<lambda>why.
     bindR (case map_of d ''parameters'' of None \<Rightarrow> Inr [] | Some x \<Rightarrow> as_dict x) (\<lambda>ps.
       Inr \<lparr>pr_tool = tool, pr_target = target, pr_parameters = Some ps, pr_rationale = why\<rparr>)))))"

definition tier_of :: "string \<Rightarrow> risk_tier result" where
  "tier_of s = (case find (\<lambda>t. risk_tier_value t = s) [LOW, MEDIUM, HIGH] of
     None \<Rightarrow> Inl ValidationError | Some t \<Rightarrow> Inr t)"

definition read_classification :: "pyval \<Rightarrow> classification result" where
  "read_classification v =
     bindR (as_dict v) (\<lambda>d.
     bindR (bindR (field_str d ''tier'') tier_of) (\<lambda>tier.
     bindR (field_str d ''reversibility'') (\<lambda>_.
     bindR (field_str d ''blast_radius'') (\<lambda>_.
     bindR (field_str d ''data_destructiveness'') (\<lambda>_.
     bindR (field_str d ''rationale'') (\<lambda>why.
       Inr \<lparr>cl_tier = tier, cl_rationale = why\<rparr>))))))"

lemma tier_of_value [simp]: "tier_of (risk_tier_value t) = Inr t"
  by (cases t) (simp_all add: tier_of_def)

section \<open>Ollama\<close>

text \<open>\<^verbatim>\<open>x[k]\<close> on a decoded JSON value.\<close>

fun json_item :: "pyval \<Rightarrow> string \<Rightarrow> pyval result" where
  "json_item (PDict d) k = pd_item d k"
| "json_item v k = Inl TypeError"

definition chat_payload :: "string \<Rightarrow> string \<Rightarrow> string \<Rightarrow> pyval \<Rightarrow> pydict" where
  "chat_payload model system user schema =
     [(''model'', PStr model),
      (''messages'', PList
        [PDict [(''role'', PStr ''system''), (''content'', PStr system)],
         PDict [(''role'', PStr ''user''), (''content'', PStr user)]]),
      (''format'', schema), (''stream'', PBool False),
      (''options'', PDict [(''temperature'', PInt 0)])]"

text \<open>
  \<^verbatim>\<open>structured_chat\<close>: \<open>server\<close> answers a request with a status code or a decoded body, \<open>loads\<close> is
  \<^verbatim>\<open>json.loads\<close> (\<open>None\<close> where it raises) and \<open>parse\<close> the validation of the output type.
\<close>

definition structured_chat ::
  "(pydict \<Rightarrow> pyval response) \<Rightarrow> (string \<Rightarrow> pyval option) \<Rightarrow> pyval \<Rightarrow> (pyval \<Rightarrow> 'a result) \<Rightarrow>
   string \<Rightarrow> string \<Rightarrow> string \<Rightarrow> 'a result" where
  "structured_chat server loads schema parse model system user =
     bindR (raise_for_status (server (chat_payload model system user schema))) (\<lambda>body.
     bindR (json_item body ''message'') (\<lambda>message.
     bindR (json_item message ''content'') (\<lambda>content.
       (case content of
          PStr text \<Rightarrow>
            (case loads text of None \<Rightarrow> Inl JSONDecodeError | Some v \<Rightarrow> parse v)
        | _ \<Rightarrow> Inl TypeError))))"

section \<open>The reasoners and the classifiers\<close>

text \<open>The three system prompts.\<close>

record prompts =
  pm_diagnosis :: string
  pm_proposal :: string
  pm_risk :: string

type_synonym messages = "(string \<times> string) list"

text \<open>
  Anthropic: \<open>ask\<close> is the model with structured output, which returns the parsed output or raises. The
  caller reads only the summary of a diagnosis.
\<close>

definition anthropic_diagnose ::
  "(messages \<Rightarrow> diagnosis_output result) \<Rightarrow> prompts \<Rightarrow> (rat \<Rightarrow> string) \<Rightarrow> observations \<Rightarrow> string result" where
  "anthropic_diagnose ask pm fr ob =
     bindR (ask [(''system'', pm_diagnosis pm), (''human'', report fr (observations_dict ob))])
       (\<lambda>out. Inr (do_summary out))"

definition anthropic_propose ::
  "(messages \<Rightarrow> proposal result) \<Rightarrow> prompts \<Rightarrow> (rat \<Rightarrow> string) \<Rightarrow> observations \<Rightarrow> string \<Rightarrow> string option \<Rightarrow>
   proposal result" where
  "anthropic_propose ask pm fr ob diagnosis replan_context =
     ask [(''system'', pm_proposal pm), (''human'', report fr (proposal_payload ob diagnosis replan_context))]"

definition anthropic_classify ::
  "(messages \<Rightarrow> classification result) \<Rightarrow> prompts \<Rightarrow> (rat \<Rightarrow> string) \<Rightarrow> string \<Rightarrow> string \<Rightarrow> string option \<Rightarrow>
   situational option \<Rightarrow> classification result" where
  "anthropic_classify ask pm fr proposed_action diagnosis rationale sit =
     ask [(''system'', pm_risk pm), (''human'', risk_payload fr proposed_action diagnosis rationale sit)]"

text \<open>OpenAI: \<^verbatim>\<open>parsed\<close> is \<^verbatim>\<open>None\<close> when the model refuses; parameters travel as JSON text.\<close>

record openai_proposal =
  op_tool :: string
  op_target :: string
  op_rationale :: string
  op_parameters_json :: string

record openai_action =
  oa_tool :: string
  oa_target :: string
  oa_rationale :: string
  oa_parameters :: pyval

definition parsed :: "'a option \<Rightarrow> 'a result" where
  "parsed answer = (case answer of None \<Rightarrow> Inl AttributeError | Some x \<Rightarrow> Inr x)"

definition openai_diagnose ::
  "(messages \<Rightarrow> diagnosis_output option result) \<Rightarrow> prompts \<Rightarrow> (rat \<Rightarrow> string) \<Rightarrow> observations \<Rightarrow> string result" where
  "openai_diagnose ask pm fr ob =
     bindR (bindR (ask [(''system'', pm_diagnosis pm), (''user'', report fr (observations_dict ob))]) parsed)
       (\<lambda>out. Inr (do_summary out))"

definition decode_parameters :: "(string \<Rightarrow> pyval option) \<Rightarrow> string \<Rightarrow> pyval" where
  "decode_parameters loads text = (case loads text of None \<Rightarrow> PDict [] | Some v \<Rightarrow> v)"

definition openai_propose ::
  "(messages \<Rightarrow> openai_proposal option result) \<Rightarrow> (string \<Rightarrow> pyval option) \<Rightarrow> prompts \<Rightarrow> (rat \<Rightarrow> string) \<Rightarrow>
   observations \<Rightarrow> string \<Rightarrow> string option \<Rightarrow> openai_action result" where
  "openai_propose ask loads pm fr ob diagnosis replan_context =
     bindR (bindR (ask [(''system'', pm_proposal pm),
                        (''user'', report fr (proposal_payload ob diagnosis replan_context))]) parsed) (\<lambda>p.
       Inr \<lparr>oa_tool = op_tool p, oa_target = op_target p, oa_rationale = op_rationale p,
            oa_parameters = decode_parameters loads (op_parameters_json p)\<rparr>)"

definition openai_classify ::
  "(messages \<Rightarrow> classification option result) \<Rightarrow> prompts \<Rightarrow> (rat \<Rightarrow> string) \<Rightarrow> string \<Rightarrow> string \<Rightarrow> string option \<Rightarrow>
   situational option \<Rightarrow> classification result" where
  "openai_classify ask pm fr proposed_action diagnosis rationale sit =
     bindR (ask [(''system'', pm_risk pm), (''user'', risk_payload fr proposed_action diagnosis rationale sit)]) parsed"

text \<open>Ollama: the schemas of the three output types, and the chat above.\<close>

record ollama =
  ol_server :: "pydict \<Rightarrow> pyval response"
  ol_loads :: "string \<Rightarrow> pyval option"
  ol_model :: string
  ol_diagnosis_schema :: pyval
  ol_proposal_schema :: pyval
  ol_classification_schema :: pyval

definition ollama_diagnose :: "ollama \<Rightarrow> prompts \<Rightarrow> (rat \<Rightarrow> string) \<Rightarrow> observations \<Rightarrow> string result" where
  "ollama_diagnose ol pm fr ob =
     bindR (structured_chat (ol_server ol) (ol_loads ol) (ol_diagnosis_schema ol) read_diagnosis (ol_model ol)
       (pm_diagnosis pm) (report fr (observations_dict ob))) (\<lambda>out. Inr (do_summary out))"

definition ollama_propose ::
  "ollama \<Rightarrow> prompts \<Rightarrow> (rat \<Rightarrow> string) \<Rightarrow> observations \<Rightarrow> string \<Rightarrow> string option \<Rightarrow> proposal result" where
  "ollama_propose ol pm fr ob diagnosis replan_context =
     structured_chat (ol_server ol) (ol_loads ol) (ol_proposal_schema ol) read_proposal (ol_model ol)
       (pm_proposal pm) (report fr (proposal_payload ob diagnosis replan_context))"

definition ollama_classify ::
  "ollama \<Rightarrow> prompts \<Rightarrow> (rat \<Rightarrow> string) \<Rightarrow> string \<Rightarrow> string \<Rightarrow> string option \<Rightarrow> situational option \<Rightarrow>
   classification result" where
  "ollama_classify ol pm fr proposed_action diagnosis rationale sit =
     structured_chat (ol_server ol) (ol_loads ol) (ol_classification_schema ol) read_classification (ol_model ol)
       (pm_risk pm) (risk_payload fr proposed_action diagnosis rationale sit)"

section \<open>Which backend\<close>

datatype backend = Anthropic string | OpenAI string | Ollama string | Heuristic | Other string

type_synonym environment = "(string, string) dict"

definition DEFAULT_OPENAI_MODEL :: string where "DEFAULT_OPENAI_MODEL = ''gpt-4o-mini''"

definition env_or :: "environment \<Rightarrow> string \<Rightarrow> string \<Rightarrow> string" where
  "env_or env k v = (case map_of env k of None \<Rightarrow> v | Some x \<Rightarrow> x)"

definition default_reasoner :: "environment \<Rightarrow> backend" where
  "default_reasoner env =
     (if truthy (map_of env ''ANTHROPIC_API_KEY'') then Anthropic ''claude-sonnet-5''
      else if truthy (map_of env ''OPEN_AI_API_KEY'') then OpenAI (env_or env ''OPENAI_MODEL'' DEFAULT_OPENAI_MODEL)
      else if truthy (map_of env ''OLLAMA_MODEL'') then Ollama (the (map_of env ''OLLAMA_MODEL''))
      else Heuristic)"

definition default_risk_classifier :: "environment \<Rightarrow> backend" where
  "default_risk_classifier env =
     (if truthy (map_of env ''ANTHROPIC_API_KEY'') then Anthropic ''claude-sonnet-5''
      else if truthy (map_of env ''OPEN_AI_API_KEY'') then OpenAI (env_or env ''OPENAI_MODEL'' DEFAULT_OPENAI_MODEL)
      else if truthy (map_of env ''OLLAMA_MODEL'') then Ollama (the (map_of env ''OLLAMA_MODEL''))
      else Heuristic)"

fun classifier_backend_label :: "backend \<Rightarrow> string" where
  "classifier_backend_label (Ollama m) = ''ollama:'' @ m"
| "classifier_backend_label (OpenAI m) = ''openai:'' @ m"
| "classifier_backend_label (Anthropic m) = ''anthropic:'' @ m"
| "classifier_backend_label Heuristic = ''heuristic-fallback''"
| "classifier_backend_label (Other type_name) = type_name"

text \<open>What \<^verbatim>\<open>run_suite\<close> writes into its summary.\<close>

definition reasoner_used :: "environment \<Rightarrow> string" where
  "reasoner_used env =
     (if truthy (map_of env ''ANTHROPIC_API_KEY'') then ''anthropic''
      else if truthy (map_of env ''OPEN_AI_API_KEY'') then ''openai:'' @ env_or env ''OPENAI_MODEL'' DEFAULT_OPENAI_MODEL
      else if truthy (map_of env ''OLLAMA_MODEL'') then ''ollama:'' @ the (map_of env ''OLLAMA_MODEL'')
      else ''heuristic-fallback'')"

text \<open>\<^verbatim>\<open>_approx_tokens\<close>: of the JSON text of its arguments.\<close>

definition approx_tokens :: "(rat \<Rightarrow> string) \<Rightarrow> pyval list \<Rightarrow> nat" where
  "approx_tokens fr parts = max 1 (length (json_dumps False fr (PList parts)) div 4)"

section \<open>Counting the calls\<close>

text \<open>
  The instrumented reasoner and classifier, over the dictionaries that the protocols exchange: a call
  counts before it is made, its tokens once it has answered.
\<close>

record meter =
  mt_llm_calls :: nat
  mt_total_tokens :: nat

definition new_meter :: meter where
  "new_meter = \<lparr>mt_llm_calls = 0, mt_total_tokens = 0\<rparr>"

definition metered :: "(rat \<Rightarrow> string) \<Rightarrow> pyval list \<Rightarrow> pydict result \<Rightarrow> meter \<Rightarrow> pydict result \<times> meter" where
  "metered fr args answer m =
     (let m1 = m\<lparr>mt_llm_calls := mt_llm_calls m + 1\<rparr>
      in case answer of
           Inl e \<Rightarrow> (Inl e, m1)
         | Inr d \<Rightarrow> (Inr d, m1\<lparr>mt_total_tokens :=
             mt_total_tokens m1 + (approx_tokens fr args + approx_tokens fr [PDict d])\<rparr>))"

definition instrumented_diagnose ::
  "(rat \<Rightarrow> string) \<Rightarrow> (pydict \<Rightarrow> pydict result) \<Rightarrow> pydict \<Rightarrow> meter \<Rightarrow> pydict result \<times> meter" where
  "instrumented_diagnose fr inner ob m = metered fr [PDict ob] (inner ob) m"

definition instrumented_propose ::
  "(rat \<Rightarrow> string) \<Rightarrow> (pydict \<Rightarrow> pydict \<Rightarrow> string option \<Rightarrow> pydict result) \<Rightarrow>
   pydict \<Rightarrow> pydict \<Rightarrow> string option \<Rightarrow> meter \<Rightarrow> pydict result \<times> meter" where
  "instrumented_propose fr inner ob diagnosis replan_context m =
     metered fr [PDict ob, PDict diagnosis, optional PStr replan_context] (inner ob diagnosis replan_context) m"

definition instrumented_classify ::
  "(rat \<Rightarrow> string) \<Rightarrow> (string \<Rightarrow> string \<Rightarrow> string option \<Rightarrow> pydict option \<Rightarrow> pydict result) \<Rightarrow>
   string \<Rightarrow> string \<Rightarrow> string option \<Rightarrow> pydict option \<Rightarrow> meter \<Rightarrow> pydict result \<times> meter" where
  "instrumented_classify fr inner proposed_action diagnosis rationale sit m =
     metered fr [PStr proposed_action, PStr diagnosis, optional PStr rationale, optional PDict sit]
       (inner proposed_action diagnosis rationale sit) m"

section \<open>What the clients guarantee\<close>

text \<open>The summary names the backend that labels the records, but for the version of an Anthropic model.\<close>

lemma summary_names_backend:
  "classifier_backend_label (default_risk_classifier env) =
     reasoner_used env @ (case default_reasoner env of Anthropic m \<Rightarrow> '':'' @ m | _ \<Rightarrow> [])"
  by (simp add: default_risk_classifier_def default_reasoner_def reasoner_used_def)

text \<open>Text that is not JSON counts as no parameters; a tier of an answer is one of the three.\<close>

lemma unreadable_parameters: "loads text = None \<Longrightarrow> decode_parameters loads text = PDict []"
  by (simp add: decode_parameters_def)

lemma tier_of_Inr: "tier_of s = Inr t \<longleftrightarrow> s = risk_tier_value t"
  by (cases t) (auto simp: tier_of_def)

text \<open>What the Ollama client accepts is an answer of the server with status 200 that validates.\<close>

lemma content_Inr:
  "(case c of PStr t \<Rightarrow> f t | _ \<Rightarrow> Inl TypeError) = Inr x \<longleftrightarrow> (\<exists>t. c = PStr t \<and> f t = Inr x)"
  by (cases c) simp_all

lemma structured_chat_Inr:
  "structured_chat server loads schema parse model system user = Inr x \<longleftrightarrow>
     (\<exists>body text v. server (chat_payload model system user schema) = Inr body \<and>
        bindR (json_item body ''message'') (\<lambda>m. json_item m ''content'') = Inr (PStr text) \<and>
        loads text = Some v \<and> parse v = Inr x)"
proof -
  have accepted: "raise_for_status r = Inr b \<longleftrightarrow> r = Inr b" for r :: "'c response" and b
    by (cases r) (simp_all add: raise_for_status_def)
  have decoded: "(case loads t of None \<Rightarrow> Inl JSONDecodeError | Some v \<Rightarrow> parse v) = Inr x \<longleftrightarrow>
    (\<exists>v. loads t = Some v \<and> parse v = Inr x)" for t
    by (cases "loads t") simp_all
  show ?thesis
    by (simp only: structured_chat_def bindR_Inr_iff content_Inr accepted decoded) blast
qed

text \<open>The instrumentation only observes; every answered call costs at least two tokens.\<close>

lemma metered_answer: "fst (metered fr args answer m) = answer"
  by (simp add: metered_def Let_def split: sum.split)

lemma metered_calls: "mt_llm_calls (snd (metered fr args answer m)) = mt_llm_calls m + 1"
  by (simp add: metered_def Let_def split: sum.split)

lemma approx_tokens_pos: "1 \<le> approx_tokens fr parts"
  by (simp add: approx_tokens_def)

lemma metered_tokens:
  "mt_total_tokens m + (case answer of Inl _ \<Rightarrow> 0 | Inr _ \<Rightarrow> 2) \<le> mt_total_tokens (snd (metered fr args answer m))"
proof (cases answer)
  case (Inr d)
  have "1 + 1 \<le> approx_tokens fr args + approx_tokens fr [PDict d]"
    by (intro add_mono approx_tokens_pos)
  with Inr show ?thesis by (simp add: metered_def Let_def)
qed (simp add: metered_def)

text \<open>With models that answer, the agent's reasoners are total: its steps do not raise because of them.\<close>

lemma anthropic_total:
  assumes "\<And>ms. \<exists>d. ask_d ms = Inr d" and "\<And>ms. \<exists>p. ask_p ms = Inr p" and "\<And>ms. \<exists>k. ask_k ms = Inr k"
  shows "total_reasoners (ext\<lparr>rt_diagnose := (\<lambda>_. anthropic_diagnose ask_d pm fr),
    rt_propose := (\<lambda>_. anthropic_propose ask_p pm fr), rt_classify := (\<lambda>_. anthropic_classify ask_k pm fr)\<rparr>)"
proof -
  have "\<exists>s. anthropic_diagnose ask_d pm fr ob = Inr s" for ob
    using assms(1) by (simp add: anthropic_diagnose_def) (metis bindR_simps(2))
  moreover have "\<exists>p. anthropic_propose ask_p pm fr ob d r = Inr p" for ob d r
    using assms(2) by (simp add: anthropic_propose_def)
  moreover have "\<exists>k. anthropic_classify ask_k pm fr a d r sit = Inr k" for a d r sit
    using assms(3) by (simp add: anthropic_classify_def)
  ultimately show ?thesis by (simp add: total_reasoners_def)
qed

end
