(* ===== verification/Scenario_Suite.thy ===== *)
theory Scenario_Suite
  imports Fault_Injector
begin

text \<open>
  \<^verbatim>\<open>src/eval/scenario_validation.py\<close>: the checks of the scenario file against the sandbox. A
  scenario is a record of its fields; \<open>None\<close> is a key that the JSON object does not have. Error
  messages are kept word for word.
\<close>

section \<open>Scenarios\<close>

record fault_spec =
  f_service :: "string option"
  f_type :: "string option"
  f_rate :: "string option"

record staleness_change =
  ch_action :: "string option"
  ch_service :: "string option"
  ch_type :: "string option"
  ch_rate :: "string option"
  ch_kind :: "string option"

record scenario =
  sc_id :: "string option"
  sc_name :: "string option"
  sc_category :: "string option"
  sc_fault_injection :: "fault_spec option"
  sc_expected_diagnosis :: "string option"
  sc_correct_actions :: "string list option"
  sc_acceptable_actions :: "string list option"
  sc_forbidden_actions :: "string list option"
  sc_expected_risk_tier :: "string option"
  sc_verification :: "pydict option"
  sc_staleness_injection :: "staleness_change list option"
  sc_expected_drift_detected :: "bool option"

definition REQUIRED_RISK_TIERS :: "string list" where
  "REQUIRED_RISK_TIERS = [''low'', ''medium'', ''high'']"

definition STALENESS_ACTIONS :: "string list" where
  "STALENESS_ACTIONS = [''reset'', ''inject_fault'', ''rollback'', ''delete_records'']"

definition REQUIRED_KEYS :: "string list" where
  "REQUIRED_KEYS =
     [''id'', ''name'', ''category'', ''fault_injection'', ''expected_diagnosis'', ''correct_actions'',
      ''acceptable_actions'', ''forbidden_actions'', ''expected_risk_tier'', ''verification'']"

definition REQUIRED_COVERAGE :: "(string, nat) dict" where
  "REQUIRED_COVERAGE =
     [(''low_risk'', 15), (''medium_high_risk'', 20), (''trap'', 8), (''staleness'', 7)]"

text \<open>\<^verbatim>\<open>k in scenario.keys()\<close>, for the keys that the checks look for.\<close>

definition has_key :: "scenario \<Rightarrow> string \<Rightarrow> bool" where
  "has_key sc k \<longleftrightarrow> map_of
     [(''id'', sc_id sc \<noteq> None), (''name'', sc_name sc \<noteq> None), (''category'', sc_category sc \<noteq> None),
      (''fault_injection'', sc_fault_injection sc \<noteq> None),
      (''expected_diagnosis'', sc_expected_diagnosis sc \<noteq> None),
      (''correct_actions'', sc_correct_actions sc \<noteq> None),
      (''acceptable_actions'', sc_acceptable_actions sc \<noteq> None),
      (''forbidden_actions'', sc_forbidden_actions sc \<noteq> None),
      (''expected_risk_tier'', sc_expected_risk_tier sc \<noteq> None),
      (''verification'', sc_verification sc \<noteq> None)] k = Some True"

section \<open>The checks\<close>

definition validate_fault_injection :: "fault_spec \<Rightarrow> string \<Rightarrow> string list" where
  "validate_fault_injection fault whr =
     (if f_service fault \<notin> Some ` set KNOWN_SERVICES
      then [whr @ '': unknown service '' @ repr_optional (f_service fault) @ ''; known: '' @
              repr_tuple KNOWN_SERVICES]
      else
        (case (case f_type fault of None \<Rightarrow> None
               | Some v \<Rightarrow> (case fault_type_of v of Inl _ \<Rightarrow> None | Inr f \<Rightarrow> Some f)) of
           None \<Rightarrow> [whr @ '': unknown fault type '' @ repr_optional (f_type fault)]
         | Some f \<Rightarrow>
             (if f_rate fault \<notin> Some ` set (map fault_rate_value fault_rates)
              then [whr @ '': unknown fault rate '' @ repr_optional (f_rate fault)] else []) @
             (if f = DISK_FULL \<and> \<not> has_disk (the (f_service fault))
              then [whr @ '': disk_full is not producible on '' @ repr_optional (f_service fault) @
                      '' (no disk surface)''] else [])))"

definition validate_action_ref :: "string \<Rightarrow> string \<Rightarrow> string \<Rightarrow> string list" where
  "validate_action_ref action field scenario_id =
     (case split_colon action of
        None \<Rightarrow> [scenario_id @ ''.'' @ field @ '': '' @ py_repr action @ '' is not in '' @
                   [CHR 0x27] @ ''tool:target'' @ [CHR 0x27] @ '' form'']
      | Some (tool, target) \<Rightarrow>
          (if tool \<notin> set KNOWN_TOOLS
           then [scenario_id @ ''.'' @ field @ '': unknown tool '' @ py_repr tool] else []) @
          (if target = ''*'' then []
           else if tool = ''delete_records'' then
             (if target \<notin> set RECORD_KINDS
              then [scenario_id @ ''.'' @ field @ '': unknown record kind '' @ py_repr target] else [])
           else if target \<notin> set KNOWN_SERVICES
             then [scenario_id @ ''.'' @ field @ '': unknown service '' @ py_repr target] else []))"

text \<open>\<^verbatim>\<open>inject_fault\<close> hands the change itself to the check of a fault.\<close>

definition change_fault :: "staleness_change \<Rightarrow> fault_spec" where
  "change_fault ch = \<lparr>f_service = ch_service ch, f_type = ch_type ch, f_rate = ch_rate ch\<rparr>"

definition validate_staleness_change :: "staleness_change \<Rightarrow> string \<Rightarrow> string list" where
  "validate_staleness_change change whr =
     (if ch_action change \<notin> Some ` set STALENESS_ACTIONS
      then [whr @ '': unknown staleness action '' @ repr_optional (ch_action change) @ ''; known: '' @
              repr_list (sort STALENESS_ACTIONS)]
      else if ch_action change = Some ''inject_fault''
        then validate_fault_injection (change_fault change) whr
      else if ch_action change \<in> {Some ''reset'', Some ''rollback''}
        then (if ch_service change \<notin> Some ` set KNOWN_SERVICES
              then [whr @ '': unknown service '' @ repr_optional (ch_service change)] else [])
      else if ch_action change = Some ''delete_records''
        then (if ch_kind change \<notin> Some ` set RECORD_KINDS
              then [whr @ '': unknown record kind '' @ repr_optional (ch_kind change)] else [])
      else [])"

definition or_nil :: "'a list option \<Rightarrow> 'a list" where
  "or_nil v = (case v of None \<Rightarrow> [] | Some xs \<Rightarrow> xs)"

definition field_errors :: "string \<Rightarrow> scenario \<Rightarrow> string list" where
  "field_errors scenario_id sc =
     concat (map (\<lambda>(field, actions).
        concat (map (\<lambda>a. validate_action_ref a field scenario_id) actions))
      [(''correct_actions'', or_nil (sc_correct_actions sc)),
       (''acceptable_actions'', or_nil (sc_acceptable_actions sc)),
       (''forbidden_actions'', or_nil (sc_forbidden_actions sc))])"

definition staleness_errors :: "string \<Rightarrow> scenario \<Rightarrow> string list" where
  "staleness_errors scenario_id sc =
     (case sc_staleness_injection sc of
        None \<Rightarrow> [scenario_id @ '': staleness scenario missing staleness_injection/expected_drift_detected'']
      | Some changes \<Rightarrow>
          if sc_expected_drift_detected sc = None
          then [scenario_id @ '': staleness scenario missing staleness_injection/expected_drift_detected'']
          else concat (map (\<lambda>(i, ch). validate_staleness_change ch
                 (scenario_id @ ''.staleness_injection.changes['' @ show_nat i @ '']''))
                (zip [0 ..< length changes] changes)))"

definition validate_scenario :: "scenario \<Rightarrow> string list" where
  "validate_scenario sc =
     (let scenario_id = (case sc_id sc of None \<Rightarrow> ''<missing id>'' | Some i \<Rightarrow> i);
          missing = [k \<leftarrow> REQUIRED_KEYS. \<not> has_key sc k] in
      if missing \<noteq> [] then [scenario_id @ '': missing required keys '' @ repr_list (sort missing)]
      else
        validate_fault_injection (the (sc_fault_injection sc)) (scenario_id @ ''.fault_injection'') @
        (if the (sc_expected_risk_tier sc) \<notin> set REQUIRED_RISK_TIERS
         then [scenario_id @ '': unknown expected_risk_tier '' @ py_repr (the (sc_expected_risk_tier sc))]
         else []) @
        field_errors scenario_id sc @
        (if \<not> set (or_nil (sc_correct_actions sc)) \<subseteq> set (or_nil (sc_acceptable_actions sc))
         then [scenario_id @ '': correct_actions must be a subset of acceptable_actions''] else []) @
        (if set (or_nil (sc_correct_actions sc)) \<inter> set (or_nil (sc_forbidden_actions sc)) \<noteq> {}
         then [scenario_id @ '': correct_actions overlaps forbidden_actions''] else []) @
        (if sc_category sc = Some ''staleness'' then staleness_errors scenario_id sc else []))"

text \<open>
  \<^verbatim>\<open>validate_scenarios\<close>: the set of repeated ids is sorted for the message, which raises when a
  missing id is among several.
\<close>

definition duplicate_ids :: "scenario list \<Rightarrow> string option list" where
  "duplicate_ids scs = (let ids = map sc_id scs in remdups [i \<leftarrow> ids. 1 < count_list ids i])"

definition duplicate_error :: "scenario list \<Rightarrow> string list result" where
  "duplicate_error scs =
     (let dups = duplicate_ids scs in
      if dups = [] then Inr []
      else if None \<in> set dups \<and> 1 < length dups then Inl TypeError
      else Inr [''duplicate scenario ids: '' @
        (if dups = [None] then ''[None]'' else repr_list (sort (map the dups)))])"

definition category_counts :: "scenario list \<Rightarrow> (string, nat) dict" where
  "category_counts scs = fold (\<lambda>sc counts.
     let category = (case sc_category sc of None \<Rightarrow> ''<missing category>'' | Some c \<Rightarrow> c) in
     AList.update category ((case map_of counts category of None \<Rightarrow> 0 | Some n \<Rightarrow> n) + 1) counts) scs []"

definition coverage_errors :: "scenario list \<Rightarrow> string list" where
  "coverage_errors scs =
     concat (map (\<lambda>(category, required).
       let actual = (case map_of (category_counts scs) category of None \<Rightarrow> 0 | Some n \<Rightarrow> n) in
       if actual \<noteq> required
       then [''category '' @ py_repr category @ '': expected '' @ show_nat required @
               '' scenarios, found '' @ show_nat actual]
       else []) REQUIRED_COVERAGE)"

definition validate_scenarios :: "scenario list \<Rightarrow> string list result" where
  "validate_scenarios scs =
     bindR (duplicate_error scs) (\<lambda>errs.
       Inr (errs @ concat (map validate_scenario scs) @ coverage_errors scs))"

section \<open>What a valid scenario is\<close>

definition holds_in :: "('a \<Rightarrow> bool) \<Rightarrow> 'a option \<Rightarrow> bool" where
  "holds_in P v \<longleftrightarrow> (\<exists>x. v = Some x \<and> P x)"

lemma holds_in_simps [simp]: "\<not> holds_in P None" "holds_in P (Some x) \<longleftrightarrow> P x"
  by (simp_all add: holds_in_def)

definition valid_fault :: "fault_spec \<Rightarrow> bool" where
  "valid_fault fault \<longleftrightarrow> (\<exists>n f r. f_service fault = Some n \<and> n \<in> set KNOWN_SERVICES \<and>
     f_type fault = Some (fault_type_value f) \<and> f_rate fault = Some (fault_rate_value r) \<and>
     (f = DISK_FULL \<longrightarrow> has_disk n))"

lemma rate_known: "v \<in> set (map fault_rate_value fault_rates) \<longleftrightarrow> (\<exists>r. v = fault_rate_value r)"
proof
  show "v \<in> set (map fault_rate_value fault_rates) \<Longrightarrow> \<exists>r. v = fault_rate_value r" by auto
  assume "\<exists>r. v = fault_rate_value r"
  then obtain r where "v = fault_rate_value r" by blast
  then show "v \<in> set (map fault_rate_value fault_rates)" by (cases r) (simp_all add: fault_rates_def)
qed

lemma validate_fault_iff: "validate_fault_injection fault whr = [] \<longleftrightarrow> valid_fault fault"
proof (cases "f_service fault \<in> Some ` set KNOWN_SERVICES")
  case False
  then have "\<not> valid_fault fault" by (auto simp: valid_fault_def)
  with False show ?thesis by (simp add: validate_fault_injection_def)
next
  case True
  then obtain n where n: "f_service fault = Some n" "n \<in> set KNOWN_SERVICES" by auto
  show ?thesis
  proof (cases "\<exists>f. f_type fault = Some (fault_type_value f)")
    case True
    then obtain f where f: "f_type fault = Some (fault_type_value f)" by blast
    have inj: "fault_type_value f = fault_type_value g \<longleftrightarrow> g = f" for g
      by (cases g; cases f) simp_all
    have "valid_fault fault \<longleftrightarrow> (\<exists>r. f_rate fault = Some (fault_rate_value r)) \<and> (f = DISK_FULL \<longrightarrow> has_disk n)"
      using n by (auto simp: valid_fault_def f inj)
    moreover have "validate_fault_injection fault whr = [] \<longleftrightarrow>
        f_rate fault \<in> Some ` set (map fault_rate_value fault_rates) \<and> (f = DISK_FULL \<longrightarrow> has_disk n)"
      using n by (simp add: validate_fault_injection_def f)
    moreover have "f_rate fault \<in> Some ` set (map fault_rate_value fault_rates) \<longleftrightarrow>
        (\<exists>r. f_rate fault = Some (fault_rate_value r))"
      using rate_known by (cases "f_rate fault") (simp_all add: image_iff)
    ultimately show ?thesis by simp
  next
    case False
    then have "\<not> valid_fault fault" by (auto simp: valid_fault_def)
    moreover have "validate_fault_injection fault whr \<noteq> []"
      using n False
      by (cases "f_type fault")
        (auto simp: validate_fault_injection_def fault_type_roundtrip split: sum.split option.split)
    ultimately show ?thesis by simp
  qed
qed

definition valid_ref :: "string \<Rightarrow> bool" where
  "valid_ref a \<longleftrightarrow> (\<exists>tool target. split_colon a = Some (tool, target) \<and> tool \<in> set KNOWN_TOOLS \<and>
     (target = ''*'' \<or> (if tool = ''delete_records'' then target \<in> set RECORD_KINDS
                       else target \<in> set KNOWN_SERVICES)))"

lemma if_Nil: "(if b then xs else ys) = [] \<longleftrightarrow> (if b then xs = [] else ys = [])"
  by simp

lemma if_not_False: "(if \<not> b then False else True) = b"
  by simp

lemma validate_ref_iff: "validate_action_ref a field i = [] \<longleftrightarrow> valid_ref a"
proof (cases "split_colon a")
  case (Some p)
  obtain tool target where p: "p = (tool, target)" by (cases p)
  have "validate_action_ref a field i = [] \<longleftrightarrow> tool \<in> set KNOWN_TOOLS \<and>
      (target = ''*'' \<or> (if tool = ''delete_records'' then target \<in> set RECORD_KINDS
                       else target \<in> set KNOWN_SERVICES))"
    unfolding validate_action_ref_def Some p option.case prod.case append_is_Nil_conv
    by (cases "target = ''*''"; cases "tool = ''delete_records''"; cases "tool \<in> set KNOWN_TOOLS")
      (simp_all only: if_Nil if_not_False if_True if_False not_True_eq_False not_False_eq_True list.distinct simp_thms)
  with Some p show ?thesis by (simp only: valid_ref_def option.inject prod.inject) blast
qed (simp add: validate_action_ref_def valid_ref_def)

definition valid_change :: "staleness_change \<Rightarrow> bool" where
  "valid_change ch \<longleftrightarrow>
     (case ch_action ch of
        None \<Rightarrow> False
      | Some act \<Rightarrow>
          if act = ''inject_fault'' then valid_fault (change_fault ch)
          else if act = ''reset'' \<or> act = ''rollback'' then ch_service ch \<in> Some ` set KNOWN_SERVICES
          else if act = ''delete_records'' then ch_kind ch \<in> Some ` set RECORD_KINDS
          else False)"

lemma validate_change_iff: "validate_staleness_change ch whr = [] \<longleftrightarrow> valid_change ch"
proof (cases "ch_action ch")
  case None
  then show ?thesis by (simp add: validate_staleness_change_def valid_change_def image_iff)
next
  case (Some act)
  consider (inj) "act = ''inject_fault''" | (rst) "act = ''reset''" | (rb) "act = ''rollback''"
    | (del) "act = ''delete_records''"
    | (other) "act \<noteq> ''inject_fault''" "act \<noteq> ''reset''" "act \<noteq> ''rollback''" "act \<noteq> ''delete_records''"
    by argo
  then show ?thesis
  proof cases
    case other
    then have "act \<notin> set STALENESS_ACTIONS" by (simp add: STALENESS_ACTIONS_def)
    then show ?thesis
      by (simp only: validate_staleness_change_def valid_change_def Some option.case other image_iff
          option.inject if_False if_True) (simp add: image_iff)
  next
    case inj
    then show ?thesis
      by (simp add: validate_staleness_change_def valid_change_def Some STALENESS_ACTIONS_def validate_fault_iff)
  next
    case rst
    then show ?thesis by (simp add: validate_staleness_change_def valid_change_def Some STALENESS_ACTIONS_def)
  next
    case rb
    then show ?thesis by (simp add: validate_staleness_change_def valid_change_def Some STALENESS_ACTIONS_def)
  next
    case del
    then show ?thesis by (simp add: validate_staleness_change_def valid_change_def Some STALENESS_ACTIONS_def)
  qed
qed

definition valid_scenario :: "scenario \<Rightarrow> bool" where
  "valid_scenario sc \<longleftrightarrow> list_all (has_key sc) REQUIRED_KEYS \<and>
     holds_in valid_fault (sc_fault_injection sc) \<and>
     holds_in (\<lambda>t. t \<in> set REQUIRED_RISK_TIERS) (sc_expected_risk_tier sc) \<and>
     (\<forall>a \<in> set (or_nil (sc_correct_actions sc) @ or_nil (sc_acceptable_actions sc) @
                 or_nil (sc_forbidden_actions sc)). valid_ref a) \<and>
     set (or_nil (sc_correct_actions sc)) \<subseteq> set (or_nil (sc_acceptable_actions sc)) \<and>
     set (or_nil (sc_correct_actions sc)) \<inter> set (or_nil (sc_forbidden_actions sc)) = {} \<and>
     (sc_category sc = Some ''staleness'' \<longrightarrow> sc_expected_drift_detected sc \<noteq> None \<and>
        holds_in (\<lambda>chs. \<forall>ch \<in> set chs. valid_change ch) (sc_staleness_injection sc))"

lemma keys_present:
  assumes "list_all (has_key sc) REQUIRED_KEYS"
  shows "sc_fault_injection sc \<noteq> None" and "sc_expected_risk_tier sc \<noteq> None"
proof -
  have "has_key sc ''fault_injection''" "has_key sc ''expected_risk_tier''"
    using assms by (simp_all only: REQUIRED_KEYS_def list.pred_inject)
  then show "sc_fault_injection sc \<noteq> None" and "sc_expected_risk_tier sc \<noteq> None"
    by (simp_all add: has_key_def)
qed

lemma missing_iff: "[k \<leftarrow> ks. \<not> P k] = [] \<longleftrightarrow> list_all P ks"
  by (simp add: filter_empty_conv list_all_iff)

lemma field_errors_iff:
  "field_errors i sc = [] \<longleftrightarrow> (\<forall>a \<in> set (or_nil (sc_correct_actions sc) @ or_nil (sc_acceptable_actions sc) @
     or_nil (sc_forbidden_actions sc)). valid_ref a)"
  by (simp add: field_errors_def validate_ref_iff ball_Un)

lemma ball_snd_zip:
  "length xs = length ys \<Longrightarrow> (\<forall>x \<in> set (zip xs ys). P (snd x)) \<longleftrightarrow> (\<forall>y \<in> set ys. P y)"
  by (induction xs ys rule: list_induct2) simp_all

lemma staleness_errors_iff:
  "staleness_errors i sc = [] \<longleftrightarrow> sc_expected_drift_detected sc \<noteq> None \<and>
     holds_in (\<lambda>chs. \<forall>ch \<in> set chs. valid_change ch) (sc_staleness_injection sc)"
proof (cases "sc_staleness_injection sc")
  case (Some chs)
  have "(\<forall>x \<in> set (zip [0 ..< length chs] chs). valid_change (snd x)) \<longleftrightarrow> (\<forall>ch \<in> set chs. valid_change ch)"
    using ball_snd_zip [of "[0 ..< length chs]" chs valid_change] by simp
  with Some show ?thesis
    by (auto simp: staleness_errors_def validate_change_iff split_beta)
qed (simp add: staleness_errors_def)

text \<open>The validator accepts exactly the valid scenarios.\<close>

lemma validate_scenario_iff: "validate_scenario sc = [] \<longleftrightarrow> valid_scenario sc"
proof (cases "list_all (has_key sc) REQUIRED_KEYS")
  case True
  from keys_present [OF True] obtain f t where "sc_fault_injection sc = Some f" "sc_expected_risk_tier sc = Some t"
    by auto
  with True show ?thesis
    by (simp add: validate_scenario_def Let_def missing_iff validate_fault_iff field_errors_iff
        staleness_errors_iff valid_scenario_def)
next
  case False
  then show ?thesis by (simp add: validate_scenario_def Let_def missing_iff valid_scenario_def)
qed

section \<open>A valid suite\<close>

lemma count_gt_1: "distinct xs \<longleftrightarrow> [i \<leftarrow> xs. 1 < count_list xs i] = []"
proof
  assume d: "distinct xs"
  have "count_list xs i \<le> 1" for i using d by (induction xs) (auto simp: count_list_0_iff)
  then show "[i \<leftarrow> xs. 1 < count_list xs i] = []" by (simp add: filter_empty_conv not_less)
next
  assume none: "[i \<leftarrow> xs. 1 < count_list xs i] = []"
  have "\<not> distinct xs \<Longrightarrow> \<exists>i \<in> set xs. 1 < count_list xs i"
  proof -
    assume "\<not> distinct xs"
    then obtain as bs cs i where "xs = as @ [i] @ bs @ [i] @ cs" using not_distinct_decomp by blast
    then show ?thesis by (intro bexI [of _ i]) (simp_all add: count_list_append)
  qed
  with none show "distinct xs" by (auto simp: filter_empty_conv)
qed

lemma duplicate_error_Nil: "duplicate_error scs = Inr [] \<longleftrightarrow> distinct (map sc_id scs)"
  unfolding count_gt_1 by (auto simp: duplicate_error_def duplicate_ids_def Let_def)

definition category_of :: "scenario \<Rightarrow> string" where
  "category_of sc = (case sc_category sc of None \<Rightarrow> ''<missing category>'' | Some c \<Rightarrow> c)"

lemma category_counts_fold:
  "map_of (fold (\<lambda>sc counts.
     let category = (case sc_category sc of None \<Rightarrow> ''<missing category>'' | Some c \<Rightarrow> c) in
     AList.update category ((case map_of counts category of None \<Rightarrow> 0 | Some n \<Rightarrow> n) + 1) counts) scs d) c =
   (if count_list (map category_of scs) c = 0 then map_of d c
    else Some ((case map_of d c of None \<Rightarrow> 0 | Some n \<Rightarrow> n) + count_list (map category_of scs) c))"
proof (induction scs arbitrary: d)
  case (Cons sc scs)
  then show ?case
    by (cases "map_of d c") (auto simp: Let_def AList.update_conv' category_of_def)
qed simp

lemma category_count:
  "(case map_of (category_counts scs) c of None \<Rightarrow> 0 | Some n \<Rightarrow> n) = count_list (map category_of scs) c"
  unfolding category_counts_def category_counts_fold by simp

lemma coverage_errors_Nil:
  "coverage_errors scs = [] \<longleftrightarrow> (\<forall>(c, n) \<in> set REQUIRED_COVERAGE. count_list (map category_of scs) c = n)"
proof -
  have "concat (map f xs) = [] \<longleftrightarrow> (\<forall>x \<in> set xs. f x = [])" for f :: "string \<times> nat \<Rightarrow> string list" and xs
    by simp
  then have "coverage_errors scs = [] \<longleftrightarrow>
      (\<forall>x \<in> set REQUIRED_COVERAGE. count_list (map category_of scs) (fst x) = snd x)"
    unfolding coverage_errors_def category_count Let_def split_beta if_Nil
    by (simp only: if_Nil if_not_False list.distinct simp_thms)
  then show ?thesis by (simp add: case_prod_unfold)
qed

lemma validate_scenarios_iff:
  "validate_scenarios scs = Inr [] \<longleftrightarrow> distinct (map sc_id scs) \<and> (\<forall>sc \<in> set scs. valid_scenario sc) \<and>
     (\<forall>(c, n) \<in> set REQUIRED_COVERAGE. count_list (map category_of scs) c = n)"
  by (auto simp: validate_scenarios_def bindR_Inr_iff validate_scenario_iff coverage_errors_Nil
      duplicate_error_Nil)

text \<open>The fault of a valid scenario can be injected into the sandbox.\<close>

lemma valid_fault_injects:
  assumes "sandbox c" and "valid_fault fault"
  shows "\<exists>n ft rt res c'. f_service fault = Some n \<and> f_type fault = Some ft \<and> f_rate fault = Some rt \<and>
    inject n ft rt c = (Inr res, c') \<and> sandbox c'"
proof -
  from assms(2) obtain n f r where n: "f_service fault = Some n" "n \<in> set KNOWN_SERVICES"
    and f: "f_type fault = Some (fault_type_value f)" "f_rate fault = Some (fault_rate_value r)"
      "f = DISK_FULL \<longrightarrow> has_disk n" by (auto simp: valid_fault_def)
  obtain s where s: "map_of (clients c) n = Some s" "svc_has_disk s = has_disk n"
    using sandbox_client [OF assms(1) n(2)] by blast
  with f(3) obtain res c' where c': "inject n (fault_type_value f) (fault_rate_value r) c = (Inr res, c')"
    using inject_iff [OF s(1)] by metis
  with inject_sandbox [OF assms(1)] have "sandbox c'" by (metis snd_conv)
  with n f c' show ?thesis by blast
qed

end
