(* ===== verification/Runner.thy ===== *)
theory Runner
  imports LLM_Clients Scenario_Suite Lifecycle
begin

text \<open>
  \<^verbatim>\<open>src/eval/runner.py\<close>: one scenario run through the graph on a fresh in-process sandbox, with a
  harness that approves every suspension, and the record that the metrics read. The readings of
  \<^verbatim>\<open>perf_counter\<close>, the random part of the run id, what the instrumented reasoners counted and the
  services behind given URLs, in the state they are in, come from outside.
\<close>

section \<open>The sandbox of a run\<close>

datatype ablation_mode = Full | No_durability | No_revalidation

fun mode_value :: "ablation_mode \<Rightarrow> string" where
  "mode_value Full = ''full''"
| "mode_value No_durability = ''no_durability''"
| "mode_value No_revalidation = ''no_revalidation''"

definition SEED_RECORDS :: "db_row list" where
  "SEED_RECORDS =
     [\<lparr>r_id = 1, r_kind = ''order'', r_payload = ''order-1001: shipped''\<rparr>,
      \<lparr>r_id = 2, r_kind = ''order'', r_payload = ''order-1002: pending''\<rparr>,
      \<lparr>r_id = 3, r_kind = ''order'', r_payload = ''order-1003: delivered''\<rparr>,
      \<lparr>r_id = 4, r_kind = ''session'', r_payload = ''session-a1: active''\<rparr>,
      \<lparr>r_id = 5, r_kind = ''session'', r_payload = ''session-a2: expired''\<rparr>,
      \<lparr>r_id = 6, r_kind = ''cache_entry'', r_payload = ''cache-key-42: stale''\<rparr>]"

definition replicas_for :: "(string, int) dict option \<Rightarrow> string \<Rightarrow> int" where
  "replicas_for initial_replicas name =
     (case map_of (case initial_replicas of None \<Rightarrow> [] | Some d \<Rightarrow> d) name of None \<Rightarrow> 1 | Some n \<Rightarrow> n)"

definition local_services :: "(string, int) dict option \<Rightarrow> (string, service_state) dict" where
  "local_services initial_replicas =
     [(''service_a'', new_service ''service_a'' False (replicas_for initial_replicas ''service_a'')),
      (''service_b'', new_service ''service_b'' False (replicas_for initial_replicas ''service_b'')),
      (''service_c'', new_service ''service_c'' True (replicas_for initial_replicas ''service_c''))]"

definition build_sandbox :: "(string, service_state) dict option \<Rightarrow> (string, int) dict option \<Rightarrow> tool_ctx" where
  "build_sandbox remote_services initial_replicas =
     \<lparr>clients = (case remote_services of
        None \<Rightarrow> local_services initial_replicas
      | Some d \<Rightarrow> (if d = [] then local_services initial_replicas else d)),
      store = [], records = new_records SEED_RECORDS\<rparr>"

section \<open>Drift during the approval\<close>

text \<open>\<^verbatim>\<open>clients[service].post(path)\<close> and its status: a missing client is a \<^verbatim>\<open>KeyError\<close> here.\<close>

definition raw_post :: "string \<Rightarrow> post \<Rightarrow> (tool_ctx, pydict) io" where
  "raw_post svc f =
     bindE (\<lambda>c. liftE (dict_get (clients c) svc (KeyError svc)) c) (\<lambda>_. http_post svc f)"

definition apply_staleness_change :: "staleness_change \<Rightarrow> (tool_ctx, unit) io" where
  "apply_staleness_change change =
     bindE (liftE (need ''action'' (ch_action change))) (\<lambda>action.
       if action = ''reset'' then
         bindE (liftE (need ''service'' (ch_service change))) (\<lambda>svc.
         bindE (raw_post svc app_admin_reset) (\<lambda>_. returnE ()))
       else if action = ''inject_fault'' then
         bindE (liftE (need ''service'' (ch_service change))) (\<lambda>svc.
         bindE (liftE (need ''type'' (ch_type change))) (\<lambda>f.
         bindE (inject svc f (case ch_rate change of None \<Rightarrow> ''high'' | Some r \<Rightarrow> r)) (\<lambda>_. returnE ())))
       else if action = ''rollback'' then
         bindE (liftE (need ''service'' (ch_service change))) (\<lambda>svc.
         bindE (raw_post svc app_rollback) (\<lambda>_. returnE ()))
       else if action = ''delete_records'' then
         bindE (liftE (need ''kind'' (ch_kind change))) (\<lambda>k.
         bindE (\<lambda>c. returnE (ctx_get_by_kind c (Some k) 1000000) c) (\<lambda>found.
           (\<lambda>c. returnE () (ctx_delete (map r_id found) c))))
       else raiseE (ValueError (''unknown staleness action '' @ py_repr action)))"

fun apply_changes :: "staleness_change list \<Rightarrow> (tool_ctx, unit) io" where
  "apply_changes [] = returnE ()"
| "apply_changes (ch # chs) = bindE (apply_staleness_change ch) (\<lambda>_. apply_changes chs)"

section \<open>The approval loop\<close>

text \<open>
  What the loop carries: the result of the last call, the state it returned, the system, and the
  measurements. \<open>pc k\<close> is the \<open>k\<close>-th reading of the clock.
\<close>

record approval_loop =
  al_result :: run_result
  al_state :: agent_state
  al_system :: system
  al_wait :: "rat option"
  al_resume_ms :: "rat option"
  al_drift :: "bool option"
  al_active :: rat
  al_reading :: nat

definition approve_once ::
  "engine \<Rightarrow> string \<Rightarrow> (nat \<Rightarrow> rat) \<Rightarrow> rat \<Rightarrow> string \<Rightarrow> approval_loop \<Rightarrow> approval_loop" where
  "approve_once ainvoke run_id pc wait approver l =
     (let k = al_reading l;
          decision = \<lparr>hd_decision = Approved, hd_edited_action = None, hd_approver_id = Some approver\<rparr>
      in case resume_workflow ainvoke run_id decision (al_system l) of
         (r, st, sys) \<Rightarrow>
           (let elapsed = pc (k + 1) - pc k in
            \<lparr>al_result = r, al_state = st, al_system = sys,
             al_wait = Some ((case al_wait l of None \<Rightarrow> 0 | Some x \<Rightarrow> x) + wait),
             al_resume_ms = (case al_resume_ms l of None \<Rightarrow> Some (elapsed * 1000) | Some x \<Rightarrow> Some x),
             al_drift = (case st_drift_detected st of
                None \<Rightarrow> al_drift l
              | Some b \<Rightarrow> Some (al_drift l = Some True \<or> b)),
             al_active = al_active l + elapsed, al_reading = k + 2\<rparr>))"

text \<open>\<^verbatim>\<open>while "__interrupt__" in result\<close>: \<open>None\<close> when the fuel does not do.\<close>

fun approve_all ::
  "nat \<Rightarrow> engine \<Rightarrow> string \<Rightarrow> (nat \<Rightarrow> rat) \<Rightarrow> rat \<Rightarrow> string \<Rightarrow> approval_loop \<Rightarrow> approval_loop option" where
  "approve_all fuel ainvoke run_id pc wait approver l =
     (if \<not> interrupted (al_result l) then Some l
      else (case fuel of
          0 \<Rightarrow> None
        | Suc k \<Rightarrow> approve_all k ainvoke run_id pc wait approver (approve_once ainvoke run_id pc wait approver l)))"

declare approve_all.simps [simp del]

section \<open>The record of a run\<close>

record run_record =
  rn_run_id :: string
  rn_scenario_id :: string
  rn_ablation_mode :: ablation_mode
  rn_final_state :: "wf_state option"
  rn_proposed_actions :: "string option list"
  rn_risk_tier_llm :: "risk_tier option"
  rn_risk_tier_final :: "risk_tier option"
  rn_classifier_backend :: string
  rn_redundancy_floor_applied :: "bool option"
  rn_approval_wait_seconds :: "rat option"
  rn_time_to_resume_ms :: "rat option"
  rn_revalidation_triggered :: bool
  rn_drift_detected :: "bool option"
  rn_staleness_injection_applied :: bool
  rn_executed_actions :: "string list"
  rn_idempotency_collisions :: int
  rn_verification_passed :: "bool option"
  rn_rollback_invoked :: bool
  rn_replan_cycles :: int
  rn_process_kills_survived :: int
  rn_total_tokens :: int
  rn_llm_calls :: int
  rn_wall_clock_seconds :: rat
  rn_compute_seconds_active :: rat
  rn_audit_records :: "audit_record list"

definition proposed_in :: "audit_record list \<Rightarrow> string option list" where
  "proposed_in recs = [ar_action_proposed r. r \<leftarrow> recs, ar_to_state r = Some ACTION_PROPOSED]"

definition executed_in :: "audit_record list \<Rightarrow> string list" where
  "executed_in recs =
     [the (ar_action_proposed r). r \<leftarrow> recs, ar_to_state r = Some VERIFYING \<and> truthy (ar_action_proposed r)]"

definition make_record ::
  "string \<Rightarrow> string \<Rightarrow> ablation_mode \<Rightarrow> string \<Rightarrow> int \<times> int \<Rightarrow> bool \<Rightarrow> bool \<Rightarrow> rat \<Rightarrow> approval_loop \<Rightarrow> run_record" where
  "make_record run_id scenario_id mode backend usage first_suspension applied wall l =
     (let result = al_state l;
          audit = mem_audit_get_run (w_audit (sys_world (al_system l))) run_id
      in \<lparr>rn_run_id = run_id, rn_scenario_id = scenario_id, rn_ablation_mode = mode,
          rn_final_state = (case st_final_state result of None \<Rightarrow> st_status result | Some s \<Rightarrow> Some s),
          rn_proposed_actions = proposed_in audit,
          rn_risk_tier_llm = st_risk_tier_llm result, rn_risk_tier_final = st_risk_tier_final result,
          rn_classifier_backend = backend,
          rn_redundancy_floor_applied = st_redundancy_floor_applied result,
          rn_approval_wait_seconds = al_wait l, rn_time_to_resume_ms = al_resume_ms l,
          rn_revalidation_triggered = (mode \<noteq> No_revalidation \<and> first_suspension),
          rn_drift_detected = al_drift l, rn_staleness_injection_applied = applied,
          rn_executed_actions = executed_in audit, rn_idempotency_collisions = 0,
          rn_verification_passed = st_verification_passed result,
          rn_rollback_invoked = list_ex (\<lambda>r. ar_to_state r = Some ROLLING_BACK) audit,
          rn_replan_cycles = (case st_replan_cycles result of None \<Rightarrow> 0 | Some n \<Rightarrow> n),
          rn_process_kills_survived = 0, rn_total_tokens = fst usage, rn_llm_calls = snd usage,
          rn_wall_clock_seconds = wall, rn_compute_seconds_active = al_active l,
          rn_audit_records = audit\<rparr>)"

section \<open>One scenario\<close>

text \<open>
  The arguments of \<^verbatim>\<open>run_scenario\<close> besides the scenario and the mode: the reasoner and the classifier
  in \<open>ru_runtime\<close>, the kind of the classifier that was passed, the environment variables, the counts of the instrumentation, the checkpointer's threads,
  and what the outside answers.
\<close>

record run_setup =
  ru_runtime :: runtime
  ru_limit :: nat
  ru_classifier :: "backend option"
  ru_env :: environment
  ru_usage :: "int \<times> int"
  ru_clock :: "nat \<Rightarrow> rat"
  ru_wait :: rat
  ru_approver :: string
  ru_suffix :: string
  ru_threads :: "(string, checkpoint) dict"
  ru_services :: "(string, service_state) dict option"
  ru_replicas :: "(string, int) dict option"

text \<open>\<^verbatim>\<open>_classifier_backend_label(risk_classifier or default_risk_classifier())\<close>\<close>

definition backend_label :: "run_setup \<Rightarrow> string" where
  "backend_label su = classifier_backend_label
     (case ru_classifier su of None \<Rightarrow> default_risk_classifier (ru_env su) | Some b \<Rightarrow> b)"

definition eval_run_id :: "run_setup \<Rightarrow> ablation_mode \<Rightarrow> string \<Rightarrow> string" where
  "eval_run_id su mode scenario_id = ''eval-'' @ scenario_id @ ''-'' @ mode_value mode @ ''-'' @ ru_suffix su"

definition eval_engine :: "run_setup \<Rightarrow> ablation_mode \<Rightarrow> engine" where
  "eval_engine su mode = run_engine (ru_runtime su) (mode \<noteq> No_revalidation) (ru_limit su)"

definition inject_scenario :: "scenario \<Rightarrow> (tool_ctx, pydict) io" where
  "inject_scenario sc =
     bindE (liftE (need ''fault_injection'' (sc_fault_injection sc))) (\<lambda>fault.
     bindE (liftE (need ''service'' (f_service fault))) (\<lambda>svc.
     bindE (liftE (need ''type'' (f_type fault))) (\<lambda>f.
     bindE (liftE (need ''rate'' (f_rate fault))) (\<lambda>r. inject svc f r))))"

text \<open>The drift of a staleness scenario, injected at its first suspension; the result says whether it was.\<close>

definition staleness_window :: "scenario \<Rightarrow> bool \<Rightarrow> (tool_ctx, bool) io" where
  "staleness_window sc first_suspension =
     (if \<not> first_suspension then returnE False
      else bindE (liftE (need ''category'' (sc_category sc))) (\<lambda>category.
        if category \<noteq> ''staleness'' then returnE False
        else bindE (liftE (need ''staleness_injection'' (sc_staleness_injection sc))) (\<lambda>changes.
             bindE (apply_changes changes) (\<lambda>_. returnE True))))"

definition with_ctx :: "tool_ctx \<Rightarrow> system \<Rightarrow> system" where
  "with_ctx c sys = sys\<lparr>sys_world := (sys_world sys)\<lparr>w_ctx := c\<rparr>\<rparr>"

text \<open>From the fresh sandbox to the first stop, and from there to the record.\<close>

definition begin_scenario ::
  "run_setup \<Rightarrow> ablation_mode \<Rightarrow> scenario \<Rightarrow> run_result + string \<times> run_result \<times> agent_state \<times> system" where
  "begin_scenario su mode sc =
     (case inject_scenario sc (build_sandbox (ru_services su) (ru_replicas su)) of
        (Inl e, _) \<Rightarrow> Inl (Errored e)
      | (Inr _, c) \<Rightarrow>
          (case sc_id sc of
             None \<Rightarrow> Inl (Errored (KeyError ''id''))
           | Some scenario_id \<Rightarrow>
               (case start_workflow (eval_engine su mode) (eval_run_id su mode scenario_id) empty_state
                       \<lparr>sys_threads = ru_threads su, sys_world = \<lparr>w_ctx = c, w_audit = [], w_tick = 0\<rparr>\<rparr> of
                  (r, st, sys) \<Rightarrow> if failed r then Inl r else Inr (scenario_id, r, st, sys))))"

definition finish_scenario ::
  "nat \<Rightarrow> run_setup \<Rightarrow> ablation_mode \<Rightarrow> scenario \<Rightarrow> string \<times> run_result \<times> agent_state \<times> system \<Rightarrow>
   (run_result + run_record) option" where
  "finish_scenario fuel su mode sc = (\<lambda>(scenario_id, r, st, sys).
     (let pc = ru_clock su; run_id = eval_run_id su mode scenario_id; first_suspension = interrupted r in
      case staleness_window sc first_suspension (w_ctx (sys_world sys)) of
        (Inl e, _) \<Rightarrow> Some (Inl (Errored e))
      | (Inr applied, c) \<Rightarrow>
          (case approve_all fuel (eval_engine su mode) run_id pc (ru_wait su) (ru_approver su)
                  \<lparr>al_result = r, al_state = st, al_system = with_ctx c sys, al_wait = None,
                   al_resume_ms = None, al_drift = None, al_active = pc 2 - pc 1, al_reading = 3\<rparr> of
             None \<Rightarrow> None
           | Some l \<Rightarrow>
               Some (if failed (al_result l) then Inl (al_result l)
                     else Inr (make_record run_id scenario_id mode (backend_label su) (ru_usage su)
                       first_suspension applied (pc (al_reading l) - pc 0) l)))))"

definition run_scenario ::
  "nat \<Rightarrow> run_setup \<Rightarrow> ablation_mode \<Rightarrow> scenario \<Rightarrow> (run_result + run_record) option" where
  "run_scenario fuel su mode sc =
     (case begin_scenario su mode sc of
        Inl r \<Rightarrow> Some (Inl r)
      | Inr x \<Rightarrow> finish_scenario fuel su mode sc x)"

section \<open>The loop ends\<close>

lemma exec_suspended:
  assumes "exec_step rt rv d n st w = (Suspended p, w')"
  shows "n = Await" and "d = None" and "w' = w"
  using assms by (auto simp: exec_step_def split: if_splits sum.splits prod.splits)

lemma invokes_rank:
  "invokes rt rv d x r y \<Longrightarrow> cp_rank (fst y) \<le> cp_rank (fst x) \<and>
     (interrupted r \<longrightarrow> cp_next (fst y) = Some Await) \<and>
     (interrupted r \<and> d \<noteq> None \<longrightarrow> cp_rank (fst y) < cp_rank (fst x))"
proof (induction rule: invokes.induct)
  case (suspended d n st w p w')
  then show ?case using exec_suspended [OF suspended] by simp
next
  case (ended d n st w st' w')
  then show ?case by (simp add: cp_rank_def)
next
  case (further d n st w n' st' w' r y)
  from step_rank [OF further(1)] have "rank n' st' < rank n st" by simp
  with further.IH show ?case by (auto simp: cp_rank_def)
qed simp_all

text \<open>At an approval the rank counts the cycles that are left.\<close>

lemma cp_rank_await: "cp_next cp = Some Await \<Longrightarrow> cp_rank cp = 11 * left (cp_state cp) - 2"
  by (simp add: cp_rank_def)

definition waiting :: "approval_loop \<Rightarrow> string \<Rightarrow> nat \<Rightarrow> bool" where
  "waiting l run n \<longleftrightarrow> (interrupted (al_result l) \<longrightarrow>
     (\<exists>cp. map_of (sys_threads (al_system l)) run = Some cp \<and> cp_next cp = Some Await \<and>
           left (cp_state cp) \<le> n))"

lemma approve_once_waiting:
  assumes "waiting l run (Suc n)" and "interrupted (al_result l)"
  shows "waiting (approve_once (run_engine rt rv limit) run pc wait approver l) run n"
proof -
  from assms obtain cp0 where cp0: "map_of (sys_threads (al_system l)) run = Some cp0"
      "cp_next cp0 = Some Await" "left (cp_state cp0) \<le> Suc n" by (auto simp: waiting_def)
  let ?h = "\<lparr>hd_decision = Approved, hd_edited_action = None, hd_approver_id = Some approver\<rparr>"
  obtain r st sys where r: "run_engine rt rv limit (Resume ?h) run (al_system l) = (r, st, sys)"
    by (cases "run_engine rt rv limit (Resume ?h) run (al_system l)")
  from model_engine.resume_law [OF cp0(1) _ r] cp0(2) obtain cp where
    th: "map_of (sys_threads sys) = (map_of (sys_threads (al_system l)))(run \<mapsto> cp)" and
    inv: "invokes rt rv (Some ?h) (cp0, sys_world (al_system l)) r (cp, sys_world sys)" by auto
  have "left (cp_state cp) \<le> n \<and> cp_next cp = Some Await" if i: "interrupted r"
  proof -
    from invokes_rank [OF inv] i have aw: "cp_next cp = Some Await" and "cp_rank cp < cp_rank cp0" by simp_all
    then have "11 * left (cp_state cp) - 2 < 11 * left (cp_state cp0) - 2"
      using cp0(2) by (simp add: cp_rank_await)
    with cp0(3) aw show ?thesis by simp
  qed
  then show ?thesis
    using r th by (simp add: waiting_def approve_once_def resume_workflow_def Let_def)
qed

lemma approve_all_ends:
  "waiting l run n \<Longrightarrow> n \<le> fuel \<Longrightarrow> approve_all fuel (run_engine rt rv limit) run pc wait approver l \<noteq> None"
proof (induction fuel arbitrary: l n)
  case 0
  have "\<not> interrupted (al_result l)"
  proof
    assume "interrupted (al_result l)"
    with 0 obtain cp :: checkpoint where "left (cp_state cp) \<le> 0" by (auto simp: waiting_def)
    with left_pos show False by (metis le_0_eq not_one_le_zero)
  qed
  then show ?case by (simp add: approve_all.simps)
next
  case (Suc k)
  show ?case
  proof (cases "interrupted (al_result l)")
    case True
    have "waiting l run (Suc k)" using Suc.prems by (auto simp: waiting_def)
    from Suc.IH [OF approve_once_waiting [OF this True] order_refl] True
    show ?thesis by (simp add: approve_all.simps [of "Suc k"])
  qed (simp add: approve_all.simps)
qed

lemma begin_scenario_cases:
  assumes "begin_scenario su mode sc = Inr (scenario_id, r, st, sys)"
  obtains c d where "inject_scenario sc (build_sandbox (ru_services su) (ru_replicas su)) = (Inr d, c)" "sc_id sc = Some scenario_id"
    "start_workflow (eval_engine su mode) (eval_run_id su mode scenario_id) empty_state
       \<lparr>sys_threads = ru_threads su, sys_world = \<lparr>w_ctx = c, w_audit = [], w_tick = 0\<rparr>\<rparr> = (r, st, sys)"
    "\<not> failed r"
  using assms by (auto simp: begin_scenario_def split: prod.splits sum.splits option.splits if_splits)

text \<open>What the first call leaves on the thread of the run.\<close>

lemma begin_scenario_run:
  assumes "begin_scenario su mode sc = Inr (scenario_id, r, st, sys)"
    and "map_of (ru_threads su) (eval_run_id su mode scenario_id) = None"
  obtains c d cp where "inject_scenario sc (build_sandbox (ru_services su) (ru_replicas su)) = (Inr d, c)"
    "map_of (sys_threads sys) (eval_run_id su mode scenario_id) = Some cp" "st = cp_state cp" "\<not> failed r"
    "invokes (ru_runtime su) (mode \<noteq> No_revalidation) None
       (\<lparr>cp_state = empty_state\<lparr>st_run_id := Some (eval_run_id su mode scenario_id)\<rparr>, cp_next = Some Diagnose\<rparr>,
        \<lparr>w_ctx = c, w_audit = [], w_tick = 0\<rparr>) r (cp, sys_world sys)"
proof -
  let ?run = "eval_run_id su mode scenario_id"
  obtain c d where c: "inject_scenario sc (build_sandbox (ru_services su) (ru_replicas su)) = (Inr d, c)"
    and start: "start_workflow (eval_engine su mode) ?run empty_state
       \<lparr>sys_threads = ru_threads su, sys_world = \<lparr>w_ctx = c, w_audit = [], w_tick = 0\<rparr>\<rparr> = (r, st, sys)"
    and ok: "\<not> failed r"
    using assms(1) by (rule begin_scenario_cases)
  let ?sys = "\<lparr>sys_threads = ru_threads su, sys_world = \<lparr>w_ctx = c, w_audit = [], w_tick = 0\<rparr>\<rparr>"
  have st0: "overlay (thread_state ?sys ?run) (overlay (empty_state\<lparr>st_run_id := Some ?run\<rparr>) empty_state) =
      empty_state\<lparr>st_run_id := Some ?run\<rparr>"
    using assms(2) by (simp add: thread_state_def overlay_def empty_state_def)
  let ?inp = "overlay (empty_state\<lparr>st_run_id := Some ?run\<rparr>) empty_state"
  from start have "run_engine (ru_runtime su) (mode \<noteq> No_revalidation) (ru_limit su) (Input ?inp) ?run ?sys = (r, st, sys)"
    by (simp add: start_workflow_def eval_engine_def)
  from model_engine.input_law [OF this]
  obtain cp where "map_of (sys_threads sys) = (map_of (ru_threads su))(?run \<mapsto> cp)" "st = cp_state cp"
    "invokes (ru_runtime su) (mode \<noteq> No_revalidation) None
       (\<lparr>cp_state = empty_state\<lparr>st_run_id := Some ?run\<rparr>, cp_next = Some Diagnose\<rparr>,
        \<lparr>w_ctx = c, w_audit = [], w_tick = 0\<rparr>) r (cp, sys_world sys)"
    by (auto simp: st0)
  then show ?thesis by (intro that [OF c _ _ ok]) simp_all
qed

text \<open>Three approvals are enough for every scenario, whatever the reasoners answer.\<close>

lemma scenario_returns:
  assumes "3 \<le> fuel" and "\<And>i. map_of (ru_threads su) (eval_run_id su mode i) = None"
  shows "run_scenario fuel su mode sc \<noteq> None"
proof (cases "begin_scenario su mode sc")
  case (Inr x)
  obtain i r st sys where x: "x = (i, r, st, sys)" by (cases x) auto
  let ?run = "eval_run_id su mode i"
  from Inr x obtain cp w0 where cp: "map_of (sys_threads sys) ?run = Some cp"
    and inv: "invokes (ru_runtime su) (mode \<noteq> No_revalidation) None
       (\<lparr>cp_state = empty_state\<lparr>st_run_id := Some ?run\<rparr>, cp_next = Some Diagnose\<rparr>, w0) r (cp, sys_world sys)"
    using begin_scenario_run [OF _ assms(2)] by metis
  have "left (cp_state cp) \<le> 3 \<and> cp_next cp = Some Await" if i: "interrupted r"
  proof -
    from invokes_rank [OF inv] i have aw: "cp_next cp = Some Await" and
      "cp_rank cp \<le> rank Diagnose (empty_state\<lparr>st_run_id := Some ?run\<rparr>)"
      by (simp_all add: cp_rank_def [of "\<lparr>cp_state = _, cp_next = _\<rparr>"])
    then have "11 * left (cp_state cp) - 2 \<le> 35"
      by (simp add: cp_rank_await left_def cycles_def empty_state_def MAX_REPLAN_CYCLES_def)
    with aw show ?thesis by simp
  qed
  with cp have "waiting \<lparr>al_result = r, al_state = st, al_system = with_ctx c sys, al_wait = None,
      al_resume_ms = None, al_drift = None, al_active = t, al_reading = k\<rparr> ?run 3" for c t k
    by (simp add: waiting_def with_ctx_def)
  from approve_all_ends [OF this assms(1)] have
    "finish_scenario fuel su mode sc (i, r, st, sys) \<noteq> None"
    by (simp add: finish_scenario_def Let_def eval_engine_def del: not_None_eq
        split: prod.split sum.split option.split)
  with Inr x show ?thesis by (simp add: run_scenario_def)
qed (simp add: run_scenario_def)

end
