(* ===== verification/Runner_Facts.thy ===== *)
theory Runner_Facts
  imports Runner
begin

text \<open>
  What the records of \<^verbatim>\<open>run_scenario\<close> always say, whatever the reasoners answer: the facts that the
  metrics measure over a suite.
\<close>

section \<open>Inside a run\<close>

lemma approve_all_invariant:
  assumes "approve_all fuel ainvoke run pc wait approver l = Some l'" and "P l"
    and "\<And>x. P x \<Longrightarrow> interrupted (al_result x) \<Longrightarrow> P (approve_once ainvoke run pc wait approver x)"
  shows "P l' \<and> \<not> interrupted (al_result l')"
  using assms(1,2)
proof (induction fuel arbitrary: l)
  case 0
  then show ?case by (auto simp: approve_all.simps split: if_splits)
next
  case (Suc k)
  show ?case
  proof (cases "interrupted (al_result l)")
    case True
    with Suc.prems(1) have "approve_all k ainvoke run pc wait approver
        (approve_once ainvoke run pc wait approver l) = Some l'" by (simp add: approve_all.simps [of "Suc k"])
    from Suc.IH [OF this assms(3) [OF Suc.prems(2) True]] show ?thesis .
  next
    case False
    with Suc.prems show ?thesis by (simp add: approve_all.simps)
  qed
qed

lemma run_scenario_record:
  assumes "run_scenario fuel su mode sc = Some (Inr rn)"
  obtains i r st sys c applied l where
    "begin_scenario su mode sc = Inr (i, r, st, sys)"
    "staleness_window sc (interrupted r) (w_ctx (sys_world sys)) = (Inr applied, c)"
    "approve_all fuel (eval_engine su mode) (eval_run_id su mode i) (ru_clock su) (ru_wait su) (ru_approver su)
       \<lparr>al_result = r, al_state = st, al_system = with_ctx c sys, al_wait = None, al_resume_ms = None,
        al_drift = None, al_active = ru_clock su 2 - ru_clock su 1, al_reading = 3\<rparr> = Some l"
    "\<not> failed (al_result l)"
    "rn = make_record (eval_run_id su mode i) i mode (backend_label su) (ru_usage su) (interrupted r) applied
       (ru_clock su (al_reading l) - ru_clock su 0) l"
proof -
  obtain i r st sys where b: "begin_scenario su mode sc = Inr (i, r, st, sys)"
    and f: "finish_scenario fuel su mode sc (i, r, st, sys) = Some (Inr rn)"
    using assms by (auto simp: run_scenario_def split: sum.splits)
  obtain applied c where w: "staleness_window sc (interrupted r) (w_ctx (sys_world sys)) = (Inr applied, c)"
    using f by (auto simp: finish_scenario_def Let_def split: prod.splits sum.splits)
  let ?l0 = "\<lparr>al_result = r, al_state = st, al_system = with_ctx c sys, al_wait = None, al_resume_ms = None,
      al_drift = None, al_active = ru_clock su 2 - ru_clock su 1, al_reading = 3\<rparr>"
  obtain l where l: "approve_all fuel (eval_engine su mode) (eval_run_id su mode i) (ru_clock su) (ru_wait su)
      (ru_approver su) ?l0 = Some l"
    using f w by (auto simp: finish_scenario_def Let_def split: option.splits)
  from f w l show ?thesis
    by (intro that [OF b w l]) (simp_all add: finish_scenario_def Let_def split: if_splits)
qed

text \<open>What one approval does to the loop, read off the engine.\<close>

lemma approve_once_step:
  assumes "map_of (sys_threads (al_system l)) run = Some cp0" and "cp_next cp0 \<noteq> None"
  obtains cp where
    "map_of (sys_threads (al_system (approve_once (run_engine rt rv limit) run pc wait approver l))) run = Some cp"
    "al_state (approve_once (run_engine rt rv limit) run pc wait approver l) = cp_state cp"
    "invokes rt rv (Some \<lparr>hd_decision = Approved, hd_edited_action = None, hd_approver_id = Some approver\<rparr>)
       (cp0, sys_world (al_system l))
       (al_result (approve_once (run_engine rt rv limit) run pc wait approver l))
       (cp, sys_world (al_system (approve_once (run_engine rt rv limit) run pc wait approver l)))"
proof -
  let ?h = "\<lparr>hd_decision = Approved, hd_edited_action = None, hd_approver_id = Some approver\<rparr>"
  obtain r st sys where r: "run_engine rt rv limit (Resume ?h) run (al_system l) = (r, st, sys)"
    by (cases "run_engine rt rv limit (Resume ?h) run (al_system l)")
  from model_engine.resume_law [OF assms r] obtain cp where
    "map_of (sys_threads sys) = (map_of (sys_threads (al_system l)))(run \<mapsto> cp)" "st = cp_state cp"
    "invokes rt rv (Some ?h) (cp0, sys_world (al_system l)) r (cp, sys_world sys)" by auto
  with r show ?thesis by (intro that) (simp_all add: approve_once_def resume_workflow_def Let_def)
qed

section \<open>The approval gate\<close>

definition quiet :: "node option \<Rightarrow> agent_state \<Rightarrow> bool" where
  "quiet nx st \<longleftrightarrow> nx \<in> {Some Mark_awaiting, Some Await} \<or> st_risk_tier_final st \<in> {None, Some LOW}"

lemma tier_kept:
  assumes "node_fn rt d t n st c = (Inr u, c')" and "n \<noteq> Classify"
  shows "st_risk_tier_final (merge st u) = st_risk_tier_final st"
proof (cases n)
  case Await
  with assms show ?thesis by (cases d) (auto dest!: await_update)
qed (use assms in \<open>auto simp: pure_node_defs
    dest!: diagnose_update propose_update revalidate_update prepare_update
      execute_update verify_update rolling_back_update\<close>)

lemma quiet_step:
  assumes ex: "exec_step rt rv None n st w = (Next nx st', w')" and q: "quiet (Some n) st"
  shows "quiet nx st'"
proof -
  from ex obtain u c where fn: "node_fn rt None (w_tick w) n st (w_ctx w) = (Inr u, c)"
    and st': "st' = merge st u" and nx: "graph_next rv n st' = Inr nx" and aw: "n \<noteq> Await"
    by (rule exec_step_Next) auto
  consider "n = Classify" | "n = Mark_awaiting" | "n \<notin> {Classify, Mark_awaiting, Await}" using aw by blast
  then show ?thesis
  proof cases
    case 1
    with nx show ?thesis by (auto simp: route_simps bindR_Inr_iff quiet_def)
  next
    case 2
    with nx show ?thesis by (simp add: quiet_def)
  next
    case 3
    with q tier_kept [OF fn] show ?thesis by (auto simp: quiet_def st')
  qed
qed

lemma quiet_invokes:
  "invokes rt rv d x r y \<Longrightarrow> d = None \<Longrightarrow> quiet (cp_next (fst x)) (cp_state (fst x)) \<Longrightarrow> r = Returned \<Longrightarrow>
     quiet None (cp_state (fst y))"
proof (induction rule: invokes.induct)
  case (ended d n st w st' w')
  with quiet_step [OF ended(1) [unfolded ended(2)]] show ?case by simp
next
  case (further d n st w n' st' w' r y)
  with quiet_step [OF further(1) [unfolded further.prems(1)]] show ?case by simp
qed simp_all

lemma not_stopped: "\<not> failed r \<Longrightarrow> \<not> interrupted r \<Longrightarrow> r = Returned"
  by (cases r) simp_all

text \<open>A run that ends with a final tier above low has waited for an approval.\<close>

lemma record_gate:
  assumes run: "run_scenario fuel su mode sc = Some (Inr rn)"
    and fresh: "\<And>i. map_of (ru_threads su) (eval_run_id su mode i) = None"
    and tier: "rn_risk_tier_final rn \<in> {Some MEDIUM, Some HIGH}"
  shows "rn_approval_wait_seconds rn \<noteq> None"
proof -
  obtain i r st sys c applied l where b: "begin_scenario su mode sc = Inr (i, r, st, sys)"
    and a: "approve_all fuel (eval_engine su mode) (eval_run_id su mode i) (ru_clock su) (ru_wait su) (ru_approver su)
       \<lparr>al_result = r, al_state = st, al_system = with_ctx c sys, al_wait = None, al_resume_ms = None,
        al_drift = None, al_active = ru_clock su 2 - ru_clock su 1, al_reading = 3\<rparr> = Some l"
    and rn: "rn = make_record (eval_run_id su mode i) i mode (backend_label su) (ru_usage su) (interrupted r) applied
       (ru_clock su (al_reading l) - ru_clock su 0) l"
    using run by (rule run_scenario_record)
  obtain cp w0 where st: "st = cp_state cp" "\<not> failed r" and inv: "invokes (ru_runtime su) (mode \<noteq> No_revalidation) None
      (\<lparr>cp_state = empty_state\<lparr>st_run_id := Some (eval_run_id su mode i)\<rparr>, cp_next = Some Diagnose\<rparr>, w0) r
      (cp, sys_world sys)"
    using begin_scenario_run [OF b fresh] by metis
  have start: "interrupted r \<or> quiet None st"
    using quiet_invokes [OF inv] not_stopped [OF st(2)] st(1)
    by (auto simp: quiet_def [of "Some Diagnose"] empty_state_def)
  have "al_wait l \<noteq> None \<or> interrupted (al_result l) \<or> quiet None (al_state l)"
    using approve_all_invariant [OF a, of "\<lambda>l. al_wait l \<noteq> None \<or> interrupted (al_result l) \<or> quiet None (al_state l)"]
      start by (auto simp: approve_once_def Let_def split_beta)
  moreover have "\<not> interrupted (al_result l)"
    using approve_all_invariant [OF a, of "\<lambda>_. True"] by simp
  ultimately show ?thesis using tier rn by (auto simp: make_record_def Let_def quiet_def)
qed

section \<open>The audit records\<close>

lemma log_inv_ctx: "log_inv rt run cp (w\<lparr>w_ctx := c\<rparr>) = log_inv rt run cp w"
  by (simp add: log_inv_def run_log_def)

lemma invokes_log:
  "invokes rt rv d x r y \<Longrightarrow> mono (rt_clock rt) \<Longrightarrow> log_inv rt run (fst x) (snd x) \<Longrightarrow> \<not> failed r \<Longrightarrow>
     log_inv rt run (fst y) (snd y)"
proof (induction rule: invokes.induct)
  case (suspended d n st w p w')
  then show ?case using exec_suspended [OF suspended(1)] by simp
next
  case (ended d n st w st' w')
  from log_inv_step [OF ended(2) graph_step.node [OF ended(1)]] ended(3) show ?case by simp
next
  case (further d n st w n' st' w' r y)
  from log_inv_step [OF further.prems(1) graph_step.node [OF further(1)]] further.prems
  show ?case by (intro further.IH) simp_all
qed simp_all

text \<open>The thread of the run, as the loop keeps it.\<close>

definition tracks :: "(checkpoint \<Rightarrow> world \<Rightarrow> bool) \<Rightarrow> string \<Rightarrow> approval_loop \<Rightarrow> bool" where
  "tracks P run l \<longleftrightarrow> failed (al_result l) \<or>
     (\<exists>cp. map_of (sys_threads (al_system l)) run = Some cp \<and> al_state l = cp_state cp \<and>
           (interrupted (al_result l) \<longrightarrow> cp_next cp = Some Await) \<and> P cp (sys_world (al_system l)))"

text \<open>
  A fact of checkpoints that every call keeps, and that does not depend on the sandbox, holds when the
  loop ends.
\<close>

lemma record_tracks:
  assumes run: "run_scenario fuel su mode sc = Some (Inr rn)"
    and fresh: "\<And>i. map_of (ru_threads su) (eval_run_id su mode i) = None"
    and init: "\<And>i c. P i \<lparr>cp_state = empty_state\<lparr>st_run_id := Some (eval_run_id su mode i)\<rparr>, cp_next = Some Diagnose\<rparr>
        \<lparr>w_ctx = c, w_audit = [], w_tick = 0\<rparr>"
    and keeps: "\<And>i d x r y. invokes (ru_runtime su) (mode \<noteq> No_revalidation) d x r y \<Longrightarrow> P i (fst x) (snd x) \<Longrightarrow>
        \<not> failed r \<Longrightarrow> P i (fst y) (snd y)"
    and ctx: "\<And>i cp w c. P i cp (w\<lparr>w_ctx := c\<rparr>) = P i cp w"
  obtains i r applied wall l cp where
    "rn = make_record (eval_run_id su mode i) i mode (backend_label su) (ru_usage su) (interrupted r) applied wall l"
    "al_state l = cp_state cp" "P i cp (sys_world (al_system l))"
proof -
  obtain i r st sys c applied l where b: "begin_scenario su mode sc = Inr (i, r, st, sys)"
    and a: "approve_all fuel (eval_engine su mode) (eval_run_id su mode i) (ru_clock su) (ru_wait su) (ru_approver su)
       \<lparr>al_result = r, al_state = st, al_system = with_ctx c sys, al_wait = None, al_resume_ms = None,
        al_drift = None, al_active = ru_clock su 2 - ru_clock su 1, al_reading = 3\<rparr> = Some l"
    and ok: "\<not> failed (al_result l)"
    and rn: "rn = make_record (eval_run_id su mode i) i mode (backend_label su) (ru_usage su) (interrupted r) applied
       (ru_clock su (al_reading l) - ru_clock su 0) l"
    using run by (rule run_scenario_record)
  let ?run = "eval_run_id su mode i" and ?rv = "mode \<noteq> No_revalidation"
  obtain cp c0 where cp: "map_of (sys_threads sys) ?run = Some cp" "st = cp_state cp" "\<not> failed r"
    and inv: "invokes (ru_runtime su) ?rv None
      (\<lparr>cp_state = empty_state\<lparr>st_run_id := Some ?run\<rparr>, cp_next = Some Diagnose\<rparr>,
       \<lparr>w_ctx = c0, w_audit = [], w_tick = 0\<rparr>) r (cp, sys_world sys)"
    using begin_scenario_run [OF b fresh] by metis
  have "P i cp (sys_world sys)" using keeps [OF inv] init cp(3) by simp
  with cp invokes_rank [OF inv] have start: "tracks (P i) ?run \<lparr>al_result = r, al_state = st,
      al_system = with_ctx c sys, al_wait = None, al_resume_ms = None, al_drift = None,
      al_active = ru_clock su 2 - ru_clock su 1, al_reading = 3\<rparr>"
    by (simp add: tracks_def with_ctx_def ctx)
  have step: "tracks (P i) ?run (approve_once (eval_engine su mode) ?run (ru_clock su) (ru_wait su) (ru_approver su) x)"
    if t: "tracks (P i) ?run x" and int: "interrupted (al_result x)" for x
  proof -
    from int have "\<not> failed (al_result x)" by (cases "al_result x") simp_all
    with t int obtain cp0 where cp0: "map_of (sys_threads (al_system x)) ?run = Some cp0" "cp_next cp0 \<noteq> None"
        "P i cp0 (sys_world (al_system x))" by (auto simp: tracks_def)
    show ?thesis unfolding eval_engine_def
      by (rule approve_once_step [OF cp0(1,2), of "ru_runtime su" ?rv "ru_limit su" "ru_clock su" "ru_wait su" "ru_approver su"])
        (use keeps cp0(3) invokes_rank in \<open>fastforce simp: tracks_def\<close>)
  qed
  have "tracks (P i) ?run l" using approve_all_invariant [OF a start step] by blast
  with ok obtain cp' where "al_state l = cp_state cp'" "P i cp' (sys_world (al_system l))"
    by (auto simp: tracks_def)
  then show ?thesis by (rule that [OF rn])
qed

text \<open>The audit records of a run are a complete chain, and every execution in it is cleared.\<close>

lemma record_audit:
  assumes "run_scenario fuel su mode sc = Some (Inr rn)"
    and "\<And>i. map_of (ru_threads su) (eval_run_id su mode i) = None" and "mono (rt_clock (ru_runtime su))"
  shows "is_complete_chain (rn_audit_records rn) \<and> log_gated (rn_audit_records rn)"
proof -
  let ?P = "\<lambda>i. log_inv (ru_runtime su) (eval_run_id su mode i)"
  have init: "?P i \<lparr>cp_state = empty_state\<lparr>st_run_id := Some (eval_run_id su mode i)\<rparr>, cp_next = Some Diagnose\<rparr>
      \<lparr>w_ctx = c, w_audit = [], w_tick = 0\<rparr>" for i c
    by (simp add: log_inv_def run_log_def mem_audit_get_run_def time_ordered_def log_gated_def
        is_complete_chain_def ordered_def empty_state_def)
  obtain i r applied wall l cp where rn: "rn = make_record (eval_run_id su mode i) i mode (backend_label su) (ru_usage su)
      (interrupted r) applied wall l"
    and inv: "?P i cp (sys_world (al_system l))"
    by (rule record_tracks [OF assms(1,2), of ?P, OF init invokes_log [OF _ assms(3)] log_inv_ctx]) auto
  from inv have "is_complete_chain (run_log (eval_run_id su mode i) (sys_world (al_system l)))"
    "log_gated (run_log (eval_run_id su mode i) (sys_world (al_system l)))"
    by (simp_all add: log_inv_def Let_def)
  then show ?thesis by (simp add: rn make_record_def Let_def run_log_def)
qed

section \<open>Drift\<close>

lemma drift_kept:
  assumes "node_fn rt d t n st c = (Inr u, c')" and "n \<noteq> Revalidate"
  shows "st_drift_detected (merge st u) = st_drift_detected st"
proof (cases n)
  case Await
  with assms show ?thesis by (cases d) (auto dest!: await_update)
qed (use assms in \<open>auto simp: pure_node_defs
    dest!: diagnose_update propose_update classify_update prepare_update
      execute_update verify_update rolling_back_update\<close>)

definition no_drift :: "checkpoint \<Rightarrow> bool" where
  "no_drift cp \<longleftrightarrow> cp_next cp \<noteq> Some Revalidate \<and> st_drift_detected (cp_state cp) = None"

lemma no_drift_step:
  assumes ex: "exec_step rt False d n st w = (Next nx st', w')" and "no_drift \<lparr>cp_state = st, cp_next = Some n\<rparr>"
  shows "no_drift \<lparr>cp_state = st', cp_next = nx\<rparr>"
proof -
  from ex obtain u c where fn: "node_fn rt d (w_tick w) n st (w_ctx w) = (Inr u, c)"
    and st': "st' = merge st u" and nx: "graph_next False n st' = Inr nx"
    by (rule exec_step_Next)
  have "nx \<noteq> Some Revalidate"
    using nx next_nodes [OF nx] by (cases n) (auto simp: route_simps bindR_Inr_iff split: if_splits)
  with assms(2) drift_kept [OF fn] show ?thesis by (simp add: no_drift_def st')
qed

lemma no_drift_invokes:
  "invokes rt rv d x r y \<Longrightarrow> \<not> rv \<Longrightarrow> no_drift (fst x) \<Longrightarrow> \<not> failed r \<Longrightarrow> no_drift (fst y)"
proof (induction rule: invokes.induct)
  case (ended d n st w st' w')
  then show ?case using no_drift_step [of rt d n st w None st' w'] by simp
next
  case (further d n st w n' st' w' r y)
  then show ?case using no_drift_step [of rt d n st w "Some n'" st' w'] by simp
qed simp_all

text \<open>Without revalidation no run ever says whether there was drift, whatever the scenario injects.\<close>

lemma record_blind:
  assumes run: "run_scenario fuel su No_revalidation sc = Some (Inr rn)"
    and fresh: "\<And>i. map_of (ru_threads su) (eval_run_id su No_revalidation i) = None"
  shows "rn_drift_detected rn = None \<and> \<not> rn_revalidation_triggered rn"
proof -
  let ?m = No_revalidation
  obtain i r st sys c applied l where b: "begin_scenario su ?m sc = Inr (i, r, st, sys)"
    and a: "approve_all fuel (eval_engine su ?m) (eval_run_id su ?m i) (ru_clock su) (ru_wait su) (ru_approver su)
       \<lparr>al_result = r, al_state = st, al_system = with_ctx c sys, al_wait = None, al_resume_ms = None,
        al_drift = None, al_active = ru_clock su 2 - ru_clock su 1, al_reading = 3\<rparr> = Some l"
    and ok: "\<not> failed (al_result l)"
    and rn: "rn = make_record (eval_run_id su ?m i) i ?m (backend_label su) (ru_usage su) (interrupted r) applied
       (ru_clock su (al_reading l) - ru_clock su 0) l"
    using run by (rule run_scenario_record)
  let ?run = "eval_run_id su ?m i"
  let ?P = "\<lambda>l. failed (al_result l) \<or> al_drift l = None \<and> tracks (\<lambda>cp _. no_drift cp) ?run l"
  obtain cp w0 where cp: "map_of (sys_threads sys) ?run = Some cp" "st = cp_state cp" "\<not> failed r"
    and inv: "invokes (ru_runtime su) (?m \<noteq> No_revalidation) None
      (\<lparr>cp_state = empty_state\<lparr>st_run_id := Some ?run\<rparr>, cp_next = Some Diagnose\<rparr>, w0) r (cp, sys_world sys)"
    using begin_scenario_run [OF b fresh] by metis
  have "no_drift cp" using no_drift_invokes [OF inv] cp(3) by (simp add: no_drift_def empty_state_def)
  with cp invokes_rank [OF inv] have start: "?P \<lparr>al_result = r, al_state = st, al_system = with_ctx c sys,
      al_wait = None, al_resume_ms = None, al_drift = None,
      al_active = ru_clock su 2 - ru_clock su 1, al_reading = 3\<rparr>"
    by (simp add: tracks_def with_ctx_def)
  have step: "?P (approve_once (eval_engine su ?m) ?run (ru_clock su) (ru_wait su) (ru_approver su) x)"
    if t: "?P x" and int: "interrupted (al_result x)" for x
  proof -
    let ?x = "approve_once (eval_engine su ?m) ?run (ru_clock su) (ru_wait su) (ru_approver su) x"
    from int have "\<not> failed (al_result x)" by (cases "al_result x") simp_all
    with t int obtain cp0 where cp0: "map_of (sys_threads (al_system x)) ?run = Some cp0" "cp_next cp0 \<noteq> None"
        "no_drift cp0" "al_drift x = None" by (auto simp: tracks_def)
    obtain cp' where th: "map_of (sys_threads (al_system ?x)) ?run = Some cp'" "al_state ?x = cp_state cp'"
      and inv': "invokes (ru_runtime su) False
         (Some \<lparr>hd_decision = Approved, hd_edited_action = None, hd_approver_id = Some (ru_approver su)\<rparr>)
         (cp0, sys_world (al_system x)) (al_result ?x) (cp', sys_world (al_system ?x))"
      using approve_once_step [OF cp0(1,2), of "ru_runtime su" False "ru_limit su" "ru_clock su" "ru_wait su" "ru_approver su"]
      by (auto simp: eval_engine_def)
    have nd: "failed (al_result ?x) \<or> no_drift cp'" using no_drift_invokes [OF inv'] cp0(3) by auto
    have "al_drift ?x = (case st_drift_detected (al_state ?x) of None \<Rightarrow> al_drift x
        | Some d \<Rightarrow> Some (al_drift x = Some True \<or> d))"
      by (simp add: approve_once_def Let_def split_beta)
    with nd th cp0(4) invokes_rank [OF inv'] show ?thesis by (auto simp: tracks_def no_drift_def)
  qed
  have "?P l" using approve_all_invariant [OF a, of ?P] start step by blast
  with ok rn show ?thesis by (simp add: make_record_def Let_def)
qed

section \<open>Times\<close>

text \<open>A clock that does not go back: the active part of a run is part of its wall-clock time.\<close>

lemma record_times:
  assumes run: "run_scenario fuel su mode sc = Some (Inr rn)" and pc: "mono (ru_clock su)"
  shows "0 \<le> rn_compute_seconds_active rn \<and> rn_compute_seconds_active rn \<le> rn_wall_clock_seconds rn"
proof -
  obtain i r st sys c applied l where
    a: "approve_all fuel (eval_engine su mode) (eval_run_id su mode i) (ru_clock su) (ru_wait su) (ru_approver su)
       \<lparr>al_result = r, al_state = st, al_system = with_ctx c sys, al_wait = None, al_resume_ms = None,
        al_drift = None, al_active = ru_clock su 2 - ru_clock su 1, al_reading = 3\<rparr> = Some l"
    and rn: "rn = make_record (eval_run_id su mode i) i mode (backend_label su) (ru_usage su) (interrupted r) applied
       (ru_clock su (al_reading l) - ru_clock su 0) l"
    using run by (rule run_scenario_record)
  let ?pc = "ru_clock su"
  let ?P = "\<lambda>l. 0 \<le> al_active l \<and> al_active l \<le> ?pc (al_reading l) - ?pc 0"
  have le: "?pc j \<le> ?pc k" if "j \<le> k" for j k using pc that by (rule monoD)
  have start: "?P \<lparr>al_result = r, al_state = st, al_system = with_ctx c sys, al_wait = None, al_resume_ms = None,
        al_drift = None, al_active = ?pc 2 - ?pc 1, al_reading = 3\<rparr>"
    using le [of 1 2] le [of 2 3] le [of 0 1] by simp
  have step: "?P (approve_once ainvoke run ?pc wait approver x)" if "?P x" for ainvoke run wait approver x
    using that le [of "al_reading x" "al_reading x + 1"] le [of "al_reading x + 1" "al_reading x + 2"]
    by (simp add: approve_once_def Let_def split_beta)
  have "?P l" using approve_all_invariant [OF a, of ?P] start step by blast
  with rn show ?thesis by (simp add: make_record_def Let_def)
qed

end
