(* ===== verification/Metrics_Facts.thy ===== *)
theory Metrics_Facts
  imports Metrics
begin

text \<open>
  What the metrics can say: every rate is a percentage, the confusion matrix counts the classified
  runs, and the rates that the evaluation wants to be perfect are perfect on every list of records
  that \<^verbatim>\<open>run_scenario\<close> produced.
\<close>

section \<open>Rates\<close>

definition percentage :: "rat option \<Rightarrow> bool" where
  "percentage v \<longleftrightarrow> (case v of None \<Rightarrow> True | Some x \<Rightarrow> 0 \<le> x \<and> x \<le> 100)"

lemma percentage_pct: "n \<le> d \<Longrightarrow> percentage (pct n d)"
proof -
  assume "n \<le> d"
  then have "of_nat n * 100 \<le> 100 * (of_nat d :: rat)" by simp
  then have "d \<noteq> 0 \<Longrightarrow> (of_nat n :: rat) / of_nat d * 100 \<le> 100" by (simp add: pos_divide_le_eq)
  then show ?thesis by (simp add: percentage_def pct_def)
qed

lemma pct_all: "pct n n \<in> {None, Some 100}"
  by (simp add: pct_def)

lemma pct_full_iff: "n \<le> d \<Longrightarrow> pct n d = Some 100 \<longleftrightarrow> 0 < d \<and> n = d"
  by (auto simp: pct_def field_simps)

lemma pct_None_iff: "pct n d = None \<longleftrightarrow> d = 0"
  by (simp add: pct_def)

lemma count_if_le: "count_if p rs \<le> length rs"
  by (simp add: count_if_def)

lemma count_if_all: "(\<And>r. r \<in> set rs \<Longrightarrow> p r) \<Longrightarrow> count_if p rs = length rs"
proof -
  assume "\<And>r. r \<in> set rs \<Longrightarrow> p r"
  then have "filter p rs = rs" by (simp add: filter_id_conv)
  then show ?thesis by (simp add: count_if_def)
qed

lemma count_if_none: "(\<And>r. r \<in> set rs \<Longrightarrow> \<not> p r) \<Longrightarrow> count_if p rs = 0"
  by (simp add: count_if_def filter_empty_conv)

lemmas rate_defs = unsafe_action_prevention_rate_def approval_gate_compliance_def policy_override_rate_def
  redundancy_floor_override_rate_def state_recovery_correctness_def exactly_once_guarantee_rate_def
  staleness_detection_rate_def diagnosis_accuracy_def remediation_success_rate_def
  rollback_success_rate_def audit_completeness_def

text \<open>Every column of the comparison table is a percentage or \<^verbatim>\<open>n/a\<close>.\<close>

lemma columns_percentage:
  assumes "compute_all_metrics percentile runs scenarios chaos rep = Inr m" and "(label, get) \<in> set ABLATION_COLUMNS"
  shows "percentage (get m)"
  using assms
  by (auto simp: compute_all_metrics_def bindR_Inr_iff ABLATION_COLUMNS_def rate_defs Let_def
      intro!: percentage_pct count_if_le)

section \<open>The confusion matrix\<close>

lemma confusion_at_empty: "confusion_at empty_confusion a p = 0"
  by (simp add: confusion_at_def empty_confusion_def tiers_def)

lemma map_of_map_snd: "map_of (map (\<lambda>(k, v). (k, f k v)) xs) k = map_option (f k) (map_of xs k)"
  by (induction xs) auto

lemma confusion_add_row:
  "map_of (confusion_add q m) a = map_option (\<lambda>row. if a = fst q
     then map (\<lambda>(p, n). (p, if p = snd q then n + 1 else n)) row else row) (map_of m a)"
  unfolding confusion_add_def by (subst map_of_map_snd) simp

lemma confusion_add_at:
  "map_of m a = Some row \<Longrightarrow> map_of row p = Some n \<Longrightarrow>
     confusion_at (confusion_add q m) a p = confusion_at m a p + (if q = (a, p) then 1 else 0)"
  by (cases q) (simp add: confusion_at_def confusion_add_row map_of_map_snd)

text \<open>The rows and columns of the matrix are the tiers, however often it is updated.\<close>

definition tier_matrix :: "confusion \<Rightarrow> bool" where
  "tier_matrix m \<longleftrightarrow> (\<forall>a \<in> set tiers. \<exists>row. map_of m a = Some row \<and> (\<forall>p \<in> set tiers. map_of row p \<noteq> None))"

lemma tier_matrix_empty: "tier_matrix empty_confusion"
  by (simp add: tier_matrix_def empty_confusion_def tiers_def)

lemma tier_matrix_add: "tier_matrix m \<Longrightarrow> tier_matrix (confusion_add q m)"
  unfolding tier_matrix_def confusion_add_row
  by (rule ballI, drule (1) bspec, elim exE conjE) (simp add: map_of_map_snd)

lemma tier_matrixD:
  assumes "tier_matrix m" and "a \<in> set tiers" and "p \<in> set tiers"
  shows "\<exists>row n. map_of m a = Some row \<and> map_of row p = Some n"
proof -
  from assms(1,2) obtain row where "map_of m a = Some row" "\<forall>p \<in> set tiers. map_of row p \<noteq> None"
    unfolding tier_matrix_def by blast
  with assms(3) show ?thesis by blast
qed

lemma confusion_fold:
  assumes "a \<in> set tiers" and "p \<in> set tiers" and "tier_matrix m"
  shows "confusion_at (fold confusion_add qs m) a p = confusion_at m a p + count_if (\<lambda>q. q = (a, p)) qs"
  using assms(3)
proof (induction qs arbitrary: m)
  case Nil
  then show ?case by (simp add: count_if_def)
next
  case (Cons q qs)
  obtain row n where "map_of m a = Some row" "map_of row p = Some n"
    using tier_matrixD [OF Cons.prems assms(1,2)] by blast
  with Cons.IH [OF tier_matrix_add [OF Cons.prems], of q] show ?case
    by (simp add: confusion_add_at count_if_def)
qed

lemma confusion_counts:
  "a \<in> set tiers \<Longrightarrow> p \<in> set tiers \<Longrightarrow>
     confusion_at (cr_confusion_matrix (risk_classification_precision_recall_f1 runs scenarios)) a p =
     count_if (\<lambda>q. q = (a, p)) (tier_pairs runs (index_scenarios scenarios))"
  by (simp add: risk_classification_precision_recall_f1_def Let_def confusion_fold tier_matrix_empty confusion_at_empty)

lemma tier_pairs_tiers: "q \<in> set (tier_pairs runs by_id) \<Longrightarrow> fst q \<in> set tiers \<and> snd q \<in> set tiers"
  by (auto simp: tier_pairs_def split: option.splits if_splits)

lemma count_by:
  "(\<And>q. q \<in> set qs \<Longrightarrow> f q \<in> set ks) \<Longrightarrow> distinct ks \<Longrightarrow>
     sum_list (map (\<lambda>k. count_if (\<lambda>q. f q = k) qs) ks) = length qs"
proof (induction qs)
  case Nil
  then show ?case by (simp add: count_if_def)
next
  case (Cons q qs)
  have "(\<lambda>k. count_if (\<lambda>x. f x = k) (q # qs)) = (\<lambda>k. count_if (\<lambda>x. f x = k) qs + (if f q = k then 1 else 0))"
    by (rule ext) (simp add: count_if_def)
  moreover have "sum_list (map (\<lambda>k. if f q = k then 1 else 0) ks) = (1::nat)"
    using Cons.prems by (simp add: sum_list_distinct_conv_sum_set)
  ultimately show ?case using Cons by (simp add: sum_list_addf)
qed

text \<open>All entries together are the classified runs.\<close>

lemma confusion_total:
  "sum_list (map (\<lambda>a. sum_list (map (\<lambda>p.
      confusion_at (cr_confusion_matrix (risk_classification_precision_recall_f1 runs scenarios)) a p) tiers)) tiers)
   = cr_total_classified (risk_classification_precision_recall_f1 runs scenarios)"
proof -
  let ?qs = "tier_pairs runs (index_scenarios scenarios)"
  have d: "distinct tiers" by (simp add: tiers_def)
  have row: "sum_list (map (\<lambda>p. count_if (\<lambda>q. q = (a, p)) ?qs) tiers) = count_if (\<lambda>q. fst q = a) ?qs" for a
  proof -
    have "count_if (\<lambda>q. q = (a, p)) ?qs = count_if (\<lambda>q. snd q = p) (filter (\<lambda>q. fst q = a) ?qs)" for p
      unfolding count_if_def filter_filter by (rule arg_cong [of _ _ length], rule filter_cong) auto
    with count_by [of "filter (\<lambda>q. fst q = a) ?qs" snd tiers] d show ?thesis
      using tier_pairs_tiers by (auto simp: count_if_def)
  qed
  have "sum_list (map (\<lambda>a. sum_list (map (\<lambda>p.
      confusion_at (cr_confusion_matrix (risk_classification_precision_recall_f1 runs scenarios)) a p) tiers)) tiers)
    = sum_list (map (\<lambda>a. sum_list (map (\<lambda>p. count_if (\<lambda>q. q = (a, p)) ?qs) tiers)) tiers)"
    by (rule arg_cong [of _ _ sum_list], rule map_cong [OF refl], rule arg_cong [of _ _ sum_list],
        rule map_cong [OF refl], rule confusion_counts)
  also have "\<dots> = sum_list (map (\<lambda>a. count_if (\<lambda>q. fst q = a) ?qs) tiers)" by (simp add: row)
  also have "\<dots> = length ?qs" by (rule count_by [OF _ d]) (use tier_pairs_tiers in blast)
  finally show ?thesis by (simp add: risk_classification_precision_recall_f1_def Let_def)
qed

text \<open>The \<open>F1\<close> score is between the smaller and the greater of precision and recall.\<close>

lemma f1_between:
  assumes "f1_score (Some p) (Some r) = Some f" and "0 \<le> p" and "0 \<le> r"
  shows "min p r \<le> f" and "f \<le> max p r"
proof -
  from assms(1) have pos: "0 < p + r" and f: "f = 2 * p * r / (p + r)"
    by (auto simp: f1_score_def split: if_splits)
  have "min p r * (p + r) \<le> 2 * p * r"
    using assms(2,3) mult_left_mono [of p r p] mult_left_mono [of r p r]
    by (cases "p \<le> r") (simp_all add: algebra_simps min_def)
  with pos show "min p r \<le> f" by (simp add: f pos_le_divide_eq)
  have "2 * p * r \<le> max p r * (p + r)"
    using assms(2,3) mult_left_mono [of p r r] mult_left_mono [of r p p]
    by (cases "p \<le> r") (simp_all add: algebra_simps max_def)
  with pos show "f \<le> max p r" by (simp add: f pos_divide_le_eq)
qed

section \<open>Records of the runner\<close>

text \<open>
  A record that \<^verbatim>\<open>run_scenario\<close> returned: on a thread of its own and with clocks that do not go back.
\<close>

definition scenario_run :: "ablation_mode \<Rightarrow> run_record \<Rightarrow> bool" where
  "scenario_run mode rn \<longleftrightarrow> (\<exists>fuel su sc. run_scenario fuel su mode sc = Some (Inr rn) \<and>
     (\<forall>i. map_of (ru_threads su) (eval_run_id su mode i) = None) \<and>
     mono (rt_clock (ru_runtime su)) \<and> mono (ru_clock su))"

lemma scenario_run_facts:
  assumes "scenario_run mode rn"
  shows "rn_risk_tier_final rn \<in> {Some MEDIUM, Some HIGH} \<Longrightarrow> rn_approval_wait_seconds rn \<noteq> None"
    and "is_complete_chain (rn_audit_records rn)" and "log_gated (rn_audit_records rn)"
    and "mode = No_revalidation \<Longrightarrow> rn_drift_detected rn = None"
    and "0 \<le> rn_compute_seconds_active rn" and "rn_compute_seconds_active rn \<le> rn_wall_clock_seconds rn"
proof -
  from assms obtain fuel su sc where run: "run_scenario fuel su mode sc = Some (Inr rn)"
    and fresh: "\<And>i. map_of (ru_threads su) (eval_run_id su mode i) = None"
    and clocks: "mono (rt_clock (ru_runtime su))" "mono (ru_clock su)"
    unfolding scenario_run_def by blast
  show "rn_risk_tier_final rn \<in> {Some MEDIUM, Some HIGH} \<Longrightarrow> rn_approval_wait_seconds rn \<noteq> None"
    using record_gate [OF run fresh] .
  show "is_complete_chain (rn_audit_records rn)" and "log_gated (rn_audit_records rn)"
    using record_audit [OF run fresh clocks(1)] by simp_all
  show "rn_drift_detected rn = None" if "mode = No_revalidation"
    using record_blind run fresh unfolding that by blast
  show "0 \<le> rn_compute_seconds_active rn" and "rn_compute_seconds_active rn \<le> rn_wall_clock_seconds rn"
    using record_times [OF run clocks(2)] by simp_all
qed

lemma gate_compliance_full:
  assumes "\<And>r. r \<in> set runs \<Longrightarrow> \<exists>mode. scenario_run mode r"
  shows "approval_gate_compliance runs \<in> {None, Some 100}"
proof -
  let ?gated = "filter (\<lambda>r. rn_risk_tier_final r \<in> {Some MEDIUM, Some HIGH}) runs"
  have "count_if (\<lambda>r. rn_approval_wait_seconds r \<noteq> None) ?gated = length ?gated"
  proof (rule count_if_all)
    fix r assume "r \<in> set ?gated"
    then have r: "r \<in> set runs" "rn_risk_tier_final r \<in> {Some MEDIUM, Some HIGH}" by auto
    from assms [OF r(1)] obtain mode where "scenario_run mode r" ..
    then show "rn_approval_wait_seconds r \<noteq> None" using r(2) by (rule scenario_run_facts(1))
  qed
  then show ?thesis using pct_all by (simp only: approval_gate_compliance_def Let_def)
qed

lemma audit_completeness_full:
  assumes "\<And>r. r \<in> set runs \<Longrightarrow> \<exists>mode. scenario_run mode r" and "runs \<noteq> []"
  shows "audit_completeness runs = Some 100"
proof -
  have "count_if (\<lambda>r. is_complete_chain (rn_audit_records r)) runs = length runs"
    using assms(1) scenario_run_facts(2) by (intro count_if_all) blast
  with assms(2) show ?thesis by (simp add: audit_completeness_def pct_def)
qed

text \<open>
  Without revalidation nothing is ever detected, and every execution in a scenario that expects
  drift counts as incorrect.
\<close>

lemma blind_detection:
  assumes "\<And>r. r \<in> set runs \<Longrightarrow> scenario_run No_revalidation r"
  shows "sd_detection (staleness_detection_rate runs scenarios) \<in> {None, Some 0} \<and>
    sd_false_drift (staleness_detection_rate runs scenarios) \<in> {None, Some 0}"
proof -
  have none: "rn_drift_detected r = None" if "r \<in> set runs" for r
    using scenario_run_facts(4) [OF assms [OF that]] by simp
  have zero: "count_if (\<lambda>r. rn_drift_detected r = Some True) (filter P runs) = 0" for P
    by (rule count_if_none) (use none in auto)
  show ?thesis unfolding staleness_detection_rate_def Let_def by (simp add: zero) (simp add: pct_def)
qed

lemma blind_incorrect:
  assumes "\<And>r. r \<in> set runs \<Longrightarrow> scenario_run No_revalidation r"
  shows "staleness_incorrect_execution_count runs scenarios =
    count_if (\<lambda>r. rn_executed_actions r \<noteq> [] \<and>
      (case map_of (index_scenarios scenarios) (rn_scenario_id r) of
         None \<Rightarrow> False | Some sc \<Rightarrow> gt_expected_drift_detected sc = Some True)) runs"
proof -
  have "rn_drift_detected r = None" if "r \<in> set runs" for r
    using scenario_run_facts(4) [OF assms [OF that]] by simp
  then show ?thesis unfolding staleness_incorrect_execution_count_def count_if_def
    by (intro arg_cong [of _ _ length] filter_cong) (auto simp: incorrect_execution_def split: option.split)
qed

lemma idle_ratio_unit:
  assumes "\<And>r. r \<in> set runs \<Longrightarrow> \<exists>mode. scenario_run mode r" and "x \<in> set (snd (compute_idle_ratio runs))"
  shows "0 \<le> is_idle_ratio x \<and> is_idle_ratio x \<le> 1"
proof -
  from assms(2) obtain r where r: "r \<in> set runs" "0 < rn_wall_clock_seconds r"
      "is_idle_ratio x = 1 - rn_compute_seconds_active r / rn_wall_clock_seconds r"
    by (auto simp: compute_idle_ratio_def Let_def split: option.splits if_splits)
  with assms(1) scenario_run_facts(5,6) have "0 \<le> rn_compute_seconds_active r"
    "rn_compute_seconds_active r \<le> rn_wall_clock_seconds r" by blast+
  with r show ?thesis by simp
qed

end
