(* ===== verification/Suite.thy ===== *)
theory Suite
  imports Metrics_Facts
begin

text \<open>
  \<^verbatim>\<open>src/eval/run_suite.py\<close>: the suite over the ablation modes, with a file of records per mode that is
  written as it goes, and the resumption of a suite that was cut off. A file is the list of the
  records it holds; what is read back is what was written.
\<close>

section \<open>One mode\<close>

type_synonym files = "(string, run_record list) dict"

definition read_jsonl :: "files \<Rightarrow> string \<Rightarrow> run_record list" where
  "read_jsonl fs path = (case map_of fs path of None \<Rightarrow> [] | Some rs \<Rightarrow> rs)"

definition primary_path :: "ablation_mode \<Rightarrow> string" where
  "primary_path mode = ''runs_'' @ mode_value mode @ ''.jsonl''"

definition mode_output_paths :: "ablation_mode \<Rightarrow> string list" where
  "mode_output_paths mode = [primary_path mode] @ (if mode = Full then [''runs.jsonl''] else [])"

text \<open>\<^verbatim>\<open>p.open(write_mode)\<close>: \<^verbatim>\<open>w\<close> empties the file, \<^verbatim>\<open>a\<close> creates it when it is missing.\<close>

definition open_file :: "bool \<Rightarrow> string \<Rightarrow> files \<Rightarrow> files" where
  "open_file adding path fs = AList.update path (if adding then read_jsonl fs path else []) fs"

definition write_line :: "run_record \<Rightarrow> string \<Rightarrow> files \<Rightarrow> files" where
  "write_line r path fs = AList.update path (read_jsonl fs path @ [r]) fs"

text \<open>The loop over the scenarios: a record is written to every file before the next scenario runs.\<close>

fun run_todo ::
  "(scenario \<Rightarrow> run_result + run_record) \<Rightarrow> string list \<Rightarrow> scenario list \<Rightarrow> run_record list \<Rightarrow> files \<Rightarrow>
   (run_result + run_record list) \<times> files" where
  "run_todo run paths [] recs fs = (Inr recs, fs)"
| "run_todo run paths (sc # scs) recs fs =
     (case run sc of
        Inl e \<Rightarrow> (Inl e, fs)
      | Inr r \<Rightarrow> run_todo run paths scs (recs @ [r]) (fold (write_line r) paths fs))"

definition with_ids :: "scenario list \<Rightarrow> (string \<times> scenario) list result" where
  "with_ids scenarios = collect (map (\<lambda>s. bindR (need ''id'' (sc_id s)) (\<lambda>i. Inr (i, s))) scenarios)"

definition todo_of :: "bool \<Rightarrow> run_record list \<Rightarrow> scenario list \<Rightarrow> scenario list result" where
  "todo_of resume already_done scenarios =
     (if resume then
        bindR (with_ids scenarios)
          (\<lambda>ps. Inr [s. (i, s) \<leftarrow> ps, i \<notin> set (map rn_scenario_id already_done)])
      else Inr scenarios)"

definition run_mode ::
  "(scenario \<Rightarrow> run_result + run_record) \<Rightarrow> ablation_mode \<Rightarrow> scenario list \<Rightarrow> bool \<Rightarrow> files \<Rightarrow>
   (run_result + run_record list) \<times> files" where
  "run_mode run mode scenarios resume fs =
     (let already_done = (if resume then read_jsonl fs (primary_path mode) else []) in
      case todo_of resume already_done scenarios of
        Inl e \<Rightarrow> (Inl (Errored e), fs)
      | Inr todo \<Rightarrow>
          run_todo run (mode_output_paths mode) todo already_done
            (fold (open_file (resume \<and> already_done \<noteq> [])) (mode_output_paths mode) fs))"

section \<open>The suite\<close>

definition ALL_MODES :: "ablation_mode list" where
  "ALL_MODES = [Full, No_durability, No_revalidation]"

text \<open>\<^verbatim>\<open>_checkpointer_for\<close>: the saver of a scenario's run, with its address.\<close>

datatype saver = Postgres_saver string | In_memory_saver

definition checkpointer_for :: "environment \<Rightarrow> ablation_mode \<Rightarrow> saver" where
  "checkpointer_for env mode =
     (let dsn = map_of env ''DATABASE_URL''
      in if mode \<noteq> No_durability \<and> truthy dsn then Postgres_saver (the dsn) else In_memory_saver)"

fun run_modes ::
  "(ablation_mode \<Rightarrow> scenario \<Rightarrow> run_result + run_record) \<Rightarrow> ablation_mode list \<Rightarrow> scenario list \<Rightarrow> bool \<Rightarrow>
   (string, run_record list) dict \<Rightarrow> files \<Rightarrow> (run_result + (string, run_record list) dict) \<times> files" where
  "run_modes run [] scenarios resume d fs = (Inr d, fs)"
| "run_modes run (mode # modes) scenarios resume d fs =
     (case run_mode (run mode) mode scenarios resume fs of
        (Inl e, fs') \<Rightarrow> (Inl e, fs')
      | (Inr recs, fs') \<Rightarrow> run_modes run modes scenarios resume (AList.update (mode_value mode) recs d) fs')"

record suite_summary =
  su_reasoner :: string
  su_checkpointer :: string
  su_scenario_count :: nat
  su_modes_run :: "ablation_mode list"
  su_by_mode :: "(string, metrics_summary) dict"
  su_staleness_incorrect :: "(string, nat) dict"
  su_table :: "string option"

definition summarise ::
  "environment \<Rightarrow> (rat list \<Rightarrow> rat \<Rightarrow> rat) \<Rightarrow> ablation_mode list \<Rightarrow> scenario list \<Rightarrow> (string, run_record list) dict \<Rightarrow>
   suite_summary result" where
  "summarise env percentile modes scenarios results_by_mode =
     bindR (collect (map ground_truth_of scenarios)) (\<lambda>truths.
     bindR (collect (map (\<lambda>(mode, recs). bindR (compute_all_metrics percentile recs truths None None)
              (\<lambda>m. Inr (mode, m))) results_by_mode)) (\<lambda>by_mode.
     bindR (if length results_by_mode > 1
            then bindR (ablation_comparison_table percentile results_by_mode truths) (\<lambda>t. Inr (Some t))
            else Inr None) (\<lambda>table.
       Inr \<lparr>su_reasoner = reasoner_used env,
            su_checkpointer = (if truthy (map_of env ''DATABASE_URL'') then ''postgres'' else ''in-memory-fallback''),
            su_scenario_count = length scenarios, su_modes_run = modes, su_by_mode = by_mode,
            su_staleness_incorrect = map (\<lambda>(mode, recs).
              (mode, staleness_incorrect_execution_count recs truths)) results_by_mode,
            su_table = table\<rparr>)))"

definition run_suite ::
  "environment \<Rightarrow> (rat list \<Rightarrow> rat \<Rightarrow> rat) \<Rightarrow> (ablation_mode \<Rightarrow> scenario \<Rightarrow> run_result + run_record) \<Rightarrow> ablation_mode list \<Rightarrow>
   string list option \<Rightarrow> bool \<Rightarrow> scenario list \<Rightarrow> files \<Rightarrow> (run_result + suite_summary) \<times> files" where
  "run_suite env percentile run modes scenario_ids resume all_scenarios fs =
     (case (case scenario_ids of
              None \<Rightarrow> Inr all_scenarios
            | Some ids \<Rightarrow> (if ids = [] then Inr all_scenarios
                else bindR (with_ids all_scenarios) (\<lambda>ps. Inr [s. (i, s) \<leftarrow> ps, i \<in> set ids]))) of
        Inl e \<Rightarrow> (Inl (Errored e), fs)
      | Inr scenarios \<Rightarrow>
          (case run_modes run modes scenarios resume [] fs of
             (Inl e, fs') \<Rightarrow> (Inl e, fs')
           | (Inr d, fs') \<Rightarrow>
               ((case summarise env percentile modes scenarios d of Inl e \<Rightarrow> Inl (Errored e) | Inr s \<Rightarrow> Inr s), fs')))"

section \<open>A suite that was cut off\<close>

lemma read_write_line [simp]:
  "read_jsonl (write_line r path fs) q = (if q = path then read_jsonl fs path @ [r] else read_jsonl fs q)"
  by (simp add: read_jsonl_def write_line_def update_conv')

lemma read_open_file [simp]:
  "read_jsonl (open_file a path fs) q = (if q = path then (if a then read_jsonl fs path else []) else read_jsonl fs q)"
  by (simp add: read_jsonl_def open_file_def update_conv')

lemma read_write_all:
  "distinct paths \<Longrightarrow> read_jsonl (fold (write_line r) paths fs) q =
     (if q \<in> set paths then read_jsonl fs q @ [r] else read_jsonl fs q)"
  by (induction paths arbitrary: fs) auto

lemma read_open_all:
  "distinct paths \<Longrightarrow> read_jsonl (fold (open_file a) paths fs) q =
     (if q \<in> set paths then (if a then read_jsonl fs q else []) else read_jsonl fs q)"
  by (induction paths arbitrary: fs) auto

lemma paths_distinct: "distinct (mode_output_paths mode)"
  by (cases mode) (simp_all add: mode_output_paths_def primary_path_def)

text \<open>
  What a pass over scenarios leaves, whether it ends or is cut off: a file that held the records so
  far holds them and those of a prefix of the scenarios.
\<close>

definition names_scenario :: "(scenario \<Rightarrow> run_result + run_record) \<Rightarrow> bool" where
  "names_scenario run \<longleftrightarrow> (\<forall>sc r. run sc = Inr r \<longrightarrow> sc_id sc = Some (rn_scenario_id r))"

lemma run_todo_files:
  assumes "run_todo run paths scs recs fs = (res, fs')" and "names_scenario run" and "distinct paths"
    and "\<And>p. p \<in> set paths \<Longrightarrow> read_jsonl fs p = recs"
  shows "\<exists>new rest. map sc_id scs = map (Some \<circ> rn_scenario_id) new @ rest \<and>
    (\<forall>p \<in> set paths. read_jsonl fs' p = recs @ new) \<and>
    (\<forall>rs. res = Inr rs \<longrightarrow> rs = recs @ new \<and> rest = [])"
  using assms
proof (induction scs arbitrary: recs fs)
  case Nil
  then show ?case by auto
next
  case (Cons sc scs)
  show ?case
  proof (cases "run sc")
    case (Inl e)
    with Cons.prems have "fs' = fs" "res = Inl e" by auto
    with Cons.prems(4) show ?thesis by (intro exI [of _ "[]"] exI [of _ "map sc_id (sc # scs)"]) simp
  next
    case (Inr r)
    with Cons.prems(1) have go: "run_todo run paths scs (recs @ [r]) (fold (write_line r) paths fs) = (res, fs')"
      by simp
    have "read_jsonl (fold (write_line r) paths fs) p = recs @ [r]" if "p \<in> set paths" for p
      using that Cons.prems(3,4) by (simp add: read_write_all)
    from Cons.IH [OF go Cons.prems(2,3) this] obtain new rest where
      ih: "map sc_id scs = map (Some \<circ> rn_scenario_id) new @ rest"
        "\<forall>p \<in> set paths. read_jsonl fs' p = (recs @ [r]) @ new"
        "\<forall>rs. res = Inr rs \<longrightarrow> rs = (recs @ [r]) @ new \<and> rest = []" by blast
    have "sc_id sc = Some (rn_scenario_id r)" using Cons.prems(2) Inr by (simp add: names_scenario_def)
    with ih show ?thesis by (intro exI [of _ "r # new"] exI [of _ rest]) simp
  qed
qed

lemma collect_tag_ids:
  "map sc_id scs = map Some is \<Longrightarrow> with_ids scs = Inr (zip is scs)"
proof (induction scs arbitrary: "is")
  case Nil
  then show ?case by (simp add: with_ids_def)
next
  case (Cons sc scs)
  then obtain i js where "is = i # js" "sc_id sc = Some i" "map sc_id scs = map Some js"
    by (cases "is") auto
  with Cons.IH [of js] show ?case by (simp add: with_ids_def)
qed

lemma todo_of_resume:
  assumes "map sc_id scs = map Some is"
  shows "todo_of True done scs = Inr (filter (\<lambda>s. sc_id s \<notin> Some ` set (map rn_scenario_id done)) scs)"
proof -
  have "[s. (i, s) \<leftarrow> zip is scs, i \<notin> D] = filter (\<lambda>s. sc_id s \<notin> Some ` D) scs" for D
    using assms
  proof (induction scs arbitrary: "is")
    case (Cons sc scs)
    then obtain i js where "is = i # js" "sc_id sc = Some i" "map sc_id scs = map Some js"
      by (cases "is") auto
    with Cons.IH [of js] show ?case by auto
  qed simp
  then show ?thesis by (simp add: todo_of_def collect_tag_ids [OF assms])
qed

lemma filter_prefix:
  assumes "distinct (xs @ ys)"
  shows "filter (\<lambda>x. x \<notin> set xs) (xs @ ys) = ys"
  using assms by (auto simp: filter_empty_conv filter_id_conv)

text \<open>
  A mode that was cut off and is resumed has, when the second pass ends, one record for every
  scenario in the order of the file, and keeps the records of the first pass.
\<close>

lemma resumed_mode:
  assumes first: "run_mode run1 mode scs False fs = (Inl e, fs1)"
    and second: "run_mode run2 mode scs True fs1 = (Inr recs, fs2)"
    and ids: "map sc_id scs = map Some is" "distinct is"
    and named: "names_scenario run1" "names_scenario run2"
  shows "map rn_scenario_id recs = is \<and>
    (\<forall>p \<in> set (mode_output_paths mode). read_jsonl fs2 p = recs) \<and>
    take (length (read_jsonl fs1 (primary_path mode))) recs = read_jsonl fs1 (primary_path mode)"
proof -
  let ?paths = "mode_output_paths mode"
  have prim: "primary_path mode \<in> set ?paths" by (simp add: mode_output_paths_def)
  from first have "run_todo run1 ?paths scs [] (fold (open_file False) ?paths fs) = (Inl e, fs1)"
    by (simp add: run_mode_def todo_of_def)
  from run_todo_files [OF this named(1) paths_distinct] obtain new rest where
    1: "map sc_id scs = map (Some \<circ> rn_scenario_id) new @ rest" "\<forall>p \<in> set ?paths. read_jsonl fs1 p = new"
    by (auto simp: read_open_all [OF paths_distinct])
  let ?n = "length new"
  have d: "distinct (map sc_id scs)" using ids by (simp add: distinct_map)
  have new: "read_jsonl fs1 (primary_path mode) = new" using 1(2) prim by blast
  let ?todo = "filter (\<lambda>s. sc_id s \<notin> Some ` set (map rn_scenario_id new)) scs"
  have "map sc_id ?todo = filter (\<lambda>i. i \<notin> Some ` set (map rn_scenario_id new)) (map sc_id scs)"
    by (simp add: filter_map comp_def)
  also have "\<dots> = rest"
    using filter_prefix [of "map (Some \<circ> rn_scenario_id) new" rest] d 1(1) by (simp add: image_comp)
  finally have todo: "map sc_id ?todo = rest" .
  from second have go: "run_todo run2 ?paths ?todo new (fold (open_file (new \<noteq> [])) ?paths fs1) = (Inr recs, fs2)"
    by (simp add: run_mode_def Let_def new todo_of_resume [OF ids(1)])
  have opened: "read_jsonl (fold (open_file (new \<noteq> [])) ?paths fs1) p = new" if "p \<in> set ?paths" for p
    using that 1(2) by (simp add: read_open_all [OF paths_distinct])
  obtain more left_over where "map sc_id ?todo = map (Some \<circ> rn_scenario_id) more @ left_over"
    "\<forall>p \<in> set ?paths. read_jsonl fs2 p = new @ more"
    "\<forall>rs. (Inr recs :: run_result + run_record list) = Inr rs \<longrightarrow> rs = new @ more \<and> left_over = []"
    using run_todo_files [OF go named(2) paths_distinct opened] by blast
  then have 2: "map sc_id ?todo = map (Some \<circ> rn_scenario_id) more"
    "\<forall>p \<in> set ?paths. read_jsonl fs2 p = new @ more" "recs = new @ more" by simp_all
  have "map Some (map rn_scenario_id recs) = map Some is"
    using 1(1) 2(1,3) todo ids(1) by (simp add: comp_def)
  then have "map rn_scenario_id recs = is" unfolding inj_map_eq_map [OF inj_Some] .
  with 2 new show ?thesis by simp
qed

text \<open>The runs that the suite makes: each on a setup of its own, with the fuel that always does.\<close>

definition eval_run :: "(scenario \<Rightarrow> run_setup) \<Rightarrow> ablation_mode \<Rightarrow> scenario \<Rightarrow> run_result + run_record" where
  "eval_run setup mode sc =
     (case run_scenario 3 (setup sc) mode sc of None \<Rightarrow> Inl Library_error | Some r \<Rightarrow> r)"

lemma record_scenario_id:
  assumes "run_scenario fuel su mode sc = Some (Inr rn)"
  shows "sc_id sc = Some (rn_scenario_id rn)"
proof -
  obtain i r st sys c applied l where b: "begin_scenario su mode sc = Inr (i, r, st, sys)"
    and rn: "rn = make_record (eval_run_id su mode i) i mode (backend_label su) (ru_usage su)
       (interrupted r) applied (ru_clock su (al_reading l) - ru_clock su 0) l"
    using assms by (rule run_scenario_record)
  have "sc_id sc = Some i" using b by (rule begin_scenario_cases)
  then show ?thesis by (simp add: rn make_record_def Let_def)
qed

lemma eval_run_names: "names_scenario (eval_run setup mode)"
  by (auto simp: names_scenario_def eval_run_def record_scenario_id split: option.splits)

end
