(* ===== verification/Eval_Demo.thy ===== *)
theory Eval_Demo
  imports Demo Suite
begin

text \<open>
  A scenario of the shape of \<^verbatim>\<open>data/scenarios.json\<close> and the harness around it, with the heuristic
  agent: the runs on which the properties of the evaluation are instantiated.
\<close>

definition leak_scenario :: scenario where
  "leak_scenario =
     \<lparr>sc_id = Some ''s001'', sc_name = Some ''leak'', sc_category = Some ''medium_high_risk'',
      sc_fault_injection = Some \<lparr>f_service = Some ''service_a'', f_type = Some ''memory_leak'', f_rate = Some ''high''\<rparr>,
      sc_expected_diagnosis = Some ''leak'', sc_correct_actions = Some [''restart_service:service_a''],
      sc_acceptable_actions = Some [''restart_service:service_a''],
      sc_forbidden_actions = Some [''delete_records:*''], sc_expected_risk_tier = Some ''medium'',
      sc_verification = Some [], sc_staleness_injection = None, sc_expected_drift_detected = None\<rparr>"

definition eval_setup :: run_setup where
  "eval_setup =
     \<lparr>ru_runtime = heuristic_context (scripted [] [] LOW), ru_limit = 25,
      ru_classifier = None, ru_env = [], ru_usage = (10, 3), ru_clock = (\<lambda>k. of_nat k), ru_wait = 2,
      ru_approver = ''eval-harness'', ru_suffix = ''0'', ru_threads = [], ru_services = None, ru_replicas = None\<rparr>"

definition disk_scenario :: scenario where
  "disk_scenario = leak_scenario
     \<lparr>sc_id := Some ''s002'', sc_category := Some ''low_risk'',
      sc_fault_injection := Some \<lparr>f_service = Some ''service_c'', f_type = Some ''disk_full'', f_rate = Some ''high''\<rparr>,
      sc_correct_actions := Some [''clear_cache:service_c''],
      sc_acceptable_actions := Some [''clear_cache:service_c''], sc_expected_risk_tier := Some ''low''\<rparr>"

definition full_record :: run_record where
  "full_record = projr (the (run_scenario 3 eval_setup Full leak_scenario))"

definition blind_record :: run_record where
  "blind_record = projr (the (run_scenario 3 eval_setup No_revalidation leak_scenario))"

text \<open>What the evaluation of the two runs gives.\<close>

definition healed :: "(run_result + run_record) option \<Rightarrow> bool" where
  "healed out = (case out of
     Some (Inr rn) \<Rightarrow> rn_final_state rn = Some COMPLETED \<and> rn_risk_tier_final rn = Some MEDIUM \<and>
       rn_executed_actions rn = [''restart_service:service_a''] \<and>
       rn_approval_wait_seconds rn = Some 2 \<and> 0 < rn_wall_clock_seconds rn
   | _ \<Rightarrow> False)"

lemma full_healed: "healed (run_scenario 3 eval_setup Full leak_scenario)"
  by code_simp

lemma blind_healed: "healed (run_scenario 3 eval_setup No_revalidation leak_scenario)"
  by code_simp

lemma disk_healed:
  "case run_scenario 3 eval_setup Full disk_scenario of
     Some (Inr rn) \<Rightarrow> rn_final_state rn = Some COMPLETED \<and> rn_executed_actions rn = [''clear_cache:service_c'']
   | _ \<Rightarrow> False"
  by code_simp

lemma healedE: "healed out \<Longrightarrow> out = Some (Inr (projr (the out))) \<and>
    rn_executed_actions (projr (the out)) = [''restart_service:service_a''] \<and>
    rn_risk_tier_final (projr (the out)) = Some MEDIUM \<and>
    rn_approval_wait_seconds (projr (the out)) = Some 2 \<and> 0 < rn_wall_clock_seconds (projr (the out))"
  by (auto simp: healed_def split: option.splits sum.splits)

lemma full_run: "run_scenario 3 eval_setup Full leak_scenario = Some (Inr full_record)"
  and full_executed: "rn_executed_actions full_record = [''restart_service:service_a'']"
  and full_tier: "rn_risk_tier_final full_record = Some MEDIUM"
  and full_waited: "rn_approval_wait_seconds full_record = Some 2" "0 < rn_wall_clock_seconds full_record"
  using healedE [OF full_healed] unfolding full_record_def by simp_all

lemma blind_run: "run_scenario 3 eval_setup No_revalidation leak_scenario = Some (Inr blind_record)"
  and blind_executed: "rn_executed_actions blind_record = [''restart_service:service_a'']"
  using healedE [OF blind_healed] unfolding blind_record_def by simp_all

definition disk_record :: run_record where
  "disk_record = projr (the (run_scenario 3 eval_setup Full disk_scenario))"

lemma disk_run: "run_scenario 3 eval_setup Full disk_scenario = Some (Inr disk_record)"
  using disk_healed unfolding disk_record_def by (auto split: option.splits sum.splits)

lemma eval_setup_simps [simp]:
  "map_of (ru_threads eval_setup) i = None" "mono (ru_clock eval_setup)"
  "mono (rt_clock (ru_runtime eval_setup))"
  by (simp_all add: eval_setup_def heuristic_context_def scripted_def mono_def)

lemma full_scenario_run: "scenario_run Full full_record"
  unfolding scenario_run_def by (intro exI conjI, rule full_run) simp_all

lemma blind_scenario_run: "scenario_run No_revalidation blind_record"
  unfolding scenario_run_def by (intro exI conjI, rule blind_run) simp_all

end
