(* ===== verification/Chaos.thy ===== *)
theory Chaos
  imports Approved_Run Fault_Injector
begin

text \<open>
  \<^verbatim>\<open>src/chaos/\<close>: the scripted agent process that the harness starts and kills, the five trials of
  \<^verbatim>\<open>harness.py\<close> as functions of the sandbox and of what the processes leave behind, and the
  pass-rate table. A process that is killed at a mark leaves its checkpoints and the effects
  that happened before the mark; starting again on the same thread restarts from the first node,
  as the comments in the harness say. The stores of the agent process behave as the ones in memory.
\<close>

section \<open>The agent process\<close>

text \<open>
  \<^verbatim>\<open>_build_context\<close>: the scripted reasoner and classifier; the clock and the rest of the outside
  come from \<open>ext\<close>.
\<close>

definition chaos_context :: "runtime \<Rightarrow> string \<Rightarrow> string \<Rightarrow> risk_tier \<Rightarrow> runtime" where
  "chaos_context ext tool target tier = ext
     \<lparr>rt_diagnose := (\<lambda>_ _. Inr (''chaos stub diagnosis for '' @ target)),
      rt_propose := (\<lambda>_ _ _ _. Inr \<lparr>pr_tool = tool, pr_target = target, pr_parameters = Some [],
                                     pr_rationale = ''chaos stub rationale''\<rparr>),
      rt_classify := (\<lambda>_ _ _ _ _. Inr \<lparr>cl_tier = tier, cl_rationale = ''chaos stub''\<rparr>)\<rparr>"

lemma chaos_context_scripted:
  "svc \<in> set KNOWN_SERVICES \<Longrightarrow> scripted_restart (chaos_context ext ''restart_service'' svc tier) svc tier"
  by (simp add: scripted_restart_def chaos_context_def)

text \<open>
  What \<^verbatim>\<open>_start\<close> and \<^verbatim>\<open>_resume\<close> print; \<open>None\<close> is an exit code other than 0: an exception, or, when
  \<^verbatim>\<open>CHAOS_DIE_AFTER_INTERRUPT\<close> is set, the exit right after a suspension.
\<close>

record start_report =
  sr_status :: "wf_state option"
  sr_suspended :: bool

record resume_report =
  rr_status :: "wf_state option"
  rr_final_state :: "wf_state option"
  rr_verification_passed :: "bool option"
  rr_suspended :: bool

definition agent_start :: "bool \<Rightarrow> engine \<Rightarrow> string \<Rightarrow> system \<Rightarrow> start_report option \<times> system" where
  "agent_start dies ainvoke run_id sys =
     (case start_workflow ainvoke run_id empty_state sys of (r, result, sys') \<Rightarrow>
        (if failed r \<or> (interrupted r \<and> dies) then None
         else Some \<lparr>sr_status = st_status result, sr_suspended = interrupted r\<rparr>, sys'))"

definition agent_resume ::
  "engine \<Rightarrow> string \<Rightarrow> human_decision \<Rightarrow> system \<Rightarrow> resume_report option \<times> system" where
  "agent_resume ainvoke run_id decision sys =
     (case resume_workflow ainvoke run_id decision sys of (r, result, sys') \<Rightarrow>
        (if failed r then None
         else Some \<lparr>rr_status = st_status result, rr_final_state = st_final_state result,
                    rr_verification_passed = st_verification_passed result,
                    rr_suspended = interrupted r\<rparr>, sys'))"

section \<open>Killing a process\<close>

text \<open>
  The marks of \<^verbatim>\<open>src/agent/nodes.py\<close>: \<^verbatim>\<open>diagnose\<close> marks before its sweep, \<^verbatim>\<open>execute\<close> and
  \<^verbatim>\<open>rolling_back\<close> after their effect.
\<close>

fun mark_of :: "node \<Rightarrow> string option" where
  "mark_of Diagnose = Some ''DIAGNOSING''"
| "mark_of Execute = Some ''EXECUTING''"
| "mark_of Rolling_back = Some ''ROLLING_BACK''"
| "mark_of _ = None"

definition at_mark :: "runtime \<Rightarrow> node \<Rightarrow> agent_state \<Rightarrow> world \<Rightarrow> world option" where
  "at_mark rt n st w =
     (if n = Diagnose then Some w
      else (case node_fn rt None (w_tick w) n st (w_ctx w) of
              (Inl e, c) \<Rightarrow> None
            | (Inr u, c) \<Rightarrow> Some (w\<lparr>w_ctx := c\<rparr>)))"

text \<open>
  A start that is killed when its output shows the mark: the checkpoint of the step before, and
  the world with the effect of the node. \<open>None\<close> where the process exits without the mark.
\<close>

fun run_until_mark ::
  "string \<Rightarrow> runtime \<Rightarrow> bool \<Rightarrow> nat \<Rightarrow> node \<Rightarrow> agent_state \<Rightarrow> world \<Rightarrow> (checkpoint \<times> world) option" where
  "run_until_mark kill rt rv 0 n st w = None"
| "run_until_mark kill rt rv (Suc k) n st w =
     (if mark_of n = Some kill
      then map_option (\<lambda>w'. (\<lparr>cp_state = st, cp_next = Some n\<rparr>, w')) (at_mark rt n st w)
      else (case exec_step rt rv None n st w of
              (Next (Some n') st', w') \<Rightarrow> run_until_mark kill rt rv k n' st' w'
            | _ \<Rightarrow> None))"

definition killed_start :: "string \<Rightarrow> runtime \<Rightarrow> nat \<Rightarrow> string \<Rightarrow> system \<Rightarrow> system option" where
  "killed_start kill rt limit run_id sys =
     map_option (\<lambda>(cp, w). \<lparr>sys_threads = AList.update run_id cp (sys_threads sys), sys_world = w\<rparr>)
       (run_until_mark kill rt True limit Diagnose
          (overlay (thread_state sys run_id) (empty_state\<lparr>st_run_id := Some run_id\<rparr>)) (sys_world sys))"

section \<open>The trials\<close>

record kill_point_result =
  kp_name :: string
  kp_passed :: bool
  kp_detail :: string

text \<open>The lines that the process prints, decoded and dumped again for the detail of a result.\<close>

definition start_json :: "start_report \<Rightarrow> pydict" where
  "start_json r =
     [(''status'', optional (\<lambda>s. PStr (state_value s)) (sr_status r)), (''suspended'', PBool (sr_suspended r))]"

definition resume_json :: "resume_report \<Rightarrow> pydict" where
  "resume_json r =
     [(''status'', optional (\<lambda>s. PStr (state_value s)) (rr_status r)),
      (''final_state'', optional (\<lambda>s. PStr (state_value s)) (rr_final_state r)),
      (''verification_passed'', optional PBool (rr_verification_passed r)),
      (''suspended'', PBool (rr_suspended r))]"

abbreviation detail_of :: "runtime \<Rightarrow> pydict \<Rightarrow> string" where
  "detail_of ext d \<equiv> json_dumps False (rt_float ext) (PDict d)"

definition services_reset :: "system \<Rightarrow> system" where
  "services_reset sys = sys\<lparr>sys_world := (sys_world sys)
     \<lparr>w_ctx := snd (reset_each KNOWN_SERVICES (w_ctx (sys_world sys)))\<rparr>\<rparr>"

definition services_inject_fault :: "string \<Rightarrow> fault_type \<Rightarrow> fault_rate \<Rightarrow> system \<Rightarrow> system" where
  "services_inject_fault service f r sys = sys\<lparr>sys_world := (sys_world sys)
     \<lparr>w_ctx := snd (http_post service (app_admin_fault f r) (w_ctx (sys_world sys)))\<rparr>\<rparr>"

definition service_restarts :: "string \<Rightarrow> system \<Rightarrow> int option" where
  "service_restarts service sys =
     (case http_get service app_metrics (w_ctx (sys_world sys)) of
        Inl _ \<Rightarrow> None | Inr m \<Rightarrow> Some (m_restart_count m))"

definition chaos_decision :: human_decision where
  "chaos_decision = \<lparr>hd_decision = Approved, hd_edited_action = None, hd_approver_id = Some ''chaos-harness''\<rparr>"

abbreviation chaos_engine :: "runtime \<Rightarrow> nat \<Rightarrow> engine" where
  "chaos_engine rt limit \<equiv> run_engine rt True limit"

text \<open>
  Every trial takes the run id that the harness draws and what a process that fails would write to its
  standard error, and returns what the system is after it.
\<close>

definition trial_during_diagnosing :: "runtime \<Rightarrow> string \<Rightarrow> nat \<Rightarrow> string \<Rightarrow> system \<Rightarrow> kill_point_result \<times> system" where
  "trial_during_diagnosing ext err limit run_id sys0 =
     (let name = ''during DIAGNOSING'';
          rt = chaos_context ext ''restart_service'' ''service_a'' LOW;
          sys = services_reset sys0 in
      case killed_start ''DIAGNOSING'' rt limit run_id sys of
        None \<Rightarrow>
          (\<lparr>kp_name = name, kp_passed = False, kp_detail = ''marker never observed before process exited''\<rparr>, sys)
      | Some sys1 \<Rightarrow>
          (case agent_start False (chaos_engine rt limit) run_id sys1 of
             (None, sys2) \<Rightarrow> (\<lparr>kp_name = name, kp_passed = False, kp_detail = ''resume failed: '' @ err\<rparr>, sys2)
           | (Some result, sys2) \<Rightarrow>
               (\<lparr>kp_name = name, kp_passed = (sr_status result = Some COMPLETED),
                 kp_detail = detail_of ext (start_json result)\<rparr>, sys2)))"

text \<open>The first process dies after its suspension is persisted, without printing.\<close>

definition trial_immediately_after_interrupt ::
  "runtime \<Rightarrow> string \<Rightarrow> nat \<Rightarrow> string \<Rightarrow> system \<Rightarrow> kill_point_result \<times> system" where
  "trial_immediately_after_interrupt ext err limit run_id sys0 =
     (let name = ''immediately after interrupt() fires'';
          rt = chaos_context ext ''restart_service'' ''service_a'' MEDIUM;
          rt2 = chaos_context ext ''restart_service'' ''service_a'' LOW;
          sys1 = snd (agent_start True (chaos_engine rt limit) run_id (services_reset sys0)) in
      case agent_resume (chaos_engine rt2 limit) run_id chaos_decision sys1 of
        (None, sys2) \<Rightarrow> (\<lparr>kp_name = name, kp_passed = False, kp_detail = ''resume failed: '' @ err\<rparr>, sys2)
      | (Some result, sys2) \<Rightarrow>
          (\<lparr>kp_name = name, kp_passed = (rr_status result = Some COMPLETED),
                 kp_detail = detail_of ext (resume_json result)\<rparr>, sys2))"

definition trial_during_approval_wait ::
  "runtime \<Rightarrow> string \<Rightarrow> nat \<Rightarrow> string \<Rightarrow> system \<Rightarrow> kill_point_result \<times> system" where
  "trial_during_approval_wait ext err limit run_id sys0 =
     (let name = ''during the approval wait'';
          rt = chaos_context ext ''restart_service'' ''service_a'' MEDIUM;
          rt2 = chaos_context ext ''restart_service'' ''service_a'' LOW in
      case agent_start False (chaos_engine rt limit) run_id (services_reset sys0) of
        (None, sys1) \<Rightarrow> (\<lparr>kp_name = name, kp_passed = False, kp_detail = ''start failed: '' @ err\<rparr>, sys1)
      | (Some begun, sys1) \<Rightarrow>
          if \<not> sr_suspended begun
          then (\<lparr>kp_name = name, kp_passed = False, kp_detail = ''did not suspend''\<rparr>, sys1)
          else (case agent_resume (chaos_engine rt2 limit) run_id chaos_decision sys1 of
             (None, sys2) \<Rightarrow> (\<lparr>kp_name = name, kp_passed = False, kp_detail = ''resume failed: '' @ err\<rparr>, sys2)
           | (Some result, sys2) \<Rightarrow>
               (\<lparr>kp_name = name, kp_passed = (rr_status result = Some COMPLETED),
                 kp_detail = detail_of ext (resume_json result)\<rparr>, sys2)))"

definition trial_mid_executing :: "runtime \<Rightarrow> string \<Rightarrow> nat \<Rightarrow> string \<Rightarrow> system \<Rightarrow> kill_point_result \<times> system" where
  "trial_mid_executing ext err limit run_id sys0 =
     (let name = ''mid-EXECUTING (idempotency)'';
          rt = chaos_context ext ''restart_service'' ''service_a'' LOW;
          sys = services_reset sys0 in
      case killed_start ''EXECUTING'' rt limit run_id sys of
        None \<Rightarrow>
          (\<lparr>kp_name = name, kp_passed = False, kp_detail = ''marker never observed before process exited''\<rparr>, sys)
      | Some sys1 \<Rightarrow>
          (case agent_start False (chaos_engine rt limit) run_id sys1 of
             (None, sys2) \<Rightarrow> (\<lparr>kp_name = name, kp_passed = False, kp_detail = ''resume failed: '' @ err\<rparr>, sys2)
           | (Some result, sys2) \<Rightarrow>
               (let no_double_apply = (service_restarts ''service_a'' sys2 = service_restarts ''service_a'' sys1)
                in (\<lparr>kp_name = name,
                     kp_passed = (sr_status result = Some COMPLETED \<and> no_double_apply),
                     kp_detail = detail_of ext (start_json result @
                       [(''restart_count_after_kill'', optional PInt (service_restarts ''service_a'' sys1)),
                        (''restart_count_final'', optional PInt (service_restarts ''service_a'' sys2))])\<rparr>, sys2))))"

definition trial_during_rolling_back :: "runtime \<Rightarrow> string \<Rightarrow> nat \<Rightarrow> string \<Rightarrow> system \<Rightarrow> kill_point_result \<times> system" where
  "trial_during_rolling_back ext err limit run_id sys0 =
     (let name = ''during ROLLING_BACK'';
          rt = chaos_context ext ''restart_service'' ''service_c'' LOW;
          sys = services_inject_fault ''service_c'' DISK_FULL RATE_HIGH (services_reset sys0) in
      case killed_start ''ROLLING_BACK'' rt limit run_id sys of
        None \<Rightarrow>
          (\<lparr>kp_name = name, kp_passed = False, kp_detail = ''marker never observed before process exited''\<rparr>, sys)
      | Some sys1 \<Rightarrow>
          (case agent_start False (chaos_engine rt limit) run_id sys1 of
             (None, sys2) \<Rightarrow> (\<lparr>kp_name = name, kp_passed = False, kp_detail = ''resume failed: '' @ err\<rparr>, sys2)
           | (Some result, sys2) \<Rightarrow>
               (\<lparr>kp_name = name, kp_passed = (sr_status result \<in> {Some ESCALATED, Some COMPLETED}),
                 kp_detail = detail_of ext (start_json result)\<rparr>, sys2)))"

section \<open>The pass-rate table\<close>

text \<open>\<^verbatim>\<open>by_point.setdefault(r.name, []).append(r.passed)\<close> over the results.\<close>

definition by_point :: "kill_point_result list \<Rightarrow> (string, bool list) dict" where
  "by_point rs = fold (\<lambda>r d. AList.update (kp_name r)
     ((case map_of d (kp_name r) of None \<Rightarrow> [] | Some bs \<Rightarrow> bs) @ [kp_passed r]) d) rs []"

definition passes :: "bool list \<Rightarrow> nat" where
  "passes bs = length (filter (\<lambda>b. b) bs)"

definition pass_rate_lines :: "kill_point_result list \<Rightarrow> string list" where
  "pass_rate_lines rs =
     [pad_right 32 ''kill point'' @ '' '' @ pad_left 10 ''pass rate'', replicate 43 (CHR ''-'')] @
     map (\<lambda>(name, outcomes).
       pad_right 32 name @ '' '' @
       pad_left 9 (format_fixed 0 (100 * of_nat (passes outcomes) / of_nat (length outcomes))) @ ''% ('' @
       show_nat (passes outcomes) @ ''/'' @ show_nat (length outcomes) @ '')'') (by_point rs)"

definition pass_rate_table :: "kill_point_result list \<Rightarrow> string" where
  "pass_rate_table rs = join_with [CHR 0x0A] (pass_rate_lines rs)"

text \<open>
  \<^verbatim>\<open>run_harness\<close>: every trial the given number of times, each with a fresh run id, on the same
  services.
\<close>

definition TRIALS :: "(runtime \<Rightarrow> string \<Rightarrow> nat \<Rightarrow> string \<Rightarrow> system \<Rightarrow> kill_point_result \<times> system) list" where
  "TRIALS = [trial_during_diagnosing, trial_immediately_after_interrupt, trial_during_approval_wait,
             trial_mid_executing, trial_during_rolling_back]"

fun run_trials ::
  "(runtime \<Rightarrow> string \<Rightarrow> nat \<Rightarrow> string \<Rightarrow> system \<Rightarrow> kill_point_result \<times> system) list \<Rightarrow>
   runtime \<Rightarrow> (nat \<Rightarrow> string) \<Rightarrow> nat \<Rightarrow> (nat \<Rightarrow> string) \<Rightarrow> nat \<Rightarrow> system \<Rightarrow> kill_point_result list" where
  "run_trials [] ext errs limit ids i sys = []"
| "run_trials (t # ts) ext errs limit ids i sys =
     (case t ext (errs i) limit (ids i) sys of (r, sys') \<Rightarrow> r # run_trials ts ext errs limit ids (i + 1) sys')"

definition run_harness ::
  "runtime \<Rightarrow> (nat \<Rightarrow> string) \<Rightarrow> nat \<Rightarrow> (nat \<Rightarrow> string) \<Rightarrow> nat \<Rightarrow> system \<Rightarrow> kill_point_result list" where
  "run_harness ext errs limit ids trials sys =
     run_trials (concat (map (replicate trials) TRIALS)) ext errs limit ids 0 sys"

section \<open>What a killed process leaves\<close>

lemma run_until_mark_goes:
  "goes rt rv n st w n' st' w' \<Longrightarrow> mark_of n \<noteq> Some kill \<Longrightarrow>
     run_until_mark kill rt rv (Suc k) n st w = run_until_mark kill rt rv k n' st' w'"
  by (simp add: goes_def)

text \<open>The sandbox after the reset that every trial begins with.\<close>

lemma services_reset_client:
  assumes "sandbox (w_ctx (sys_world sys))" and "svc \<in> set KNOWN_SERVICES"
  shows "map_of (clients (w_ctx (sys_world (services_reset sys)))) svc =
    Some (new_service svc (has_disk svc) BASELINE_REPLICAS)"
proof -
  let ?c = "w_ctx (sys_world sys)"
  have "n \<in> fst ` set (clients ?c)" if "n \<in> set KNOWN_SERVICES" for n
    using sandbox_client [OF assms(1) that] by (metis map_of_eq_None_iff option.distinct(1))
  then have "set KNOWN_SERVICES \<subseteq> set (map fst (clients ?c))" by auto
  from reset_each_known [OF this] obtain c' where c': "reset_each KNOWN_SERVICES ?c = (Inr (), c')"
    "\<And>n. map_of (clients c') n = (if n \<in> set KNOWN_SERVICES then map_option reset (map_of (clients ?c) n)
       else map_of (clients ?c) n)" by blast
  obtain s where "map_of (clients ?c) svc = Some s" "svc_name s = svc" "svc_has_disk s = has_disk svc"
    using assms by (rule sandbox_client)
  with c' assms(2) show ?thesis by (simp add: services_reset_def reset_is_new)
qed

lemma services_reset_frame:
  assumes "sandbox (w_ctx (sys_world sys))"
  shows "sandbox (w_ctx (sys_world (services_reset sys)))"
    and "sys_threads (services_reset sys) = sys_threads sys"
    and "ctx_get (w_ctx (sys_world (services_reset sys))) k = ctx_get (w_ctx (sys_world sys)) k"
proof -
  let ?c = "w_ctx (sys_world sys)"
  show "sandbox (w_ctx (sys_world (services_reset sys)))"
    using reset_each_sandbox [OF assms] by (simp add: services_reset_def)
  have "n \<in> fst ` set (clients ?c)" if "n \<in> set KNOWN_SERVICES" for n
    using sandbox_client [OF assms that] by (metis map_of_eq_None_iff option.distinct(1))
  then have "set KNOWN_SERVICES \<subseteq> set (map fst (clients ?c))" by auto
  from reset_each_known [OF this] obtain c' where "reset_each KNOWN_SERVICES ?c = (Inr (), c')"
    "store c' = store ?c" by blast
  then show "ctx_get (w_ctx (sys_world (services_reset sys))) k = ctx_get ?c k"
    by (simp add: services_reset_def ctx_get_def)
qed (simp add: services_reset_def)

text \<open>
  A start on a thread whose target has been restarted already: the redundancy floor makes the
  second attempt wait for a human.
\<close>

definition first_state :: "system \<Rightarrow> string \<Rightarrow> agent_state" where
  "first_state sys run_id = overlay (thread_state sys run_id)
     (overlay (empty_state\<lparr>st_run_id := Some run_id\<rparr>) empty_state)"

lemma first_state_facts:
  "st_run_id (first_state sys run) = Some run"
  "st_replan_cycles (first_state sys run) = st_replan_cycles (thread_state sys run)"
  by (simp_all add: first_state_def overlay_def empty_state_def)

lemma overlay_empty: "overlay st empty_state = st"
  by (simp add: overlay_def empty_state_def)

lemma first_state_start:
  "overlay (thread_state sys run) (empty_state\<lparr>st_run_id := Some run\<rparr>) = first_state sys run"
  by (simp add: first_state_def overlay_empty)

lemma fresh_started:
  "map_of (sys_threads sys) run = None \<Longrightarrow>
     started (first_state sys run) \<and> st_replan_cycles (first_state sys run) = None"
  by (simp add: started_def first_state_facts thread_state_def empty_state_def)

lemma agent_start_drive:
  assumes "drive rt True limit None Diagnose (first_state sys run) (sys_world sys) = (r, cp, w)"
  shows "agent_start False (run_engine rt True limit) run sys =
    (if failed r then None else Some \<lparr>sr_status = st_status (cp_state cp), sr_suspended = interrupted r\<rparr>,
     \<lparr>sys_threads = AList.update run cp (sys_threads sys), sys_world = w\<rparr>)"
  using assms by (simp add: agent_start_def start_workflow_def run_engine_def first_state_def)

lemma agent_start_gated:
  assumes "sandbox (w_ctx (sys_world sys))" and "scripted_restart rt svc tier"
    and "started (first_state sys run)" and "map_of (clients (w_ctx (sys_world sys))) svc = Some s"
    and "tier \<noteq> LOW \<or> (replicas s < MIN_REDUNDANT_REPLICAS \<and> 1 \<le> restart_count s)" and "5 \<le> limit"
  obtains st' w' where "agent_start False (run_engine rt True limit) run sys =
      (Some \<lparr>sr_status = Some AWAITING_APPROVAL, sr_suspended = True\<rparr>,
       \<lparr>sys_threads = AList.update run \<lparr>cp_state = st', cp_next = Some Await\<rparr> (sys_threads sys), sys_world = w'\<rparr>)"
    "w_ctx w' = w_ctx (sys_world sys)" "suspended_at st' run svc s" "anchored rt st' svc s"
    "st_risk_tier_final st' \<noteq> None"
proof -
  obtain p st' w' where d: "\<And>k. drive rt True (k + 5) None Diagnose (first_state sys run) (sys_world sys) =
      (Interrupted p, \<lparr>cp_state = st', cp_next = Some Await\<rparr>, w')"
    and c: "w_ctx w' = w_ctx (sys_world sys)" and sus: "suspended_at st' run svc s"
    and anch: "anchored rt st' svc s" and tier: "st_risk_tier_final st' = Some (if tier = LOW then MEDIUM else tier)"
    by (rule gated_run [OF assms(1-3) first_state_facts(1) assms(4,5), where rv = True]) blast
  have "drive rt True limit None Diagnose (first_state sys run) (sys_world sys) =
      (Interrupted p, \<lparr>cp_state = st', cp_next = Some Await\<rparr>, w')"
    using d [of "limit - 5"] assms(6) by simp
  from agent_start_drive [OF this] sus show ?thesis
    by (intro that [of st' w']) (simp_all add: c sus anch tier suspended_at_def)
qed

end
