(* ===== verification/Chaos_Trials.thy ===== *)
theory Chaos_Trials
  imports Chaos
begin

text \<open>
  The outcome of the five trials of the chaos harness: the three that kill the process before
  the action took effect pass, the two that kill it afterwards do not, because the restarted
  run finds the service restarted once already and the redundancy floor sends it to a human.
\<close>

section \<open>The trials that kill before the effect\<close>

text \<open>What the harness provides: the sandbox, an unused run id, enough steps.\<close>

definition fresh_run :: "string \<Rightarrow> string \<Rightarrow> system \<Rightarrow> bool" where
  "fresh_run run svc sys \<longleftrightarrow> sandbox (w_ctx (sys_world sys)) \<and> map_of (sys_threads sys) run = None \<and>
     ctx_get (w_ctx (sys_world sys)) (restart_key run svc) = None"

lemma known_ac: "''service_a'' \<in> set KNOWN_SERVICES" "''service_c'' \<in> set KNOWN_SERVICES"
  "\<not> has_disk ''service_a''" "has_disk ''service_c''"
  by (simp_all add: KNOWN_SERVICES_def SERVICE_ROLES_def has_disk_def)

lemma first_state_stored:
  "map_of (sys_threads sys) run = Some cp \<Longrightarrow> st_replan_cycles (first_state sys run) = st_replan_cycles (cp_state cp)"
  by (simp add: first_state_facts thread_state_def)

lemma trial_diagnosing_passes:
  assumes fr: "fresh_run run ''service_a'' sys" and limit: "7 \<le> limit"
  shows "kp_passed (fst (trial_during_diagnosing ext err limit run sys))"
proof -
  let ?svc = "''service_a''" and ?rt = "chaos_context ext ''restart_service'' ''service_a'' LOW"
  let ?sys = "services_reset sys" and ?s = "new_service ''service_a'' False BASELINE_REPLICAS"
  from fr have sb: "sandbox (w_ctx (sys_world sys))" by (simp add: fresh_run_def)
  have c: "map_of (clients (w_ctx (sys_world ?sys))) ?svc = Some ?s"
    using services_reset_client [OF sb known_ac(1)] known_ac(3) by simp
  let ?cp = "\<lparr>cp_state = first_state ?sys run, cp_next = Some Diagnose\<rparr>"
  let ?sys1 = "\<lparr>sys_threads = AList.update run ?cp (sys_threads ?sys), sys_world = sys_world ?sys\<rparr>"
  obtain l where l: "limit = Suc l" using limit by (cases limit) simp_all
  have kill: "killed_start ''DIAGNOSING'' ?rt limit run ?sys = Some ?sys1"
    by (simp add: killed_start_def at_mark_def l first_state_start)
  have none: "map_of (sys_threads ?sys) run = None"
    using fr services_reset_frame(2) [OF sb] by (simp add: fresh_run_def)
  then have "st_replan_cycles (first_state ?sys1 run) = None"
    using fresh_started [OF none] by (simp add: first_state_facts thread_state_def AList.update_conv')
  then have st: "started (first_state ?sys1 run)" by (simp add: started_def first_state_facts)
  have rt: "scripted_restart ?rt ?svc LOW" using chaos_context_scripted [OF known_ac(1)] .
  obtain cp w where d: "drive ?rt True ((limit - 7) + 7) None Diagnose (first_state ?sys1 run) (sys_world ?sys1)
      = (Returned, cp, w)" "st_status (cp_state cp) = Some COMPLETED"
  proof (rule healing_run [where rt = ?rt and svc = ?svc and rv = True and k = "limit - 7" and s = ?s
        and run = run and st = "first_state ?sys1 run" and w = "sys_world ?sys1"])
    show "st_run_id (first_state ?sys1 run) = Some run" by (rule first_state_facts)
    show "sandbox (w_ctx (sys_world ?sys1))" using services_reset_frame(1) [OF sb] by simp
    show "ctx_get (w_ctx (sys_world ?sys1)) (restart_key run ?svc) = None"
      using fr services_reset_frame(3) [OF sb] by (simp add: fresh_run_def)
  qed (use rt st c in \<open>simp_all add: first_state_facts new_service_def\<close>)
  from d limit have "drive ?rt True limit None Diagnose (first_state ?sys1 run) (sys_world ?sys1) = (Returned, cp, w)"
    by simp
  from agent_start_drive [OF this] d(2) kill show ?thesis
    by (simp add: trial_during_diagnosing_def Let_def)
qed

text \<open>A suspended restart of a service without a full disk, resumed with an approval, completes.\<close>

lemma agent_resume_approved:
  assumes sb: "sandbox (w_ctx w)" and known: "svc \<in> set KNOWN_SERVICES"
    and at: "suspended_at st run svc s" "anchored rt st svc s" "st_risk_tier_final st \<noteq> None"
    and h: "hd_decision h = Approved" "hd_edited_action h = None"
    and s: "map_of (clients (w_ctx w)) svc = Some s"
    and new: "ctx_get (w_ctx w) (restart_key run svc) = None"
    and heals: "svc_has_disk s \<longrightarrow> disk_pct s < DEGRADED_THRESHOLD" and limit: "6 \<le> limit"
    and th: "map_of ths run = Some \<lparr>cp_state = st, cp_next = Some Await\<rparr>"
  obtains rep sys' where "agent_resume (run_engine rt True limit) run h
      \<lparr>sys_threads = ths, sys_world = w\<rparr> = (Some rep, sys')" "rr_status rep = Some COMPLETED"
proof -
  obtain cp w' where d: "drive rt True ((limit - 6) + 6) (Some h) Await st w = (Returned, cp, w')"
    "st_status (cp_state cp) = Some COMPLETED"
    by (rule approved_run [OF sb known at h s new heals, where k = "limit - 6"]) blast
  from d(1) limit have "drive rt True limit (Some h) Await st w = (Returned, cp, w')" by simp
  with th have "agent_resume (run_engine rt True limit) run h \<lparr>sys_threads = ths, sys_world = w\<rparr> =
      (Some \<lparr>rr_status = st_status (cp_state cp), rr_final_state = st_final_state (cp_state cp),
         rr_verification_passed = st_verification_passed (cp_state cp), rr_suspended = False\<rparr>,
       \<lparr>sys_threads = AList.update run cp ths, sys_world = w'\<rparr>)"
    by (simp add: agent_resume_def resume_workflow_def run_engine_def)
  then show ?thesis by (rule that) (simp add: d(2))
qed

lemma suspended_then_approved:
  assumes fr: "fresh_run run ''service_a'' sys" and limit: "6 \<le> limit"
  obtains sys1 rep sys2 where
    "agent_start False (chaos_engine (chaos_context ext ''restart_service'' ''service_a'' MEDIUM) limit) run (services_reset sys)
       = (Some \<lparr>sr_status = Some AWAITING_APPROVAL, sr_suspended = True\<rparr>, sys1)"
    "agent_resume (chaos_engine (chaos_context ext ''restart_service'' ''service_a'' LOW) limit) run chaos_decision sys1
       = (Some rep, sys2)" "rr_status rep = Some COMPLETED"
proof -
  let ?svc = "''service_a''" and ?sys = "services_reset sys"
  let ?m = "chaos_context ext ''restart_service'' ''service_a'' MEDIUM"
  let ?l = "chaos_context ext ''restart_service'' ''service_a'' LOW"
  let ?s = "new_service ''service_a'' False BASELINE_REPLICAS"
  from fr have sb: "sandbox (w_ctx (sys_world sys))" by (simp add: fresh_run_def)
  have c: "map_of (clients (w_ctx (sys_world ?sys))) ?svc = Some ?s"
    using services_reset_client [OF sb known_ac(1)] known_ac(3) by simp
  have none: "map_of (sys_threads ?sys) run = None"
    using fr services_reset_frame(2) [OF sb] by (simp add: fresh_run_def)
  then have st: "started (first_state ?sys run)" using fresh_started by blast
  have five: "5 \<le> limit" using limit by simp
  obtain st' w' where 1: "agent_start False (chaos_engine ?m limit) run ?sys =
      (Some \<lparr>sr_status = Some AWAITING_APPROVAL, sr_suspended = True\<rparr>,
       \<lparr>sys_threads = AList.update run \<lparr>cp_state = st', cp_next = Some Await\<rparr> (sys_threads ?sys), sys_world = w'\<rparr>)"
    "w_ctx w' = w_ctx (sys_world ?sys)" "suspended_at st' run ?svc ?s" "anchored ?m st' ?svc ?s"
    "st_risk_tier_final st' \<noteq> None"
    by (rule agent_start_gated [OF services_reset_frame(1) [OF sb] chaos_context_scripted [OF known_ac(1), of ext MEDIUM]
          st c _ five]) simp
  have anch: "anchored ?l st' ?svc ?s" using 1(4) by (simp add: anchored_def chaos_context_def)
  have h: "hd_decision chaos_decision = Approved" "hd_edited_action chaos_decision = None"
    by (simp_all add: chaos_decision_def)
  have sb': "sandbox (w_ctx w')" and c': "map_of (clients (w_ctx w')) ?svc = Some ?s"
    and new: "ctx_get (w_ctx w') (restart_key run ?svc) = None"
    using services_reset_frame(1,3) [OF sb] 1(2) c fr by (simp_all add: fresh_run_def)
  have heals: "svc_has_disk ?s \<longrightarrow> disk_pct ?s < DEGRADED_THRESHOLD" by (simp add: new_service_def)
  have th: "map_of (AList.update run \<lparr>cp_state = st', cp_next = Some Await\<rparr> (sys_threads ?sys)) run =
      Some \<lparr>cp_state = st', cp_next = Some Await\<rparr>" by (simp add: AList.update_conv')
  obtain rep sys2 where 2: "agent_resume (chaos_engine ?l limit) run chaos_decision
      \<lparr>sys_threads = AList.update run \<lparr>cp_state = st', cp_next = Some Await\<rparr> (sys_threads ?sys), sys_world = w'\<rparr>
      = (Some rep, sys2)" "rr_status rep = Some COMPLETED"
    by (rule agent_resume_approved [OF sb' known_ac(1) 1(3) anch 1(5) h c' new heals limit th])
  from 1(1) 2 show ?thesis by (rule that)
qed

text \<open>The process that dies leaves what the one that prints leaves.\<close>

lemma dying_leaves_same: "snd (agent_start True ainvoke run sys) = snd (agent_start False ainvoke run sys)"
  by (simp add: agent_start_def split: prod.split)

lemma trial_after_interrupt_passes:
  assumes "fresh_run run ''service_a'' sys" and "6 \<le> limit"
  shows "kp_passed (fst (trial_immediately_after_interrupt ext err limit run sys))"
proof (rule suspended_then_approved [OF assms, of ext])
  fix sys1 rep sys2
  assume "agent_start False (chaos_engine (chaos_context ext ''restart_service'' ''service_a'' MEDIUM) limit) run
      (services_reset sys) = (Some \<lparr>sr_status = Some AWAITING_APPROVAL, sr_suspended = True\<rparr>, sys1)"
    "agent_resume (chaos_engine (chaos_context ext ''restart_service'' ''service_a'' LOW) limit) run chaos_decision sys1
       = (Some rep, sys2)" "rr_status rep = Some COMPLETED"
  then show ?thesis by (simp add: trial_immediately_after_interrupt_def dying_leaves_same Let_def)
qed

lemma trial_approval_wait_passes:
  assumes "fresh_run run ''service_a'' sys" and "6 \<le> limit"
  shows "kp_passed (fst (trial_during_approval_wait ext err limit run sys))"
  by (rule suspended_then_approved [OF assms, of ext])
    (simp add: trial_during_approval_wait_def Let_def)

section \<open>The trials that kill after the effect\<close>

text \<open>
  The killed process has restarted the service; the run that starts again on the thread waits
  for an approval, and has not restarted the service again.
\<close>

lemma killed_then_started:
  assumes kill: "killed_start m rt limit run sys = Some sys1"
    and cp: "map_of (sys_threads sys1) run = Some cp" "started (cp_state cp)"
    and sb: "sandbox (w_ctx (sys_world sys1))" and rt: "scripted_restart rt svc LOW"
    and s: "map_of (clients (w_ctx (sys_world sys1))) svc = Some s"
    and again: "replicas s < MIN_REDUNDANT_REPLICAS" "1 \<le> restart_count s" and limit: "5 \<le> limit"
  obtains sys2 where "agent_start False (run_engine rt True limit) run sys1 =
      (Some \<lparr>sr_status = Some AWAITING_APPROVAL, sr_suspended = True\<rparr>, sys2)"
    "w_ctx (sys_world sys2) = w_ctx (sys_world sys1)"
proof -
  have "started (first_state sys1 run)"
    using cp by (simp add: started_def first_state_stored) (simp add: first_state_facts)
  from agent_start_gated [OF sb rt this s _ limit] again show ?thesis
    by (metis system.select_convs(2) that)
qed

text \<open>Up to the execution nothing marks but the diagnosis.\<close>

lemma mark_at_execution:
  assumes sb: "sandbox (w_ctx w)" and rt: "restarts rt svc" and st: "started st" "st_run_id st = Some run"
    and s: "map_of (clients (w_ctx w)) svc = Some s" and first: "restart_count s < 1"
  obtains st' w' where "\<And>kill k. kill \<noteq> ''DIAGNOSING'' \<Longrightarrow>
      run_until_mark kill rt rv (k + 4) Diagnose st w = run_until_mark kill rt rv k Execute st' w'"
    "w_ctx w' = w_ctx w" "ready st' run svc (cycles st)" "sound st'"
    "st_proposed_action st' = Some (restart_action svc)"
    "st_idempotency_key st' = Some (restart_key run svc)"
proof -
  obtain st1 w1 where 1: "goes rt rv Diagnose st w Propose st1 w1" "w_ctx w1 = w_ctx w"
    "ready st1 run svc (cycles st)"
    by (rule go_diagnose [where P = no_floor, OF sb rt st s])
      (use first in \<open>auto simp: no_floor_def service_view_def\<close>)
  obtain st2 w2 where 2: "goes rt rv Propose st1 w1 Classify st2 w2" "w_ctx w2 = w_ctx w1"
    "ready st2 run svc (cycles st)" "sound st2" "st_proposed_action st2 = Some (restart_action svc)"
    by (rule go_propose [OF rt 1(3)])
  obtain st3 w3 where 3: "goes rt rv Classify st2 w2 Prepare st3 w3" "w_ctx w3 = w_ctx w2"
    "ready st3 run svc (cycles st)" "sound st3" "st_proposed_action st3 = Some (restart_action svc)"
    by (rule go_classify [OF rt 2(3-5)])
  obtain st4 w4 where 4: "goes rt rv Prepare st3 w3 Execute st4 w4" "w_ctx w4 = w_ctx w3"
    "ready st4 run svc (cycles st)" "sound st4" "st_proposed_action st4 = Some (restart_action svc)"
    "st_idempotency_key st4 = Some (restart_key run svc)"
    by (rule go_prepare [OF 3(3-5)])
  have "run_until_mark kill rt rv (k + 4) Diagnose st w = run_until_mark kill rt rv k Execute st4 w4"
    if "kill \<noteq> ''DIAGNOSING''" for kill k
    using that run_until_mark_goes [OF 1(1), of kill "k + 3"] run_until_mark_goes [OF 2(1), of kill "k + 2"]
      run_until_mark_goes [OF 3(1), of kill "k + 1"] run_until_mark_goes [OF 4(1), of kill k]
    by (simp add: eval_nat_numeral)
  then show ?thesis by (rule that) (simp_all add: 1 2 3 4)
qed

lemma execute_restart_known:
  assumes s: "map_of (clients c) svc = Some s" and new: "ctx_get c key = None"
  shows "\<exists>c' why. clients c' = AList.update svc (restart s) (clients c) \<and>
    (\<forall>ps. \<exists>out. execute_action ci (restart_action svc) ps key c = (Inr out, c') \<and>
      oc_compensation out = noop_compensation why)"
proof -
  obtain out c' where out: "execute_action ci (restart_action svc) [] key c = (Inr out, c')"
      "oc_compensation out = noop_compensation ''restart has no reversible side effect''"
      "clients c' = AList.update svc (restart s) (clients c)"
    by (rule execute_restart_fresh [OF s new, where ci = ci and ps = "[]"]) blast
  have "execute_action ci (restart_action svc) ps key c = execute_action ci (restart_action svc) [] key c" for ps
    by (simp add: execute_action_def split_join execute_tool_def)
  with out show ?thesis by auto
qed

lemma kill_at_execution:
  assumes sb: "sandbox (w_ctx w)" and rt: "restarts rt svc" and st: "started st" "st_run_id st = Some run"
    and s: "map_of (clients (w_ctx w)) svc = Some s" and first: "restart_count s < 1"
    and new: "ctx_get (w_ctx w) (restart_key run svc) = None" and limit: "5 \<le> limit"
  obtains st' w' where "run_until_mark ''EXECUTING'' rt rv limit Diagnose st w =
      Some (\<lparr>cp_state = st', cp_next = Some Execute\<rparr>, w')"
    "started st'" "sandbox (w_ctx w')" "clients (w_ctx w') = AList.update svc (restart s) (clients (w_ctx w))"
proof -
  obtain st4 w4 where 4: "\<And>kill k. kill \<noteq> ''DIAGNOSING'' \<Longrightarrow>
      run_until_mark kill rt rv (k + 4) Diagnose st w = run_until_mark kill rt rv k Execute st4 w4"
    "w_ctx w4 = w_ctx w" "ready st4 run svc (cycles st)" "sound st4"
    "st_proposed_action st4 = Some (restart_action svc)" "st_idempotency_key st4 = Some (restart_key run svc)"
    by (rule mark_at_execution [OF sb rt st s first, where rv = rv]) blast
  obtain c' why where c': "clients c' = AList.update svc (restart s) (clients (w_ctx w))"
    and ex: "\<forall>ps. \<exists>out. execute_action (rt_coerce rt) (restart_action svc) ps (restart_key run svc) (w_ctx w)
      = (Inr out, c') \<and> oc_compensation out = noop_compensation why"
    using execute_restart_known [OF s new, where ci = "rt_coerce rt"] by (elim exE conjE) (rule that)
  obtain u where u: "execute rt st4 (w_ctx w4) = (Inr u, c')"
    using ex [rule_format, of "case st_action_parameters st4 of None \<Rightarrow> [] | Some ps \<Rightarrow> ps"] 4(2,5,6)
    by (auto simp: execute_node bindE_def)
  have sb': "sandbox c'" using node_sandbox [of "w_ctx w4" rt None "w_tick w4" Execute st4] sb u 4(2) by simp
  have l: "limit = Suc (limit - 5) + 4" using limit by simp
  have "run_until_mark ''EXECUTING'' rt rv (Suc (limit - 5)) Execute st4 w4 =
      Some (\<lparr>cp_state = st4, cp_next = Some Execute\<rparr>, w4\<lparr>w_ctx := c'\<rparr>)"
    using u by (simp add: at_mark_def)
  then have "run_until_mark ''EXECUTING'' rt rv limit Diagnose st w =
      Some (\<lparr>cp_state = st4, cp_next = Some Execute\<rparr>, w4\<lparr>w_ctx := c'\<rparr>)"
    by (subst l, subst 4(1)) simp_all
  then show ?thesis by (rule that) (use 4(4) sb' c' in \<open>simp_all add: sound_def diagnosed_def\<close>)
qed

lemma kill_at_rolling_back:
  assumes sb: "sandbox (w_ctx w)" and rt: "restarts rt svc" and st: "started st" "st_run_id st = Some run"
    and s: "map_of (clients (w_ctx w)) svc = Some s" and first: "restart_count s < 1"
    and new: "ctx_get (w_ctx w) (restart_key run svc) = None" and limit: "7 \<le> limit"
    and full: "svc_has_disk s" "DEGRADED_THRESHOLD \<le> disk_pct s"
  obtains st' w' where "run_until_mark ''ROLLING_BACK'' rt rv limit Diagnose st w =
      Some (\<lparr>cp_state = st', cp_next = Some Rolling_back\<rparr>, w')"
    "started st'" "sandbox (w_ctx w')" "clients (w_ctx w') = AList.update svc (restart s) (clients (w_ctx w))"
proof -
  obtain st4 w4 where 4: "\<And>kill k. kill \<noteq> ''DIAGNOSING'' \<Longrightarrow>
      run_until_mark kill rt rv (k + 4) Diagnose st w = run_until_mark kill rt rv k Execute st4 w4"
    "w_ctx w4 = w_ctx w" "ready st4 run svc (cycles st)" "sound st4"
    "st_proposed_action st4 = Some (restart_action svc)" "st_idempotency_key st4 = Some (restart_key run svc)"
    by (rule mark_at_execution [OF sb rt st s first, where rv = rv]) blast
  obtain c' why where c': "clients c' = AList.update svc (restart s) (clients (w_ctx w))"
    and ex: "\<forall>ps. \<exists>out. execute_action (rt_coerce rt) (restart_action svc) ps (restart_key run svc) (w_ctx w)
      = (Inr out, c') \<and> oc_compensation out = noop_compensation why"
    using execute_restart_known [OF s new, where ci = "rt_coerce rt"] by (elim exE conjE) (rule that)
  from ex 4(2) have ex4: "\<exists>out. execute_action (rt_coerce rt) (restart_action svc) ps (restart_key run svc) (w_ctx w4)
      = (Inr out, c') \<and> oc_compensation out = noop_compensation why" for ps by simp
  obtain st5 w5 where 5: "goes rt rv Execute st4 w4 Verify st5 w5" "w_ctx w5 = c'" "ready st5 run svc (cycles st)"
    "sound st5" "executed st5" "st_proposed_action st5 = Some (restart_action svc)"
    "st_compensation st5 = Some (noop_compensation why)"
    by (rule go_execute [OF 4(3-6) ex4])
  have sv: "map_of (clients (w_ctx w5)) svc = Some (restart s)" by (simp add: 5(2) c' AList.update_conv')
  have ill: "status (restart s) \<noteq> ''healthy''" using full by (simp add: restart_status)
  obtain st6 w6 where 6: "goes rt rv Verify st5 w5 (if status (restart s) = ''healthy'' then Completed else Rolling_back) st6 w6"
    "w_ctx w6 = w_ctx w5" "ready st6 run svc (cycles st)" "sound st6"
    "st_proposed_action st6 = Some (restart_action svc)" "st_compensation st6 = st_compensation st5"
    by (rule go_verify [OF 5(3-6) sv])
  have u: "\<exists>u. rolling_back rt st6 (w_ctx w6) = (Inr u, w_ctx w6)"
    using 6(6) 5(7) undo_noop [of "rt_coerce rt" why "w_ctx w6"] by (simp add: rolling_back_def bindE_def)
  have same: "w6\<lparr>w_ctx := w_ctx w6\<rparr> = w6" by simp
  have go6: "goes rt rv Verify st5 w5 Rolling_back st6 w6" using 6(1) ill by simp
  have l: "limit = Suc (Suc (Suc (limit - 7))) + 4" using limit by simp
  have "run_until_mark ''ROLLING_BACK'' rt rv (Suc (limit - 7)) Rolling_back st6 w6 =
      Some (\<lparr>cp_state = st6, cp_next = Some Rolling_back\<rparr>, w6)"
    using u by (auto simp: at_mark_def)
  then have "run_until_mark ''ROLLING_BACK'' rt rv (Suc (Suc (Suc (limit - 7)))) Execute st4 w4 =
      Some (\<lparr>cp_state = st6, cp_next = Some Rolling_back\<rparr>, w6)"
    by (subst run_until_mark_goes [OF 5(1)], simp, subst run_until_mark_goes [OF go6], simp, assumption)
  then have r: "run_until_mark ''ROLLING_BACK'' rt rv limit Diagnose st w =
      Some (\<lparr>cp_state = st6, cp_next = Some Rolling_back\<rparr>, w6)"
    by (subst l, subst 4(1)) simp_all
  have "sandbox (w_ctx w5)"
    using exec_step_sandbox [of w4 rt rv None Execute st4] sb 4(2) 5(1) by (auto simp: goes_def)
  with r show ?thesis
    by (rule_tac that [OF r]) (use 6(2,4) 5(2) c' in \<open>simp_all add: sound_def diagnosed_def\<close>)
qed

lemma killed_startI:
  assumes "run_until_mark kill rt True limit Diagnose (first_state sys run) (sys_world sys) = Some (cp, w)"
  shows "killed_start kill rt limit run sys =
    Some \<lparr>sys_threads = AList.update run cp (sys_threads sys), sys_world = w\<rparr>"
  using assms by (simp add: killed_start_def first_state_start)

text \<open>
  The run that starts again is suspended with the status \<^verbatim>\<open>AWAITING_APPROVAL\<close>, and its service
  was restarted once in all.
\<close>

lemma trial_mid_executing_suspends:
  assumes fr: "fresh_run run ''service_a'' sys" and limit: "5 \<le> limit"
  obtains r sys2 where "trial_mid_executing ext err limit run sys = (r, sys2)" "\<not> kp_passed r"
    "map_of (clients (w_ctx (sys_world sys2))) ''service_a'' =
       Some (restart (new_service ''service_a'' False BASELINE_REPLICAS))"
proof -
  let ?svc = "''service_a''" and ?sys = "services_reset sys"
  let ?rt = "chaos_context ext ''restart_service'' ''service_a'' LOW"
  let ?s = "new_service ''service_a'' False BASELINE_REPLICAS"
  from fr have sb: "sandbox (w_ctx (sys_world sys))" by (simp add: fresh_run_def)
  have c: "map_of (clients (w_ctx (sys_world ?sys))) ?svc = Some ?s"
    using services_reset_client [OF sb known_ac(1)] known_ac(3) by simp
  have none: "map_of (sys_threads ?sys) run = None"
    and new: "ctx_get (w_ctx (sys_world ?sys)) (restart_key run ?svc) = None"
    using fr services_reset_frame(2,3) [OF sb] by (simp_all add: fresh_run_def)
  have st: "started (first_state ?sys run)" using fresh_started [OF none] by blast
  have rt: "restarts ?rt ?svc" using chaos_context_scripted [OF known_ac(1)] .
  have first: "restart_count ?s < 1" by (simp add: new_service_def)
  obtain st1 w1 where 1: "run_until_mark ''EXECUTING'' ?rt True limit Diagnose (first_state ?sys run) (sys_world ?sys) =
      Some (\<lparr>cp_state = st1, cp_next = Some Execute\<rparr>, w1)" "started st1" "sandbox (w_ctx w1)"
    "clients (w_ctx w1) = AList.update ?svc (restart ?s) (clients (w_ctx (sys_world ?sys)))"
    by (rule kill_at_execution [OF services_reset_frame(1) [OF sb] rt st first_state_facts(1) c first new limit])
  let ?sys1 = "\<lparr>sys_threads = AList.update run \<lparr>cp_state = st1, cp_next = Some Execute\<rparr> (sys_threads ?sys), sys_world = w1\<rparr>"
  have kill: "killed_start ''EXECUTING'' ?rt limit run ?sys = Some ?sys1" by (rule killed_startI [OF 1(1)])
  have th: "map_of (sys_threads ?sys1) run = Some \<lparr>cp_state = st1, cp_next = Some Execute\<rparr>"
    and s1: "map_of (clients (w_ctx (sys_world ?sys1))) ?svc = Some (restart ?s)"
    by (simp_all add: AList.update_conv' 1(4))
  have again: "replicas (restart ?s) < MIN_REDUNDANT_REPLICAS" "1 \<le> restart_count (restart ?s)"
    by (simp_all add: restart_def clear_transient_def new_service_def baseline_defs MIN_REDUNDANT_REPLICAS_def)
  have started: "started (cp_state \<lparr>cp_state = st1, cp_next = Some Execute\<rparr>)"
    and sb1: "sandbox (w_ctx (sys_world ?sys1))" using 1(2,3) by simp_all
  obtain sys2 where 2: "agent_start False (chaos_engine ?rt limit) run ?sys1 =
      (Some \<lparr>sr_status = Some AWAITING_APPROVAL, sr_suspended = True\<rparr>, sys2)"
    "w_ctx (sys_world sys2) = w_ctx (sys_world ?sys1)"
    by (rule killed_then_started [OF kill th started sb1 rt s1 again limit])
  obtain detail where "trial_mid_executing ext err limit run sys =
      (\<lparr>kp_name = ''mid-EXECUTING (idempotency)'', kp_passed = False, kp_detail = detail\<rparr>, sys2)"
    using kill 2(1) by (simp add: trial_mid_executing_def Let_def)
  then show ?thesis by (rule that) (use 2(2) s1 in simp_all)
qed

lemma services_inject_known:
  "map_of (clients (w_ctx (sys_world sys))) n = Some s \<Longrightarrow> apply_fault f r s = Inr s' \<Longrightarrow>
     map_of (clients (w_ctx (sys_world (services_inject_fault n f r sys)))) n = Some s'"
  by (simp add: services_inject_fault_def app_admin_fault_def AList.update_conv')

lemma trial_rolling_back_suspends:
  assumes fr: "fresh_run run ''service_c'' sys" and limit: "7 \<le> limit"
  shows "\<not> kp_passed (fst (trial_during_rolling_back ext err limit run sys))"
proof -
  let ?svc = "''service_c''"
  let ?before = "services_reset sys" and ?base = "new_service ''service_c'' True BASELINE_REPLICAS"
  let ?sys = "services_inject_fault ''service_c'' DISK_FULL RATE_HIGH ?before"
  let ?rt = "chaos_context ext ''restart_service'' ''service_c'' LOW"
  let ?s = "add_fault DISK_FULL (?base\<lparr>disk_pct := RATE_MAGNITUDE RATE_HIGH\<rparr>)"
  from fr have sb: "sandbox (w_ctx (sys_world sys))" by (simp add: fresh_run_def)
  have c0: "map_of (clients (w_ctx (sys_world ?before))) ?svc = Some ?base"
    using services_reset_client [OF sb known_ac(2)] known_ac(4) by simp
  have c: "map_of (clients (w_ctx (sys_world ?sys))) ?svc = Some ?s"
    by (rule services_inject_known [OF c0]) (simp add: new_service_def)
  have sbf: "sandbox (w_ctx (sys_world ?sys))"
    using services_reset_frame(1) [OF sb] by (simp add: services_inject_fault_def sandbox_http_post)
  have none: "map_of (sys_threads ?sys) run = None"
    and new: "ctx_get (w_ctx (sys_world ?sys)) (restart_key run ?svc) = None"
    using fr services_reset_frame(2,3) [OF sb]
    by (simp_all add: fresh_run_def services_inject_fault_def ctx_get_def frame_simps)
  have st: "started (first_state ?sys run)" using fresh_started [OF none] by blast
  have rt: "restarts ?rt ?svc" using chaos_context_scripted [OF known_ac(2)] .
  have first: "restart_count ?s < 1" and full: "svc_has_disk ?s" "DEGRADED_THRESHOLD \<le> disk_pct ?s"
    by (simp_all add: new_service_def add_fault_def threshold_defs)
  obtain st1 w1 where 1: "run_until_mark ''ROLLING_BACK'' ?rt True limit Diagnose (first_state ?sys run) (sys_world ?sys) =
      Some (\<lparr>cp_state = st1, cp_next = Some Rolling_back\<rparr>, w1)" "started st1" "sandbox (w_ctx w1)"
    "clients (w_ctx w1) = AList.update ?svc (restart ?s) (clients (w_ctx (sys_world ?sys)))"
    by (rule kill_at_rolling_back [OF sbf rt st first_state_facts(1) c first new limit full])
  let ?sys1 = "\<lparr>sys_threads = AList.update run \<lparr>cp_state = st1, cp_next = Some Rolling_back\<rparr> (sys_threads ?sys), sys_world = w1\<rparr>"
  have kill: "killed_start ''ROLLING_BACK'' ?rt limit run ?sys = Some ?sys1" by (rule killed_startI [OF 1(1)])
  have th: "map_of (sys_threads ?sys1) run = Some \<lparr>cp_state = st1, cp_next = Some Rolling_back\<rparr>"
    and s1: "map_of (clients (w_ctx (sys_world ?sys1))) ?svc = Some (restart ?s)"
    by (simp_all add: AList.update_conv' 1(4))
  have again: "replicas (restart ?s) < MIN_REDUNDANT_REPLICAS" "1 \<le> restart_count (restart ?s)"
    by (simp_all add: restart_def clear_transient_def new_service_def add_fault_def baseline_defs
        MIN_REDUNDANT_REPLICAS_def)
  have started: "started (cp_state \<lparr>cp_state = st1, cp_next = Some Rolling_back\<rparr>)"
    and sb1: "sandbox (w_ctx (sys_world ?sys1))" and five: "5 \<le> limit" using 1(2,3) limit by simp_all
  obtain sys2 where "agent_start False (chaos_engine ?rt limit) run ?sys1 =
      (Some \<lparr>sr_status = Some AWAITING_APPROVAL, sr_suspended = True\<rparr>, sys2)"
    by (rule killed_then_started [OF kill th started sb1 rt s1 again five])
  with kill show ?thesis by (simp add: trial_during_rolling_back_def Let_def)
qed

end
