(* ===== verification/Load_Test.thy ===== *)
theory Load_Test
  imports Chaos Runner
begin

text \<open>
  \<^verbatim>\<open>src/eval/load_test.py\<close>: many runs that all wait for an approval on one sandbox, and are then all
  approved. The tasks of a burst take turns node by node in whatever order the event loop picks, as
  many at a time as the semaphore has places. Memory, time and connections are measured outside.
\<close>

section \<open>Tasks\<close>

definition load_context :: "runtime \<Rightarrow> runtime" where
  "load_context ext = ext
     \<lparr>rt_diagnose := (\<lambda>_ _. Inr ''load-test stub diagnosis''),
      rt_propose := (\<lambda>_ _ _ _. Inr \<lparr>pr_tool = ''restart_service'', pr_target = ''service_a'',
                                     pr_parameters = Some [], pr_rationale = ''load-test stub''\<rparr>),
      rt_classify := (\<lambda>_ _ _ _ _. Inr \<lparr>cl_tier = MEDIUM,
                                     cl_rationale = ''load-test stub, always medium so every run suspends''\<rparr>)\<rparr>"

definition load_run_ids :: "nat \<Rightarrow> string list" where
  "load_run_ids n = map (\<lambda>i. ''load-'' @ show_nat i) [0 ..< n]"

definition load_decision :: human_decision where
  "load_decision = \<lparr>hd_decision = Approved, hd_edited_action = None, hd_approver_id = Some ''load-test''\<rparr>"

text \<open>
  A task of \<^verbatim>\<open>asyncio.gather\<close> waits for the semaphore, runs (since its reading of the clock, with the
  steps the library leaves it, and the node that is next), or is over.
\<close>

datatype task =
    Waiting
  | Running rat nat "human_decision option" node agent_state
  | Finished run_result agent_state

record burst =
  bu_runtime :: runtime
  bu_limit :: nat
  bu_concurrency :: nat
  bu_call :: "string \<Rightarrow> invocation"
  bu_timed :: bool
  bu_clock :: "nat \<Rightarrow> rat"

definition save :: "string \<Rightarrow> checkpoint \<Rightarrow> world \<Rightarrow> system \<Rightarrow> system" where
  "save run cp w sys = sys\<lparr>sys_threads := AList.update run cp (sys_threads sys), sys_world := w\<rparr>"

text \<open>The call once the semaphore is free, and one node of it: the checkpoint is saved after every node.\<close>

definition begin_call :: "burst \<Rightarrow> rat \<Rightarrow> string \<Rightarrow> system \<Rightarrow> task \<times> system" where
  "begin_call bu now run sys =
     (case bu_call bu run of
        Input inp \<Rightarrow>
          (let st = overlay (thread_state sys run) inp
           in (Running now (bu_limit bu) None Diagnose st,
               save run \<lparr>cp_state = st, cp_next = Some Diagnose\<rparr> (sys_world sys) sys))
      | Resume h \<Rightarrow>
          (case map_of (sys_threads sys) run of
             None \<Rightarrow> (Finished Library_error empty_state, sys)
           | Some cp \<Rightarrow>
               (case cp_next cp of
                  None \<Rightarrow> (Finished Returned (cp_state cp), sys)
                | Some n \<Rightarrow> (Running now (bu_limit bu) (Some h) n (cp_state cp), sys))))"

fun task_step :: "burst \<Rightarrow> rat \<Rightarrow> string \<Rightarrow> task \<Rightarrow> system \<Rightarrow> task \<times> system" where
  "task_step bu now run Waiting sys = begin_call bu now run sys"
| "task_step bu now run (Running start 0 d n st) sys = (Finished Library_error st, sys)"
| "task_step bu now run (Running start (Suc k) d n st) sys =
     (case exec_step (bu_runtime bu) True d n st (sys_world sys) of
        (Suspended p, w) \<Rightarrow> (Finished (Interrupted p) st, save run \<lparr>cp_state = st, cp_next = Some n\<rparr> w sys)
      | (Raised e, w) \<Rightarrow> (Finished (Errored e) st, save run \<lparr>cp_state = st, cp_next = Some n\<rparr> w sys)
      | (Next None st', w) \<Rightarrow> (Finished Returned st', save run \<lparr>cp_state = st', cp_next = None\<rparr> w sys)
      | (Next (Some n') st', w) \<Rightarrow>
          (Running start k None n' st', save run \<lparr>cp_state = st', cp_next = Some n'\<rparr> w sys))"
| "task_step bu now run (Finished r st) sys = (Finished r st, sys)"

section \<open>A burst\<close>

definition is_running :: "task \<Rightarrow> bool" where
  "is_running t = (case t of Running _ _ _ _ _ \<Rightarrow> True | _ \<Rightarrow> False)"

definition is_finished :: "task \<Rightarrow> bool" where
  "is_finished t = (case t of Finished _ _ \<Rightarrow> True | _ \<Rightarrow> False)"

record pool =
  pl_tasks :: "(string \<times> task) list"
  pl_system :: system
  pl_reads :: nat
  pl_latencies :: "rat list"

text \<open>The tasks that can take a turn: those that run, and those that wait while the semaphore has a place.\<close>

definition movable :: "nat \<Rightarrow> (string \<times> task) list \<Rightarrow> nat list" where
  "movable concurrency tasks =
     (let free = length (filter (is_running \<circ> snd) tasks) < concurrency
      in filter (\<lambda>i. is_running (snd (tasks ! i)) \<or> (snd (tasks ! i) = Waiting \<and> free)) [0 ..< length tasks])"

text \<open>
  One turn: the event loop picks a task that can move. A timed call reads the clock when it begins
  and, unless it raises, when it is over.
\<close>

definition turn :: "burst \<Rightarrow> nat \<Rightarrow> pool \<Rightarrow> pool" where
  "turn bu choice pl =
     (let ms = movable (bu_concurrency bu) (pl_tasks pl) in
      if ms = [] then pl
      else
        (let i = ms ! (choice mod length ms);
             run = fst (pl_tasks pl ! i); t = snd (pl_tasks pl ! i);
             start = (case t of Running since _ _ _ _ \<Rightarrow> since | _ \<Rightarrow> bu_clock bu (pl_reads pl));
             reads = (if bu_timed bu \<and> t = Waiting then pl_reads pl + 1 else pl_reads pl)
         in case task_step bu start run t (pl_system pl) of (t', sys') \<Rightarrow>
           (let ends = bu_timed bu \<and> (case t' of Finished r _ \<Rightarrow> \<not> failed r | _ \<Rightarrow> False)
            in \<lparr>pl_tasks = (pl_tasks pl)[i := (run, t')], pl_system = sys',
                pl_reads = (if ends then reads + 1 else reads),
                pl_latencies = pl_latencies pl @ (if ends then [(bu_clock bu reads - start) * 1000] else [])\<rparr>)))"

fun turns :: "burst \<Rightarrow> (nat \<Rightarrow> nat) \<Rightarrow> nat \<Rightarrow> pool \<Rightarrow> pool" where
  "turns bu pick 0 pl = pl"
| "turns bu pick (Suc k) pl = turns bu pick k (turn bu (pick k) pl)"

text \<open>Every task needs at most one turn to begin and one more than the library's limit to end.\<close>

definition run_burst :: "burst \<Rightarrow> (nat \<Rightarrow> nat) \<Rightarrow> nat \<Rightarrow> string list \<Rightarrow> system \<Rightarrow> pool" where
  "run_burst bu pick reads runs sys =
     turns bu pick (length runs * (bu_limit bu + 2))
       \<lparr>pl_tasks = map (\<lambda>run. (run, Waiting)) runs, pl_system = sys, pl_reads = reads, pl_latencies = []\<rparr>"

text \<open>What \<^verbatim>\<open>gather\<close> returns; \<open>None\<close> when a call raises, or when a semaphore without places lets none begin.\<close>

definition gathered :: "pool \<Rightarrow> (run_result \<times> agent_state) list option" where
  "gathered pl =
     (if list_all (\<lambda>t. case snd t of Finished r _ \<Rightarrow> \<not> failed r | _ \<Rightarrow> False) (pl_tasks pl)
      then Some (map (\<lambda>t. case snd t of Finished r st \<Rightarrow> (r, st) | _ \<Rightarrow> (Library_error, empty_state)) (pl_tasks pl))
      else None)"

section \<open>The load test\<close>

text \<open>
  What the test takes from outside: the semaphore's size, the choices of the event loop in the two
  bursts, the database if there is one with the counts of connections sampled from it, the traced
  memory before and after the suspensions, the clock by the number of its reading, and numpy's percentiles.
\<close>

record load_setup =
  ls_concurrency :: nat
  ls_pick_start :: "nat \<Rightarrow> nat"
  ls_pick_resume :: "nat \<Rightarrow> nat"
  ls_dsn :: "string option"
  ls_counts :: "nat list"
  ls_before :: rat
  ls_after :: rat
  ls_clock :: "nat \<Rightarrow> rat"
  ls_percentile :: "rat list \<Rightarrow> rat \<Rightarrow> rat"

record load_report =
  lt_n :: nat
  lt_concurrency :: nat
  lt_checkpointer :: string
  lt_suspend_wall_seconds :: rat
  lt_all_suspended :: bool
  lt_suspended_count :: nat
  lt_bytes_per_run :: "rat option"
  lt_burst_wall_seconds :: rat
  lt_resume_latency_ms :: "(string, rat) dict"
  lt_state_intact :: bool
  lt_completed_count :: nat
  lt_peak_db_connections :: "nat option"

definition sample_pg_connections :: "nat list \<Rightarrow> nat" where
  "sample_pg_connections counts = fold (\<lambda>count peak. max peak count) counts 0"

definition latency_percentiles :: "(rat list \<Rightarrow> rat \<Rightarrow> rat) \<Rightarrow> rat list \<Rightarrow> (string, rat) dict" where
  "latency_percentiles percentile latencies =
     (let arr = (if latencies = [] then [0] else latencies)
      in [(''p50'', percentile arr 50), (''p95'', percentile arr 95), (''p99'', percentile arr 99)])"

text \<open>\<^verbatim>\<open>start_workflow(graph, run_id, {}, context)\<close> and \<^verbatim>\<open>_resume_one(run_id)\<close> under the semaphore.\<close>

definition start_burst :: "runtime \<Rightarrow> nat \<Rightarrow> load_setup \<Rightarrow> burst" where
  "start_burst rt limit ls =
     \<lparr>bu_runtime = rt, bu_limit = limit, bu_concurrency = ls_concurrency ls,
      bu_call = (\<lambda>run. Input (overlay (empty_state\<lparr>st_run_id := Some run\<rparr>) empty_state)),
      bu_timed = False, bu_clock = ls_clock ls\<rparr>"

definition resume_burst :: "runtime \<Rightarrow> nat \<Rightarrow> load_setup \<Rightarrow> burst" where
  "resume_burst rt limit ls =
     \<lparr>bu_runtime = rt, bu_limit = limit, bu_concurrency = ls_concurrency ls,
      bu_call = (\<lambda>run. Resume load_decision), bu_timed = True, bu_clock = ls_clock ls\<rparr>"

text \<open>Readings 0 and 1 time the first burst, reading 2 begins the second, and the last one ends it.\<close>

definition load_test_run :: "runtime \<Rightarrow> nat \<Rightarrow> load_setup \<Rightarrow> nat \<Rightarrow> system \<Rightarrow> load_report option \<times> system" where
  "load_test_run rt limit ls n sys =
     (let run_ids = load_run_ids n; pc = ls_clock ls;
          pl1 = run_burst (start_burst rt limit ls) (ls_pick_start ls) 1 run_ids sys
      in case gathered pl1 of
           None \<Rightarrow> (None, pl_system pl1)
         | Some results \<Rightarrow>
             (let pl2 = run_burst (resume_burst rt limit ls) (ls_pick_resume ls) 3 run_ids (pl_system pl1)
              in case gathered pl2 of
                   None \<Rightarrow> (None, pl_system pl2)
                 | Some resumed \<Rightarrow>
                     (let suspended_count = length (filter (\<lambda>x. interrupted (fst x)) results);
                          completed_count = length (filter (\<lambda>x. st_final_state (snd x) = Some COMPLETED) resumed)
                      in (Some
                        \<lparr>lt_n = n, lt_concurrency = ls_concurrency ls,
                         lt_checkpointer = (if truthy (ls_dsn ls) then ''postgres'' else ''in-memory''),
                         lt_suspend_wall_seconds = pc 1 - pc 0,
                         lt_all_suspended = (suspended_count = n), lt_suspended_count = suspended_count,
                         lt_bytes_per_run = (if n = 0 then None else Some ((ls_after ls - ls_before ls) / of_nat n)),
                         lt_burst_wall_seconds = pc (pl_reads pl2) - pc 2,
                         lt_resume_latency_ms = latency_percentiles (ls_percentile ls) (pl_latencies pl2),
                         lt_state_intact = (completed_count = n), lt_completed_count = completed_count,
                         lt_peak_db_connections = (if truthy (ls_dsn ls) then Some (sample_pg_connections (ls_counts ls)) else None)\<rparr>,
                         pl_system pl2))))"

definition run_load_test :: "runtime \<Rightarrow> nat \<Rightarrow> load_setup \<Rightarrow> nat \<Rightarrow> load_report option \<times> system" where
  "run_load_test ext limit ls n =
     load_test_run (load_context ext) limit ls n
       \<lparr>sys_threads = [], sys_world = \<lparr>w_ctx = build_sandbox None None, w_audit = [], w_tick = 0\<rparr>\<rparr>"

section \<open>Distinct run ids\<close>

definition read_nat :: "string \<Rightarrow> nat" where
  "read_nat s = foldl (\<lambda>n c. 10 * n + (of_char c - 48)) 0 s"

lemma read_show_nat: "read_nat (show_nat n) = n"
proof (induction n rule: show_nat.induct)
  case (1 n)
  have d: "(of_char (digit_char m) :: nat) - 48 = m" if "m < 10" for m
    using that by (simp add: digit_char_def)
  show ?case
  proof (cases "n < 10")
    case True
    then show ?thesis by (subst show_nat.simps) (simp add: read_nat_def d)
  next
    case False
    then have "read_nat (show_nat n) = 10 * read_nat (show_nat (n div 10)) + n mod 10"
      by (subst show_nat.simps) (simp add: read_nat_def d)
    with 1 [OF False] show ?thesis by simp
  qed
qed

lemma load_run_ids_distinct: "distinct (load_run_ids n)"
proof -
  have "inj_on (\<lambda>i. ''load-'' @ show_nat i) {0 ..< n}"
  proof (rule inj_onI)
    fix i j assume "''load-'' @ show_nat i = ''load-'' @ show_nat j"
    then have "show_nat i = show_nat j" by (simp only: same_append_eq)
    then show "i = j" by (metis read_show_nat)
  qed
  then show ?thesis unfolding load_run_ids_def distinct_map by (simp only: distinct_upt set_upt simp_thms)
qed

end
