(* ===== verification/Load_Turns.thy ===== *)
theory Load_Turns
  imports Load_Test
begin

text \<open>
  The load test for every number of runs and every order of turns. A locale in the manner of
  rely and guarantee says what the turns of a burst keep: a fact on the shared system, a fact on each
  task that its own turns preserve and the turns of the others do not disturb. The two bursts are its
  interpretations.
\<close>

section \<open>Turns make progress\<close>

definition rank :: "nat \<Rightarrow> task \<Rightarrow> nat" where
  "rank limit t = (case t of Waiting \<Rightarrow> limit + 2 | Running _ k _ _ _ \<Rightarrow> k + 1 | Finished _ _ \<Rightarrow> 0)"

lemma task_simps [simp]:
  "is_running (Running since k d n st)" "\<not> is_running Waiting" "\<not> is_running (Finished r st)"
  "\<not> is_finished (Running since k d n st)" "\<not> is_finished Waiting" "is_finished (Finished r st)"
  "rank limit Waiting = limit + 2" "rank limit (Running since k d n st) = k + 1" "rank limit (Finished r st) = 0"
  by (simp_all add: is_running_def is_finished_def rank_def)

lemma step_lowers_rank:
  assumes "task_step bu now run t sys = (t', sys')" and "\<not> is_finished t"
  shows "rank (bu_limit bu) t' < rank (bu_limit bu) t"
  using assms
  by (cases "(bu, now, run, t, sys)" rule: task_step.cases)
    (auto simp: begin_call_def Let_def
      split: invocation.splits option.splits prod.splits step_result.splits)

lemma movable_iff:
  assumes "0 < concurrency"
  shows "movable concurrency tasks = [] \<longleftrightarrow> list_all (is_finished \<circ> snd) tasks"
proof
  assume m: "movable concurrency tasks = []"
  have none: "\<not> is_running (snd (tasks ! i))" if "i < length tasks" for i
    using m that by (auto simp: movable_def Let_def filter_empty_conv)
  then have "\<not> is_running (snd x)" if "x \<in> set tasks" for x
    using that by (auto simp only: in_set_conv_nth)
  then have "filter (is_running \<circ> snd) tasks = []" by (simp add: filter_empty_conv)
  then have "snd (tasks ! i) \<noteq> Waiting" if "i < length tasks" for i
    using m assms that by (auto simp: movable_def Let_def filter_empty_conv)
  with none have "is_finished (snd (tasks ! i))" if "i < length tasks" for i
    using that by (cases "snd (tasks ! i)") fastforce+
  then show "list_all (is_finished \<circ> snd) tasks" by (auto simp: list_all_length)
next
  assume f: "list_all (is_finished \<circ> snd) tasks"
  have "\<not> is_running (snd (tasks ! i)) \<and> snd (tasks ! i) \<noteq> Waiting" if "i < length tasks" for i
    using f that by (cases "snd (tasks ! i)") (auto simp: list_all_length dest!: spec [of _ i])
  then show "movable concurrency tasks = []" by (auto simp: movable_def Let_def filter_empty_conv)
qed

lemma movable_unfinished:
  assumes "i \<in> set (movable concurrency tasks)"
  shows "i < length tasks \<and> \<not> is_finished (snd (tasks ! i))"
  using assms by (cases "snd (tasks ! i)") (auto simp: movable_def Let_def)

text \<open>A turn is the step of one task that is not over.\<close>

lemma turn_step:
  assumes "0 < bu_concurrency bu" and "\<not> list_all (is_finished \<circ> snd) (pl_tasks pl)"
  obtains i now run t t' sys' where "i < length (pl_tasks pl)" "pl_tasks pl ! i = (run, t)" "\<not> is_finished t"
    "task_step bu now run t (pl_system pl) = (t', sys')"
    "pl_tasks (turn bu c pl) = (pl_tasks pl)[i := (run, t')]" "pl_system (turn bu c pl) = sys'"
proof -
  let ?ms = "movable (bu_concurrency bu) (pl_tasks pl)"
  let ?i = "?ms ! (c mod length ?ms)"
  have ne: "?ms \<noteq> []" using assms movable_iff by blast
  then have "?i \<in> set ?ms" by simp
  from movable_unfinished [OF this] have i: "?i < length (pl_tasks pl)" "\<not> is_finished (snd (pl_tasks pl ! ?i))"
    by blast+
  let ?run = "fst (pl_tasks pl ! ?i)" and ?t = "snd (pl_tasks pl ! ?i)"
  let ?now = "case ?t of Running since _ _ _ _ \<Rightarrow> since | _ \<Rightarrow> bu_clock bu (pl_reads pl)"
  obtain t' sys' where s: "task_step bu ?now ?run ?t (pl_system pl) = (t', sys')"
    by (cases "task_step bu ?now ?run ?t (pl_system pl)")
  show ?thesis
    by (rule that [OF i(1) _ i(2) s]) (use ne s in \<open>simp_all add: turn_def Let_def\<close>)
qed

definition total :: "nat \<Rightarrow> (string \<times> task) list \<Rightarrow> nat" where
  "total limit tasks = sum_list (map (rank limit \<circ> snd) tasks)"

lemma sum_list_split:
  fixes f :: "'a \<Rightarrow> nat"
  assumes "i < length xs"
  shows "sum_list (map f xs) = f (xs ! i) + sum_list (map f (take i xs @ drop (Suc i) xs))"
proof -
  have "sum_list (map f xs) = sum_list (map f (take i xs @ xs ! i # drop (Suc i) xs))"
    using id_take_nth_drop [OF assms] by simp
  then show ?thesis by simp
qed

lemma sum_list_update':
  fixes f :: "'a \<Rightarrow> nat"
  assumes "i < length xs"
  shows "sum_list (map f (xs[i := x])) = sum_list (map f xs) - f (xs ! i) + f x"
  using sum_list_split [OF assms, of f] sum_list_split [of i "xs[i := x]" f] assms by simp

lemma sum_list_member:
  fixes f :: "'a \<Rightarrow> nat"
  shows "i < length xs \<Longrightarrow> f (xs ! i) \<le> sum_list (map f xs)"
  using sum_list_split [of i xs f] by simp

lemma total_zero: "total limit tasks = 0 \<longleftrightarrow> list_all (is_finished \<circ> snd) tasks"
proof -
  have "rank limit t = 0 \<longleftrightarrow> is_finished t" for t by (cases t) simp_all
  then show ?thesis by (auto simp: total_def sum_list_eq_0_iff list_all_iff)
qed

lemma turn_lowers_total:
  assumes "0 < bu_concurrency bu"
  shows "total (bu_limit bu) (pl_tasks (turn bu c pl)) \<le> total (bu_limit bu) (pl_tasks pl) - 1"
proof (cases "list_all (is_finished \<circ> snd) (pl_tasks pl)")
  case True
  then have "turn bu c pl = pl" using movable_iff [OF assms] by (simp add: turn_def)
  with True show ?thesis using total_zero [of "bu_limit bu" "pl_tasks pl"] by simp
next
  case False
  obtain i now run t t' sys' where 1: "i < length (pl_tasks pl)" "pl_tasks pl ! i = (run, t)" "\<not> is_finished t"
    "task_step bu now run t (pl_system pl) = (t', sys')" "pl_tasks (turn bu c pl) = (pl_tasks pl)[i := (run, t')]"
    by (rule turn_step [OF assms False]) blast
  have lt: "rank (bu_limit bu) t' < rank (bu_limit bu) t" using step_lowers_rank [OF 1(4,3)] .
  have le: "rank (bu_limit bu) t \<le> total (bu_limit bu) (pl_tasks pl)"
    using sum_list_member [OF 1(1), of "rank (bu_limit bu) \<circ> snd"] 1(2) by (simp add: total_def)
  have "total (bu_limit bu) (pl_tasks (turn bu c pl)) =
      total (bu_limit bu) (pl_tasks pl) - rank (bu_limit bu) t + rank (bu_limit bu) t'"
    using sum_list_update' [OF 1(1), of "rank (bu_limit bu) \<circ> snd" "(run, t')"] 1(2,5) by (simp add: total_def)
  with lt le show ?thesis by linarith
qed

section \<open>What a burst keeps\<close>

text \<open>
  \<open>common sys m\<close>: what holds of the shared system after \<open>m\<close> effects. A turn of a task keeps it,
  counting its effect, and keeps what is known of the task and of every other one.
\<close>

locale burst_contract =
  fixes bu :: burst
    and common :: "system \<Rightarrow> nat \<Rightarrow> bool"
    and ok :: "system \<Rightarrow> string \<Rightarrow> task \<Rightarrow> bool"
    and effects :: "task \<Rightarrow> nat"
  assumes slots: "0 < bu_concurrency bu"
    and idle: "effects Waiting = 0"
    and step_law: "common sys m \<Longrightarrow> ok sys run t \<Longrightarrow> \<not> is_finished t \<Longrightarrow> effects t \<le> m \<Longrightarrow>
      task_step bu now run t sys = (t', sys') \<Longrightarrow> common sys' (m - effects t + effects t') \<and> ok sys' run t'"
    and frame_law: "common sys m \<Longrightarrow> ok sys run t \<Longrightarrow> \<not> is_finished t \<Longrightarrow>
      task_step bu now run t sys = (t', sys') \<Longrightarrow> run' \<noteq> run \<Longrightarrow> ok sys run' u \<Longrightarrow> ok sys' run' u"
begin

definition pool_inv :: "pool \<Rightarrow> bool" where
  "pool_inv pl \<longleftrightarrow> distinct (map fst (pl_tasks pl)) \<and>
     common (pl_system pl) (sum_list (map (effects \<circ> snd) (pl_tasks pl))) \<and>
     (\<forall>i < length (pl_tasks pl). ok (pl_system pl) (fst (pl_tasks pl ! i)) (snd (pl_tasks pl ! i)))"

lemma turn_inv:
  assumes "pool_inv pl"
  shows "pool_inv (turn bu c pl) \<and> map fst (pl_tasks (turn bu c pl)) = map fst (pl_tasks pl)"
proof (cases "list_all (is_finished \<circ> snd) (pl_tasks pl)")
  case True
  then have "turn bu c pl = pl" using movable_iff [OF slots] by (simp add: turn_def)
  with assms show ?thesis by simp
next
  case False
  obtain i now run t t' sys' where 1: "i < length (pl_tasks pl)" "pl_tasks pl ! i = (run, t)" "\<not> is_finished t"
    "task_step bu now run t (pl_system pl) = (t', sys')"
    "pl_tasks (turn bu c pl) = (pl_tasks pl)[i := (run, t')]" "pl_system (turn bu c pl) = sys'"
    by (rule turn_step [OF slots False]) blast
  let ?m = "sum_list (map (effects \<circ> snd) (pl_tasks pl))"
  from assms have inv: "distinct (map fst (pl_tasks pl))" "common (pl_system pl) ?m"
    "\<And>j. j < length (pl_tasks pl) \<Longrightarrow> ok (pl_system pl) (fst (pl_tasks pl ! j)) (snd (pl_tasks pl ! j))"
    by (auto simp: pool_inv_def)
  have own: "ok (pl_system pl) run t" using inv(3) [OF 1(1)] 1(2) by simp
  have le: "effects t \<le> ?m" using sum_list_member [OF 1(1), of "effects \<circ> snd"] 1(2) by simp
  from step_law [OF inv(2) own 1(3) le 1(4)] have new: "common sys' (?m - effects t + effects t')" "ok sys' run t'"
    by blast+
  have names: "map fst (pl_tasks (turn bu c pl)) = map fst (pl_tasks pl)"
    using 1(1,2,5) by (simp add: map_update list_update_same_conv)
  have "ok sys' (fst (pl_tasks pl ! j)) (snd (pl_tasks pl ! j))" if j: "j < length (pl_tasks pl)" "j \<noteq> i" for j
  proof -
    have "map fst (pl_tasks pl) ! j \<noteq> map fst (pl_tasks pl) ! i"
      using inv(1) j 1(1) by (subst nth_eq_iff_index_eq) auto
    then have "fst (pl_tasks pl ! j) \<noteq> run" using j(1) 1(1,2) by simp
    from frame_law [OF inv(2) own 1(3,4) this inv(3) [OF j(1)]] show ?thesis .
  qed
  moreover have "sum_list (map (effects \<circ> snd) (pl_tasks (turn bu c pl))) = ?m - effects t + effects t'"
    using sum_list_update' [OF 1(1), of "effects \<circ> snd" "(run, t')"] 1(2,5) by simp
  ultimately show ?thesis
    using inv(1) names new 1(1,5,6) by (simp add: pool_inv_def nth_list_update)
qed

lemma turns_inv:
  assumes "pool_inv pl"
  shows "pool_inv (turns bu pick k pl) \<and> map fst (pl_tasks (turns bu pick k pl)) = map fst (pl_tasks pl) \<and>
    total (bu_limit bu) (pl_tasks (turns bu pick k pl)) \<le> total (bu_limit bu) (pl_tasks pl) - k"
  using assms
proof (induction k arbitrary: pl)
  case (Suc k)
  from turn_inv [OF Suc.prems] have t: "pool_inv (turn bu (pick k) pl)"
    "map fst (pl_tasks (turn bu (pick k) pl)) = map fst (pl_tasks pl)" by blast+
  with Suc.IH [OF t(1)] turn_lowers_total [OF slots, of "pick k" pl] show ?case by fastforce
qed simp

text \<open>A burst ends with every task over, whatever the order of turns.\<close>

lemma burst_ends:
  assumes "distinct runs" and "common sys 0" and "\<And>run. run \<in> set runs \<Longrightarrow> ok sys run Waiting"
  obtains pl where "run_burst bu pick reads runs sys = pl" "map fst (pl_tasks pl) = runs"
    "common (pl_system pl) (sum_list (map (effects \<circ> snd) (pl_tasks pl)))"
    "\<And>run t. (run, t) \<in> set (pl_tasks pl) \<Longrightarrow> is_finished t \<and> ok (pl_system pl) run t"
proof -
  define pl0 where "pl0 = \<lparr>pl_tasks = map (\<lambda>run. (run, Waiting)) runs, pl_system = sys, pl_reads = reads, pl_latencies = []\<rparr>"
  define pl where "pl = turns bu pick (length runs * (bu_limit bu + 2)) pl0"
  have zero: "sum_list (map (effects \<circ> snd) (pl_tasks pl0)) = 0"
    and start: "total (bu_limit bu) (pl_tasks pl0) = length runs * (bu_limit bu + 2)"
    and names: "map fst (pl_tasks pl0) = runs"
    by (simp_all add: pl0_def idle comp_def sum_list_triv total_def)
  have "common (pl_system pl0) 0" using assms(2) by (simp add: pl0_def)
  moreover have "ok (pl_system pl0) (fst (pl_tasks pl0 ! i)) (snd (pl_tasks pl0 ! i))" if "i < length (pl_tasks pl0)" for i
    using assms(3) that by (simp add: pl0_def)
  ultimately have "pool_inv pl0" using assms(1) by (simp only: pool_inv_def zero names) blast
  note inv = turns_inv [OF this, of pick "length runs * (bu_limit bu + 2)", folded pl_def]
  then have "total (bu_limit bu) (pl_tasks pl) = 0" using start by simp
  then have "list_all (is_finished \<circ> snd) (pl_tasks pl)" unfolding total_zero .
  then have over: "is_finished t" if "(run, t) \<in> set (pl_tasks pl)" for run t
    using that by (auto simp: list_all_iff)
  have ok: "ok (pl_system pl) run t" if "(run, t) \<in> set (pl_tasks pl)" for run t
    using inv that unfolding pool_inv_def in_set_conv_nth by (metis fst_conv snd_conv)
  show ?thesis
    by (rule that [of pl]) (use inv names over ok in \<open>simp_all add: pl_def pl0_def run_burst_def pool_inv_def\<close>)
qed

end

section \<open>A task by itself\<close>

text \<open>
  The turns of a task that nobody disturbs are one call of the engine: the same result and state,
  the same world and the same threads.
\<close>

abbreviation alone :: "burst \<Rightarrow> rat \<Rightarrow> string \<Rightarrow> task \<times> system \<Rightarrow> task \<times> system" where
  "alone bu now run x \<equiv> task_step bu now run (fst x) (snd x)"

lemma alone_finished: "(alone bu now run ^^ k) (Finished r st, sys) = (Finished r st, sys)"
  by (induction k) simp_all

lemma alone_drives:
  assumes "drive (bu_runtime bu) True k d n st (sys_world sys) = (r, cp, w)"
    and "map_of (sys_threads sys) run = Some \<lparr>cp_state = st, cp_next = Some n\<rparr>"
  shows "\<exists>sys'. (alone bu now run ^^ Suc k) (Running since k d n st, sys) = (Finished r (cp_state cp), sys') \<and>
    sys_world sys' = w \<and> map_of (sys_threads sys') = (map_of (sys_threads sys))(run \<mapsto> cp)"
  using assms
proof (induction k arbitrary: d n st sys)
  case (Suc k)
  let ?rt = "bu_runtime bu"
  obtain q w1 where q: "exec_step ?rt True d n st (sys_world sys) = (q, w1)"
    by (cases "exec_step ?rt True d n st (sys_world sys)")
  have first: "(alone bu now run ^^ Suc (Suc k)) x = (alone bu now run ^^ Suc k) (alone bu now run x)" for x
    by (simp only: funpow_Suc_right comp_apply)
  show ?case
  proof (cases q)
    case (Next nx st')
    show ?thesis
    proof (cases nx)
      case None
      with Next q Suc.prems(1) show ?thesis
        unfolding first by (auto simp: alone_finished save_def AList.update_conv')
    next
      case (Some n')
      let ?sys1 = "save run \<lparr>cp_state = st', cp_next = Some n'\<rparr> w1 sys"
      from Some Next q Suc.prems(1) have "drive ?rt True k None n' st' (sys_world ?sys1) = (r, cp, w)"
        by (simp add: save_def)
      from Suc.IH [OF this] Some Next q show ?thesis
        unfolding first by (auto simp: save_def AList.update_conv' fun_eq_iff)
    qed
  qed (use q Suc.prems in \<open>auto simp: first alone_finished save_def AList.update_conv' simp del: funpow.simps\<close>)
qed (auto simp: fun_upd_idem)

lemma alone_invokes:
  assumes "run_engine (bu_runtime bu) True (bu_limit bu) (bu_call bu run) run sys = (r, st, sys1)"
  shows "\<exists>sys2. (alone bu now run ^^ Suc (Suc (bu_limit bu))) (Waiting, sys) = (Finished r st, sys2) \<and>
    sys_world sys2 = sys_world sys1 \<and> map_of (sys_threads sys2) = map_of (sys_threads sys1)"
proof -
  have first: "(alone bu now run ^^ Suc (Suc (bu_limit bu))) x = (alone bu now run ^^ Suc (bu_limit bu)) (alone bu now run x)" for x
    by (simp only: funpow_Suc_right comp_apply)
  have drives: "\<exists>sys2. (alone bu now run ^^ Suc (bu_limit bu)) (Running now (bu_limit bu) d n st0, sys0) = (Finished r st, sys2) \<and>
      sys_world sys2 = sys_world sys1 \<and> map_of (sys_threads sys2) = map_of (sys_threads sys1)"
    if d: "drive (bu_runtime bu) True (bu_limit bu) d n st0 (sys_world sys) = (r, cp, w)" "st = cp_state cp"
      "sys1 = \<lparr>sys_threads = AList.update run cp (sys_threads sys), sys_world = w\<rparr>"
      and sys0: "sys_world sys0 = sys_world sys" "map_of (sys_threads sys0) = (map_of (sys_threads sys))(run \<mapsto> \<lparr>cp_state = st0, cp_next = Some n\<rparr>)"
    for d n st0 cp w sys0
  proof -
    have "map_of (sys_threads sys0) run = Some \<lparr>cp_state = st0, cp_next = Some n\<rparr>" using sys0(2) by simp
    from alone_drives [OF d(1) [folded sys0(1)] this, of now now] d(2,3) sys0(2) show ?thesis
      by (auto simp: AList.update_conv')
  qed
  show ?thesis
  proof (cases "bu_call bu run")
    case (Input inp)
    let ?st = "overlay (thread_state sys run) inp"
    obtain cp w where "drive (bu_runtime bu) True (bu_limit bu) None Diagnose ?st (sys_world sys) = (r, cp, w)"
      "st = cp_state cp" "sys1 = \<lparr>sys_threads = AList.update run cp (sys_threads sys), sys_world = w\<rparr>"
      using assms Input by (auto simp: run_engine_def split: prod.splits)
    from drives [OF this, of "save run \<lparr>cp_state = ?st, cp_next = Some Diagnose\<rparr> (sys_world sys) sys"] Input
    show ?thesis unfolding first by (simp add: begin_call_def Let_def save_def AList.update_conv')
  next
    case (Resume h)
    show ?thesis
    proof (cases "map_of (sys_threads sys) run")
      case None
      with Resume assms show ?thesis by (simp add: first run_engine_def begin_call_def alone_finished del: funpow.simps)
    next
      case (Some cp0)
      show ?thesis
      proof (cases "cp_next cp0")
        case None
        with Some Resume assms show ?thesis
          by (simp add: first run_engine_def begin_call_def alone_finished del: funpow.simps)
      next
        case n: (Some n)
        obtain cp w where "drive (bu_runtime bu) True (bu_limit bu) (Some h) n (cp_state cp0) (sys_world sys) = (r, cp, w)"
          "st = cp_state cp" "sys1 = \<lparr>sys_threads = AList.update run cp (sys_threads sys), sys_world = w\<rparr>"
          using assms Resume Some n by (auto simp: run_engine_def split: prod.splits)
        moreover have "cp0 = \<lparr>cp_state = cp_state cp0, cp_next = Some n\<rparr>" using n by (cases cp0) simp
        then have "map_of (sys_threads sys) = (map_of (sys_threads sys))(run \<mapsto> \<lparr>cp_state = cp_state cp0, cp_next = Some n\<rparr>)"
          using Some by (simp add: fun_upd_idem)
        ultimately show ?thesis
          using drives [of "Some h" n "cp_state cp0" cp w sys] Resume Some n unfolding first by (simp add: begin_call_def)
      qed
    qed
  qed
qed

end
