(* ===== verification/Load_Facts.thy ===== *)
theory Load_Facts
  imports Load_Turns
begin

text \<open>
  The load test for every number of runs: the first burst parks every run at its approval and changes
  nothing that the runs share; in the second one every turn of another run leaves the fingerprint of
  a parked run valid, so that each run revalidates, restarts the service once and completes.
\<close>

section \<open>What a restart leaves\<close>

definition signals_text :: "(rat \<Rightarrow> string) \<Rightarrow> service_state \<Rightarrow> string" where
  "signals_text fr s = json_dumps True fr (PDict
     [(''status'', PStr (status s)), (''memory_pct'', PFloat (memory_pct s)), (''cpu_pct'', PFloat (cpu_pct s)),
      (''error_rate'', PFloat (error_rate s))])"

lemma restart_fingerprint:
  assumes "map_of (ob_services ob) svc = Some (service_view now s)"
  shows "compute_fingerprint fr digest ob (restart_action svc) = Inr (digest (signals_text fr s))"
proof -
  have "relevant_fields ob ''restart_service'' svc = Inr
      [(''status'', PStr (status s)), (''memory_pct'', PFloat (memory_pct s)), (''cpu_pct'', PFloat (cpu_pct s)),
       (''error_rate'', PFloat (error_rate s))]"
    unfolding relevant_fields_of(1) service_fields_known(1) [OF assms]
    by (simp only: service_view_def service_obs.select_convs health_obs.select_convs metrics_obs.select_convs)
  then show ?thesis
    by (simp only: compute_fingerprint_def split_restart bindR_simps prod.case signals_text_def)
qed

text \<open>A restart of a service at its baseline leaves the fields that the fingerprint covers.\<close>

definition same_signals :: "service_state \<Rightarrow> service_state \<Rightarrow> bool" where
  "same_signals s s' \<longleftrightarrow> status s = status s' \<and> memory_pct s = memory_pct s' \<and> cpu_pct s = cpu_pct s' \<and>
     error_rate s = error_rate s'"

lemma anchored_same:
  assumes "anchored rt st svc s" and "same_signals s s'"
  shows "anchored rt st svc s'"
proof -
  from assms(1) obtain fp where fp: "st_state_fingerprint st = Some fp"
    "\<And>ob now. map_of (ob_services ob) svc = Some (service_view now s) \<Longrightarrow>
       compute_fingerprint (rt_float rt) (rt_digest rt) ob (restart_action svc) = Inr fp"
    unfolding anchored_def by blast
  let ?ob = "\<lparr>ob_services = [(svc, service_view [] s)], ob_records = []\<rparr>"
  have ob: "map_of (ob_services ?ob) svc = Some (service_view [] s)" by simp
  have "fp = rt_digest rt (signals_text (rt_float rt) s)"
    using fp(2) [OF ob] unfolding restart_fingerprint [OF ob] by simp
  moreover have "signals_text fr s = signals_text fr s'" for fr
    using assms(2) unfolding same_signals_def signals_text_def by presburger
  ultimately have "fp = rt_digest rt (signals_text (rt_float rt) s')" by simp
  then show ?thesis unfolding anchored_def using fp(1) restart_fingerprint by blast
qed

definition parked :: "runtime \<Rightarrow> string \<Rightarrow> service_state \<Rightarrow> system \<Rightarrow> string \<Rightarrow> bool" where
  "parked rt svc s sys run \<longleftrightarrow> (\<exists>st. map_of (sys_threads sys) run = Some \<lparr>cp_state = st, cp_next = Some Await\<rparr> \<and>
     suspended_at st run svc s \<and> anchored rt st svc s \<and> st_risk_tier_final st \<noteq> None)"

definition steady :: "string \<Rightarrow> service_state \<Rightarrow> service_state \<Rightarrow> bool" where
  "steady svc s0 s \<longleftrightarrow> same_signals s0 s \<and> (svc_has_disk s \<longrightarrow> disk_pct s < DEGRADED_THRESHOLD) \<and> same_signals s (restart s)"

lemma restart_key_eq: "restart_key run svc = restart_key run' svc \<longleftrightarrow> run = run'"
  by (simp only: append_same_eq)

lemma restart_twice: "restart (restart s) = (restart s)\<lparr>restart_count := restart_count s + 2\<rparr>"
  by (simp add: restart_def clear_transient_def)

lemma status_restart_count [simp]: "status (s\<lparr>restart_count := n\<rparr>) = status s"
  by (simp add: status_def worst_pct_def)

lemma same_signals_trans: "same_signals s s' \<Longrightarrow> same_signals s' s'' \<Longrightarrow> same_signals s s''"
  by (simp add: same_signals_def)

lemma restart_steady:
  assumes "steady svc s0 s"
  shows "steady svc s0 (restart s)"
proof -
  have "same_signals (restart s) (restart (restart s))" unfolding restart_twice by (simp add: same_signals_def)
  moreover have "svc_has_disk (restart s) = svc_has_disk s" "disk_pct (restart s) = disk_pct s"
    by (simp_all add: restart_def clear_transient_def)
  ultimately show ?thesis using assms same_signals_trans unfolding steady_def by metis
qed

lemma steady_funpow: "steady svc s s \<Longrightarrow> steady svc s ((restart ^^ m) s)"
  by (induction m) (simp_all add: restart_steady)

lemma build_sandbox_sandbox: "sandbox (build_sandbox None initial)"
proof -
  have "wf_repo (new_records SEED_RECORDS)" by code_simp
  then have "wf_ctx (build_sandbox None initial)" by (simp add: build_sandbox_def local_services_def wf_ctx_def)
  then show ?thesis
    by (simp add: sandbox_def build_sandbox_def local_services_def svc_identity_def new_service_def KNOWN_SERVICES_def SERVICE_ROLES_def has_disk_def)
qed

section \<open>The first burst\<close>

text \<open>What is known of a run between its nodes, and how many nodes it has left.\<close>

fun starting :: "runtime \<Rightarrow> string \<Rightarrow> service_state \<Rightarrow> string \<Rightarrow> node \<Rightarrow> agent_state \<Rightarrow> bool" where
  "starting rt svc s run Diagnose st = (started st \<and> st_run_id st = Some run)"
| "starting rt svc s run Propose st = (\<exists>n. posed (shows_service s) st run svc n)"
| "starting rt svc s run Classify st = ((\<exists>n. posed (shows_service s) st run svc n) \<and> sound st \<and>
     st_proposed_action st = Some (restart_action svc) \<and> anchored rt st svc s)"
| "starting rt svc s run Mark_awaiting st = ((\<exists>n. posed (shows_service s) st run svc n) \<and> sound st \<and>
     st_proposed_action st = Some (restart_action svc) \<and> anchored rt st svc s \<and> st_risk_tier_final st \<noteq> None)"
| "starting rt svc s run Await st = (suspended_at st run svc s \<and> anchored rt st svc s \<and> st_risk_tier_final st \<noteq> None)"
| "starting rt svc s run n st = False"

fun start_left :: "node \<Rightarrow> nat" where
  "start_left Diagnose = 5" | "start_left Propose = 4" | "start_left Classify = 3"
| "start_left Mark_awaiting = 2" | "start_left n = 1"

lemma starting_goes:
  assumes sb: "sandbox (w_ctx w)" and rt: "scripted_restart rt svc MEDIUM"
    and s: "map_of (clients (w_ctx w)) svc = Some s" and at: "starting rt svc s run n st" and n: "n \<noteq> Await"
  obtains n' st' w' where "goes rt True n st w n' st' w'" "w_ctx w' = w_ctx w" "starting rt svc s run n' st'"
    "start_left n' < start_left n"
proof (cases n)
  case Diagnose
  with at have st: "started st" "st_run_id st = Some run" by simp_all
  obtain st' w' where "goes rt True Diagnose st w Propose st' w'" "w_ctx w' = w_ctx w"
    "posed (shows_service s) st' run svc (cycles st)"
    by (rule go_diagnose [where P = "shows_service s", OF sb rt st s]) (auto simp: shows_service_def)
  with Diagnose show ?thesis by (intro that [of Propose st' w']) auto
next
  case Propose
  with at obtain m where p: "posed (shows_service s) st run svc m" by auto
  have known: "svc \<in> set KNOWN_SERVICES" using rt by (simp add: scripted_restart_def)
  obtain st' w' where 1: "goes rt True Propose st w Classify st' w'" "w_ctx w' = w_ctx w"
    "posed (shows_service s) st' run svc m" "sound st'" "st_proposed_action st' = Some (restart_action svc)"
    by (rule go_propose [OF rt p])
  with propose_anchors [OF known p 1(1,5)] Propose show ?thesis by (intro that [of Classify st' w']) auto
next
  case Classify
  with at obtain m where p: "posed (shows_service s) st run svc m" "sound st"
    "st_proposed_action st = Some (restart_action svc)" "anchored rt st svc s" by auto
  obtain st' w' where "goes rt True Classify st w Mark_awaiting st' w'" "w_ctx w' = w_ctx w"
    "posed (shows_service s) st' run svc m" "sound st'" "st_proposed_action st' = Some (restart_action svc)"
    "st_risk_tier_final st' = Some (if MEDIUM = LOW then MEDIUM else MEDIUM)"
    "st_state_fingerprint st' = st_state_fingerprint st"
    by (rule go_classify_gated [OF rt p(1-3)]) simp
  with p(4) Classify show ?thesis by (intro that [of Mark_awaiting st' w']) (auto simp: anchored_def)
next
  case Mark_awaiting
  with at obtain m where p: "posed (shows_service s) st run svc m" "sound st"
    "st_proposed_action st = Some (restart_action svc)" "anchored rt st svc s" "st_risk_tier_final st \<noteq> None" by auto
  obtain st' w' where "goes rt True Mark_awaiting st w Await st' w'" "w_ctx w' = w_ctx w"
    "posed (shows_service s) st' run svc m" "sound st'" "st_proposed_action st' = st_proposed_action st"
    "st_risk_tier_final st' = st_risk_tier_final st" "st_state_fingerprint st' = st_state_fingerprint st"
    "st_status st' = Some AWAITING_APPROVAL"
    by (rule go_mark_awaiting [OF p(1,2)])
  with p Mark_awaiting show ?thesis by (intro that [of Await st' w']) (auto simp: anchored_def suspended_at_def)
qed (use at n in simp_all)

lemma starting_suspends:
  assumes "starting rt svc s run Await st"
  obtains p where "exec_step rt True None Await st w = (Suspended p, w)"
proof -
  from assms have "sound st" "st_risk_tier_final st \<noteq> None" by (simp_all add: suspended_at_def)
  from approval_request_total [OF this] obtain p where "approval_request st = Inr p" by blast
  then show ?thesis by (intro that [of p]) (simp add: exec_step_def)
qed

text \<open>The contract of the first burst: what the runs share is as it was.\<close>

definition start_common :: "string \<Rightarrow> service_state \<Rightarrow> tool_ctx \<Rightarrow> system \<Rightarrow> nat \<Rightarrow> bool" where
  "start_common svc s c sys m \<longleftrightarrow> w_ctx (sys_world sys) = c \<and> sandbox c \<and> map_of (clients c) svc = Some s"

definition start_ok :: "runtime \<Rightarrow> string \<Rightarrow> service_state \<Rightarrow> system \<Rightarrow> string \<Rightarrow> task \<Rightarrow> bool" where
  "start_ok rt svc s sys run t \<longleftrightarrow> (case t of
     Waiting \<Rightarrow> map_of (sys_threads sys) run = None
   | Running _ k d n st \<Rightarrow> d = None \<and> starting rt svc s run n st \<and> start_left n \<le> k
   | Finished r st \<Rightarrow> interrupted r \<and> parked rt svc s sys run)"

lemma save_simps [simp]:
  "map_of (sys_threads (save run cp w sys)) = (map_of (sys_threads sys))(run \<mapsto> cp)"
  "sys_world (save run cp w sys) = w"
  by (simp_all add: save_def AList.update_conv')

text \<open>A step of a task touches the thread of its own run only.\<close>

lemma step_threads:
  assumes "task_step bu now run t sys = (t', sys')" and "run' \<noteq> run"
  shows "map_of (sys_threads sys') run' = map_of (sys_threads sys) run'"
  using assms
  by (cases "(bu, now, run, t, sys)" rule: task_step.cases)
    (auto simp: begin_call_def Let_def
      split: invocation.splits option.splits prod.splits step_result.splits)

lemma start_contract:
  assumes rt: "scripted_restart rt svc MEDIUM" and limit: "5 \<le> limit" and slots: "0 < ls_concurrency ls"
  shows "burst_contract (start_burst rt limit ls) (start_common svc s c) (start_ok rt svc s) (\<lambda>_. 0)"
proof (unfold_locales, goal_cases)
  case (3 sys m run t now t' sys')
  from 3(1) have w: "w_ctx (sys_world sys) = c" "sandbox c" "map_of (clients c) svc = Some s"
    by (simp_all add: start_common_def)
  show ?case
  proof (cases t)
    case Waiting
    with 3(2) have fresh: "map_of (sys_threads sys) run = None" by (simp add: start_ok_def)
    from Waiting 3(5) have "t' = Running now limit None Diagnose (first_state sys run)" "w_ctx (sys_world sys') = c"
      using w by (auto simp: begin_call_def start_burst_def Let_def first_state_def)
    then show ?thesis
      using fresh_started [OF fresh] limit 3(1) by (simp add: start_ok_def start_common_def first_state_facts)
  next
    case (Running since k d n st)
    with 3(2) have at: "d = None" "starting rt svc s run n st" "start_left n \<le> k" by (simp_all add: start_ok_def)
    then obtain j where k: "k = Suc j" by (cases k; cases n) auto
    show ?thesis
    proof (cases "n = Await")
      case True
      obtain p where "exec_step rt True None Await st (sys_world sys) = (Suspended p, sys_world sys)"
        using starting_suspends at(2) True by blast
      with True 3(5) Running at(1) k have "t' = Finished (Interrupted p) st"
        "sys' = save run \<lparr>cp_state = st, cp_next = Some Await\<rparr> (sys_world sys) sys"
        by (simp_all add: start_burst_def)
      with True at(2) 3(1) show ?thesis by (simp add: start_ok_def start_common_def parked_def)
    next
      case False
      obtain n' st' w' where "goes rt True n st (sys_world sys) n' st' w'" "w_ctx w' = w_ctx (sys_world sys)"
        "starting rt svc s run n' st'" "start_left n' < start_left n"
        using starting_goes [OF _ rt _ at(2) False, of "sys_world sys"] w by auto
      with 3(1,5) Running at k show ?thesis
        by (auto simp: start_burst_def goes_def start_ok_def start_common_def)
    qed
  qed (use 3 in simp)
next
  case (4 sys m run t now t' sys' run' u)
  from step_threads [OF 4(4,5)] 4(6) show ?case
    by (auto simp: start_ok_def parked_def split: task.splits)
qed (use slots in \<open>simp_all add: start_burst_def\<close>)

section \<open>The second burst\<close>

fun resuming :: "runtime \<Rightarrow> string \<Rightarrow> service_state \<Rightarrow> string \<Rightarrow> node \<Rightarrow> agent_state \<Rightarrow> bool" where
  "resuming rt svc s run Await st = (suspended_at st run svc s \<and> anchored rt st svc s \<and> st_risk_tier_final st \<noteq> None)"
| "resuming rt svc s run Revalidate st = (suspended_at st run svc s \<and> anchored rt st svc s)"
| "resuming rt svc s run Prepare st = ((\<exists>n. posed (\<lambda>_. True) st run svc n) \<and> sound st \<and>
     st_proposed_action st = Some (restart_action svc))"
| "resuming rt svc s run Execute st = ((\<exists>n. posed (\<lambda>_. True) st run svc n) \<and> sound st \<and>
     st_proposed_action st = Some (restart_action svc) \<and> st_idempotency_key st = Some (restart_key run svc))"
| "resuming rt svc s run Verify st = ((\<exists>n. posed (\<lambda>_. True) st run svc n) \<and> sound st \<and>
     st_proposed_action st = Some (restart_action svc) \<and> executed st)"
| "resuming rt svc s run Completed st = (st_run_id st \<noteq> None)"
| "resuming rt svc s run n st = False"

fun resume_left :: "node \<Rightarrow> nat" where
  "resume_left Await = 6" | "resume_left Revalidate = 5" | "resume_left Prepare = 4"
| "resume_left Execute = 3" | "resume_left Verify = 2" | "resume_left n = 1"

definition acted :: "node \<Rightarrow> bool" where
  "acted n \<longleftrightarrow> n \<in> {Verify, Completed}"

definition answer_at :: "node \<Rightarrow> human_decision option" where
  "answer_at n = (if n = Await then Some load_decision else None)"

definition effect :: "task \<Rightarrow> nat" where
  "effect t = (case t of Waiting \<Rightarrow> 0 | Running _ _ _ n _ \<Rightarrow> of_bool (acted n) | Finished _ _ \<Rightarrow> 1)"

text \<open>The nodes that change nothing, and the one that restarts the service.\<close>

lemma resuming_goes:
  assumes sb: "sandbox (w_ctx w)" and known: "svc \<in> set KNOWN_SERVICES"
    and s: "map_of (clients (w_ctx w)) svc = Some s" and same: "steady svc s0 s" and healthy: "status s = ''healthy''"
    and at: "resuming rt svc s0 run n st" and n: "n \<notin> {Execute, Completed}"
  obtains n' st' w' where "exec_step rt True (answer_at n) n st w = (Next (Some n') st', w')" "w_ctx w' = w_ctx w"
    "resuming rt svc s0 run n' st'" "resume_left n' < resume_left n" "acted n' = acted n" "n' \<noteq> Await"
proof (cases n)
  case Await
  with at have p: "suspended_at st run svc s0" "anchored rt st svc s0" "st_risk_tier_final st \<noteq> None" by simp_all
  have h: "hd_decision load_decision = Approved" "hd_edited_action load_decision = None"
    by (simp_all add: load_decision_def)
  obtain st' w' where "exec_step rt True (Some load_decision) Await st w = (Next (Some Revalidate) st', w')"
    "w_ctx w' = w_ctx w" "suspended_at st' run svc s0" "st_state_fingerprint st' = st_state_fingerprint st"
    by (rule step_approve [OF p(1,3) h])
  with Await p(2) show ?thesis
    by (intro that [of Revalidate st' w']) (auto simp: answer_at_def anchored_def acted_def)
next
  case Revalidate
  with at have p: "suspended_at st run svc s0" "anchored rt st svc s0" by simp_all
  have "same_signals s0 s" using same by (simp add: steady_def)
  note anch = anchored_same [OF p(2) this]
  obtain st' w' m where "goes rt True Revalidate st w Prepare st' w'" "w_ctx w' = w_ctx w"
    "posed (\<lambda>_. True) st' run svc m" "sound st'" "st_proposed_action st' = Some (restart_action svc)"
    by (rule go_revalidate [OF sb known p(1) anch s])
  with Revalidate show ?thesis
    by (intro that [of Prepare st' w']) (auto simp: answer_at_def goes_def acted_def)
next
  case Prepare
  with at obtain m where p: "posed (\<lambda>_. True) st run svc m" "sound st"
    "st_proposed_action st = Some (restart_action svc)" by auto
  obtain st' w' where "goes rt True Prepare st w Execute st' w'" "w_ctx w' = w_ctx w"
    "posed (\<lambda>_. True) st' run svc m" "sound st'" "st_proposed_action st' = Some (restart_action svc)"
    "st_idempotency_key st' = Some (restart_key run svc)"
    by (rule go_prepare [OF p])
  with Prepare show ?thesis
    by (intro that [of Execute st' w']) (auto simp: answer_at_def goes_def acted_def)
next
  case Verify
  with at obtain m where p: "posed (\<lambda>_. True) st run svc m" "sound st"
    "st_proposed_action st = Some (restart_action svc)" "executed st" by auto
  obtain st' w' where "goes rt True Verify st w (if status s = ''healthy'' then Completed else Rolling_back) st' w'"
    "w_ctx w' = w_ctx w" "posed (\<lambda>_. True) st' run svc m" "sound st'"
    "st_proposed_action st' = Some (restart_action svc)" "st_compensation st' = st_compensation st"
    by (rule go_verify [OF p(1,2,4,3) s])
  with Verify healthy show ?thesis
    by (intro that [of Completed st' w']) (auto simp: answer_at_def goes_def acted_def posed_def)
qed (use at n in simp_all)

lemma resuming_restarts:
  assumes at: "resuming rt svc s0 run Execute st" and s: "map_of (clients (w_ctx w)) svc = Some s"
    and new: "ctx_get (w_ctx w) (restart_key run svc) = None"
  obtains st' w' where "exec_step rt True None Execute st w = (Next (Some Verify) st', w')"
    "resuming rt svc s0 run Verify st'" "map_of (clients (w_ctx w')) svc = Some (restart s)"
    "\<And>k. k \<noteq> restart_key run svc \<Longrightarrow> ctx_get (w_ctx w') k = ctx_get (w_ctx w) k"
proof -
  from at obtain m where p: "posed (\<lambda>_. True) st run svc m" "sound st"
    "st_proposed_action st = Some (restart_action svc)" "st_idempotency_key st = Some (restart_key run svc)" by auto
  obtain st' w' why where go: "goes rt True Execute st w Verify st' w'"
    "posed (\<lambda>_. True) st' run svc m" "sound st'" "executed st'" "st_proposed_action st' = Some (restart_action svc)"
    "st_compensation st' = Some (noop_compensation why)"
    "clients (w_ctx w') = AList.update svc (restart s) (clients (w_ctx w))"
    "\<And>k. k \<noteq> restart_key run svc \<Longrightarrow> ctx_get (w_ctx w') k = ctx_get (w_ctx w) k"
    by (rule go_restart [OF p s new]) blast
  show ?thesis
    by (rule that [of st' w']) (use go in \<open>auto simp: goes_def AList.update_conv'\<close>)
qed

lemma resuming_completes:
  assumes "resuming rt svc s0 run Completed st"
  obtains st' w' where "exec_step rt True None Completed st w = (Next None st', w')"
    "st_final_state st' = Some COMPLETED" "w_ctx w' = w_ctx w"
  using assms by (auto simp: exec_step_def with_audit_def completed_def audit_entry_def Let_def)

text \<open>The contract of the second burst: the service has been restarted once per run that acted.\<close>

definition resume_common :: "string \<Rightarrow> service_state \<Rightarrow> system \<Rightarrow> nat \<Rightarrow> bool" where
  "resume_common svc s sys m \<longleftrightarrow> sandbox (w_ctx (sys_world sys)) \<and>
     map_of (clients (w_ctx (sys_world sys))) svc = Some ((restart ^^ m) s)"

definition resume_ok :: "runtime \<Rightarrow> string \<Rightarrow> service_state \<Rightarrow> system \<Rightarrow> string \<Rightarrow> task \<Rightarrow> bool" where
  "resume_ok rt svc s sys run t \<longleftrightarrow> (case t of
     Waiting \<Rightarrow> parked rt svc s sys run \<and> ctx_get (w_ctx (sys_world sys)) (restart_key run svc) = None
   | Running _ k d n st \<Rightarrow> d = answer_at n \<and> resuming rt svc s run n st \<and> resume_left n \<le> k \<and>
       (\<not> acted n \<longrightarrow> ctx_get (w_ctx (sys_world sys)) (restart_key run svc) = None)
   | Finished r st \<Rightarrow> r = Returned \<and> st_final_state st = Some COMPLETED)"

text \<open>A step of a run is either of the kinds above; the ledger keeps what it says of other runs.\<close>

lemma resume_step:
  assumes known: "svc \<in> set KNOWN_SERVICES" and steady: "steady svc s s" and healthy: "status s = ''healthy''"
    and bu: "bu = resume_burst rt limit ls" and limit: "6 \<le> limit"
    and common: "resume_common svc s sys m" and ok: "resume_ok rt svc s sys run t" and open': "\<not> is_finished t"
    and step: "task_step bu now run t sys = (t', sys')"
  shows "(effect t \<le> m \<longrightarrow> resume_common svc s sys' (m - effect t + effect t')) \<and> resume_ok rt svc s sys' run t' \<and>
    (\<forall>k. k \<noteq> restart_key run svc \<longrightarrow> ctx_get (w_ctx (sys_world sys')) k = ctx_get (w_ctx (sys_world sys)) k)"
proof (cases t)
  case Waiting
  with ok obtain st where th: "map_of (sys_threads sys) run = Some \<lparr>cp_state = st, cp_next = Some Await\<rparr>"
    "suspended_at st run svc s" "anchored rt st svc s" "st_risk_tier_final st \<noteq> None"
    and new: "ctx_get (w_ctx (sys_world sys)) (restart_key run svc) = None"
    by (auto simp: resume_ok_def parked_def)
  from Waiting step th(1) have "t' = Running now limit (Some load_decision) Await st" "sys' = sys"
    by (simp_all add: bu resume_burst_def begin_call_def)
  with Waiting th new common limit show ?thesis
    by (simp add: effect_def acted_def resume_ok_def answer_at_def)
next
  case (Running since k d n st)
  let ?w = "sys_world sys"
  from ok Running have at: "d = answer_at n" "resuming rt svc s run n st" "resume_left n \<le> k"
    and new: "\<not> acted n \<Longrightarrow> ctx_get (w_ctx ?w) (restart_key run svc) = None" by (simp_all add: resume_ok_def)
  from common have sb: "sandbox (w_ctx ?w)" and c: "map_of (clients (w_ctx ?w)) svc = Some ((restart ^^ m) s)"
    by (simp_all add: resume_common_def)
  have same: "steady svc s ((restart ^^ m) s)" by (rule steady_funpow [OF steady])
  then have well: "status ((restart ^^ m) s) = ''healthy''" using healthy by (simp add: steady_def same_signals_def)
  from at(3) obtain j where k: "k = Suc j" by (cases k; cases n) auto
  consider "n = Execute" | "n = Completed" | "n \<notin> {Execute, Completed}" by blast
  then show ?thesis
  proof cases
    case 1
    then have e: "answer_at n = None" "\<not> acted n" "acted Verify" "answer_at Verify = None"
      by (simp_all add: answer_at_def acted_def)
    obtain st' w' where x: "exec_step rt True None Execute st ?w = (Next (Some Verify) st', w')"
      "resuming rt svc s run Verify st'" "map_of (clients (w_ctx w')) svc = Some (restart ((restart ^^ m) s))"
      "\<And>k. k \<noteq> restart_key run svc \<Longrightarrow> ctx_get (w_ctx w') k = ctx_get (w_ctx ?w) k"
      using resuming_restarts [OF _ c new [OF e(2)]] at(2) 1 by blast
    have sb': "sandbox (w_ctx w')" by (rule exec_step_sandbox [OF sb x(1)])
    from step Running k at(1) 1 x(1) have "t' = Running since j None Verify st'"
      "sys_world sys' = w'" by (auto simp: bu resume_burst_def answer_at_def)
    with x sb' e at(3) k 1 Running show ?thesis
      by (simp add: resume_ok_def resume_common_def effect_def)
  next
    case 2
    obtain st' w' where x: "exec_step rt True None Completed st ?w = (Next None st', w')"
      "st_final_state st' = Some COMPLETED" "w_ctx w' = w_ctx ?w"
      using resuming_completes at(2) 2 by blast
    from step Running k at(1) 2 x(1) have "t' = Finished Returned st'" "sys_world sys' = w'"
      by (auto simp: bu resume_burst_def answer_at_def)
    with x 2 Running common show ?thesis
      by (simp add: resume_ok_def resume_common_def effect_def acted_def)
  next
    case 3
    obtain n' st' w' where x: "exec_step rt True (answer_at n) n st ?w = (Next (Some n') st', w')"
      "w_ctx w' = w_ctx ?w" "resuming rt svc s run n' st'" "resume_left n' < resume_left n" "acted n' = acted n" "n' \<noteq> Await"
      by (rule resuming_goes [OF sb known c same well at(2) 3])
    from step Running k at(1) x(1) have "t' = Running since j None n' st'" "sys_world sys' = w'"
      by (auto simp: bu resume_burst_def)
    with x at(3) k new common Running show ?thesis
      by (simp add: resume_ok_def resume_common_def effect_def answer_at_def)
  qed
qed (use open' in simp)

lemma resume_contract:
  assumes known: "svc \<in> set KNOWN_SERVICES" and steady: "steady svc s s" and healthy: "status s = ''healthy''"
    and limit: "6 \<le> limit" and slots: "0 < ls_concurrency ls"
  shows "burst_contract (resume_burst rt limit ls) (resume_common svc s) (resume_ok rt svc s) effect"
proof (unfold_locales, goal_cases)
  case (3 sys m run t now t' sys')
  from resume_step [OF known steady healthy refl limit 3(1-3,5)] 3(4) show ?case by blast
next
  case (4 sys m run t now t' sys' run' u)
  have key: "restart_key run' svc \<noteq> restart_key run svc" using 4(5) restart_key_eq by blast
  from resume_step [OF known steady healthy refl limit 4(1-4)] key
  have "ctx_get (w_ctx (sys_world sys')) (restart_key run' svc) = ctx_get (w_ctx (sys_world sys)) (restart_key run' svc)"
    by blast
  with step_threads [OF 4(4,5)] 4(6) show ?case
    by (auto simp: resume_ok_def parked_def split: task.splits)
qed (use slots in \<open>simp_all add: resume_burst_def effect_def\<close>)

section \<open>Both bursts\<close>

text \<open>The sandbox of the test; the limit of the library and the semaphore are large enough by their shape.\<close>

abbreviation load_service :: service_state where
  "load_service \<equiv> new_service ''service_a'' False 1"

lemma load_scripted: "scripted_restart (load_context ext) ''service_a'' MEDIUM"
  by (simp add: scripted_restart_def load_context_def KNOWN_SERVICES_def SERVICE_ROLES_def)

lemma load_steady: "steady ''service_a'' load_service load_service"
  by (simp add: steady_def same_signals_def new_service_def restart_def clear_transient_def status_def worst_pct_def)

lemma load_healthy: "status load_service = ''healthy''"
  by code_simp

interpretation start_turns: burst_contract
  "start_burst (load_context ext) (limit + 6) (ls\<lparr>ls_concurrency := Suc k\<rparr>)"
  "start_common ''service_a'' load_service c" "start_ok (load_context ext) ''service_a'' load_service" "\<lambda>_. 0"
  for ext limit ls k c
  by (rule start_contract [OF load_scripted]) simp_all

interpretation resume_turns: burst_contract
  "resume_burst (load_context ext) (limit + 6) (ls\<lparr>ls_concurrency := Suc k\<rparr>)"
  "resume_common ''service_a'' load_service" "resume_ok (load_context ext) ''service_a'' load_service" effect
  for ext limit ls k
  by (rule resume_contract [OF _ load_steady load_healthy]) (simp_all add: KNOWN_SERVICES_def SERVICE_ROLES_def)

lemma gathered_all:
  assumes "\<And>run t. (run, t) \<in> set (pl_tasks pl) \<Longrightarrow> \<exists>r st. t = Finished r st \<and> \<not> failed r \<and> P r st"
  obtains rs where "gathered pl = Some rs" "length rs = length (pl_tasks pl)"
    "\<And>r st. (r, st) \<in> set rs \<Longrightarrow> P r st"
proof
  show "gathered pl = Some (map (\<lambda>t. case snd t of Finished r st \<Rightarrow> (r, st) | _ \<Rightarrow> (Library_error, empty_state)) (pl_tasks pl))"
    using assms by (fastforce simp: gathered_def list_all_iff)
next
  fix r st
  assume "(r, st) \<in> set (map (\<lambda>t. case snd t of Finished r st \<Rightarrow> (r, st) | _ \<Rightarrow> (Library_error, empty_state)) (pl_tasks pl))"
  then obtain run t where "(run, t) \<in> set (pl_tasks pl)"
    "(r, st) = (case t of Finished r st \<Rightarrow> (r, st) | _ \<Rightarrow> (Library_error, empty_state))" by auto
  with assms [of run t] show "P r st" by auto
qed simp

text \<open>All runs are parked at the same time, and what they share is untouched.\<close>

abbreviation load_start :: system where
  "load_start \<equiv> \<lparr>sys_threads = [], sys_world = \<lparr>w_ctx = build_sandbox None None, w_audit = [], w_tick = 0\<rparr>\<rparr>"

lemma large_enough:
  fixes limit :: nat
  assumes "6 \<le> limit" and "0 < ls_concurrency ls"
  shows "limit - 6 + 6 = limit" "ls\<lparr>ls_concurrency := Suc (ls_concurrency ls - 1)\<rparr> = ls"
  using assms by simp_all

lemma first_burst:
  assumes "6 \<le> limit" and "0 < ls_concurrency ls"
  obtains pl rs where "run_burst (start_burst (load_context ext) limit ls) pick reads (load_run_ids n) load_start = pl"
    "w_ctx (sys_world (pl_system pl)) = build_sandbox None None"
    "\<And>run. run \<in> set (load_run_ids n) \<Longrightarrow> parked (load_context ext) ''service_a'' load_service (pl_system pl) run"
    "gathered pl = Some rs" "length rs = n" "\<And>x. x \<in> set rs \<Longrightarrow> interrupted (fst x)"
proof -
  let ?svc = "''service_a''" and ?rt = "load_context ext" and ?runs = "load_run_ids n"
  have common: "start_common ?svc load_service (build_sandbox None None) load_start 0"
    using build_sandbox_sandbox by (simp add: start_common_def) (simp add: build_sandbox_def local_services_def replicas_for_def)
  have fresh: "start_ok ?rt ?svc load_service load_start run Waiting" for run by (simp add: start_ok_def)
  obtain pl where 1: "run_burst (start_burst ?rt limit ls) pick reads ?runs load_start = pl"
    "map fst (pl_tasks pl) = ?runs" "w_ctx (sys_world (pl_system pl)) = build_sandbox None None"
    "\<And>run t. (run, t) \<in> set (pl_tasks pl) \<Longrightarrow> is_finished t \<and> start_ok ?rt ?svc load_service (pl_system pl) run t"
    using start_turns.burst_ends [OF load_run_ids_distinct common fresh, where limit = "limit - 6" and ls = ls
        and k = "ls_concurrency ls - 1" and pick = pick and reads = reads, unfolded large_enough [OF assms]]
    by (auto simp: start_common_def)
  have t: "\<exists>r st. t = Finished r st \<and> \<not> failed r \<and> interrupted r \<and> parked ?rt ?svc load_service (pl_system pl) run"
    if "(run, t) \<in> set (pl_tasks pl)" for run t
    using 1(4) [OF that] by (cases t) (auto simp: start_ok_def elim: interrupted.elims)
  obtain rs where rs: "gathered pl = Some rs" "length rs = length (pl_tasks pl)"
    "\<And>r st. (r, st) \<in> set rs \<Longrightarrow> interrupted r"
    by (rule gathered_all [of pl "\<lambda>r st. interrupted r"]) (use t in blast)+
  have "parked ?rt ?svc load_service (pl_system pl) run" if "run \<in> set ?runs" for run
  proof -
    from that 1(2) obtain t' where "(run, t') \<in> set (pl_tasks pl)"
      by (metis in_set_zipE list.set_map imageE prod.collapse)
    from t [OF this] show ?thesis by blast
  qed
  moreover have "length (pl_tasks pl) = n" using arg_cong [OF 1(2), of length] by (simp add: load_run_ids_def)
  ultimately show ?thesis by (intro that [OF 1(1,3)]) (use rs in auto)
qed

text \<open>All runs complete, each with one restart.\<close>

lemma second_burst:
  assumes "6 \<le> limit" and "0 < ls_concurrency ls" and world: "w_ctx (sys_world sys) = build_sandbox None None"
    and parked: "\<And>run. run \<in> set (load_run_ids n) \<Longrightarrow> parked (load_context ext) ''service_a'' load_service sys run"
  obtains pl rs where "run_burst (resume_burst (load_context ext) limit ls) pick reads (load_run_ids n) sys = pl"
    "map_of (clients (w_ctx (sys_world (pl_system pl)))) ''service_a'' = Some ((restart ^^ n) load_service)"
    "gathered pl = Some rs" "length rs = n" "\<And>x. x \<in> set rs \<Longrightarrow> st_final_state (snd x) = Some COMPLETED"
proof -
  let ?svc = "''service_a''" and ?rt = "load_context ext" and ?runs = "load_run_ids n"
  have "ctx_get (w_ctx (sys_world sys)) k = None" for k
    unfolding world by (simp add: build_sandbox_def ctx_get_def mem_get_def)
  with parked have waiting: "resume_ok ?rt ?svc load_service sys run Waiting" if "run \<in> set ?runs" for run
    using that by (simp add: resume_ok_def)
  have common: "resume_common ?svc load_service sys 0"
    using build_sandbox_sandbox by (simp add: resume_common_def world) (simp add: build_sandbox_def local_services_def replicas_for_def)
  obtain pl where 1: "run_burst (resume_burst ?rt limit ls) pick reads ?runs sys = pl"
    "map fst (pl_tasks pl) = ?runs"
    "resume_common ?svc load_service (pl_system pl) (sum_list (map (effect \<circ> snd) (pl_tasks pl)))"
    "\<And>run t. (run, t) \<in> set (pl_tasks pl) \<Longrightarrow> is_finished t \<and> resume_ok ?rt ?svc load_service (pl_system pl) run t"
    using resume_turns.burst_ends [OF load_run_ids_distinct common waiting, where limit = "limit - 6" and ls = ls
        and k = "ls_concurrency ls - 1" and pick = pick and reads = reads, unfolded large_enough [OF assms(1,2)]]
    by blast
  have t: "\<exists>r st. t = Finished r st \<and> \<not> failed r \<and> st_final_state st = Some COMPLETED"
    if "(run, t) \<in> set (pl_tasks pl)" for run t
    using 1(4) [OF that] by (cases t) (auto simp: resume_ok_def)
  obtain rs where rs: "gathered pl = Some rs" "length rs = length (pl_tasks pl)"
    "\<And>r st. (r, st) \<in> set rs \<Longrightarrow> st_final_state st = Some COMPLETED"
    by (rule gathered_all [of pl "\<lambda>r st. st_final_state st = Some COMPLETED"]) (use t in blast)+
  have len: "length (pl_tasks pl) = n" using arg_cong [OF 1(2), of length] by (simp add: load_run_ids_def)
  have "map (effect \<circ> snd) (pl_tasks pl) = map (\<lambda>_. 1) (pl_tasks pl)"
    using t by (fastforce simp: effect_def)
  then have "sum_list (map (effect \<circ> snd) (pl_tasks pl)) = sum_list (map (\<lambda>_. 1) (pl_tasks pl))"
    by (simp only:)
  then have "sum_list (map (effect \<circ> snd) (pl_tasks pl)) = n" using len by (simp add: sum_list_triv)
  with 1(3) show ?thesis by (intro that [OF 1(1)]) (use rs len in \<open>auto simp: resume_common_def\<close>)
qed

lemma load_test_holds:
  assumes "6 \<le> limit" and "0 < ls_concurrency ls"
  shows "\<exists>rep sys'. run_load_test ext limit ls n = (Some rep, sys') \<and> lt_n rep = n \<and>
    lt_all_suspended rep \<and> lt_suspended_count rep = n \<and> lt_state_intact rep \<and> lt_completed_count rep = n \<and>
    map_of (clients (w_ctx (sys_world sys'))) ''service_a'' = Some ((restart ^^ n) load_service)"
proof -
  obtain pl1 rs where 1: "run_burst (start_burst (load_context ext) limit ls) (ls_pick_start ls) 1 (load_run_ids n) load_start = pl1"
    "w_ctx (sys_world (pl_system pl1)) = build_sandbox None None"
    "\<And>run. run \<in> set (load_run_ids n) \<Longrightarrow> parked (load_context ext) ''service_a'' load_service (pl_system pl1) run"
    "gathered pl1 = Some rs" "length rs = n" "\<And>x. x \<in> set rs \<Longrightarrow> interrupted (fst x)"
    by (rule first_burst [OF assms, where ext = ext and n = n and pick = "ls_pick_start ls" and reads = 1]) blast
  obtain pl2 rs' where 2: "run_burst (resume_burst (load_context ext) limit ls) (ls_pick_resume ls) 3 (load_run_ids n) (pl_system pl1) = pl2"
    "map_of (clients (w_ctx (sys_world (pl_system pl2)))) ''service_a'' = Some ((restart ^^ n) load_service)"
    "gathered pl2 = Some rs'" "length rs' = n" "\<And>x. x \<in> set rs' \<Longrightarrow> st_final_state (snd x) = Some COMPLETED"
    by (rule second_burst [OF assms 1(2), where ext = ext and n = n and pick = "ls_pick_resume ls" and reads = 3])
      (use 1(3) in blast)+
  have "filter (\<lambda>x. interrupted (fst x)) rs = rs" "filter (\<lambda>x. st_final_state (snd x) = Some COMPLETED) rs' = rs'"
    using 1(6) 2(5) by (auto simp: filter_id_conv)
  with 1 2 show ?thesis by (simp add: run_load_test_def load_test_run_def Let_def)
qed

end
