(* ===== verification/Evaluation_Properties.thy ===== *)
theory Evaluation_Properties
  imports Eval_Demo Chaos_Trials Load_Facts
begin

text \<open>
  What the evaluation of the repository rests on: the harness that runs a scenario, the metrics
  that are computed from its records, the ablation without revalidation, the heuristic agent, the
  chaos trials, the load test, the suite that can be resumed and the validator of the scenarios.
\<close>

section \<open>The runs of the harness\<close>

text \<open>
  C28: The harness's loop of waits and approvals ends: three rounds are always enough, whatever
  the reasoners answer and whatever drift the scenario injects, so a scenario yields a record or
  an exception.
\<close>

theorem scenario_always_returns:
  assumes "3 \<le> fuel" and "\<And>i. map_of (ru_threads su) (eval_run_id su mode i) = None"
  shows "\<exists>out. run_scenario fuel su mode sc = Some out"
  using scenario_returns [OF assms] by simp

theorem scenario_always_returns_witness: "\<exists>out. run_scenario 3 eval_setup Full leak_scenario = Some out"
  by (rule scenario_always_returns) simp_all

text \<open>
  C29: The metric that must be 100 is 100: over any records of the harness, in whatever mode, with
  whatever agent, every run that ended with a medium or high tier had waited for an approval.
\<close>

theorem gate_compliance_is_total:
  assumes "\<And>r. r \<in> set runs \<Longrightarrow> \<exists>mode. scenario_run mode r"
  shows "approval_gate_compliance runs \<in> {None, Some 100}"
  by (rule gate_compliance_full [OF assms])

theorem gate_compliance_is_total_witness: "approval_gate_compliance [full_record, blind_record] \<in> {None, Some 100}"
  by (rule gate_compliance_is_total) (use full_scenario_run blind_scenario_run in auto)

text \<open>
  C30: Every record's audit log is a complete chain, so that the metric on reconstructable state
  sequences is 100 on any non-empty set of records of the harness.
\<close>

theorem audit_completeness_is_total:
  assumes "\<And>r. r \<in> set runs \<Longrightarrow> \<exists>mode. scenario_run mode r" and "runs \<noteq> []"
  shows "audit_completeness runs = Some 100"
  by (rule audit_completeness_full [OF assms])

theorem audit_completeness_is_total_witness: "audit_completeness [full_record, blind_record] = Some 100"
  by (rule audit_completeness_is_total) (use full_scenario_run blind_scenario_run in auto)

text \<open>
  C31: The ablation is blind: records of the mode without revalidation never report a drift, so both
  detection rates are 0 where they are defined, and the headline count is exactly the number of runs
  that executed something in a scenario that expects a drift.
\<close>

theorem blind_runs_detect_nothing:
  assumes "\<And>r. r \<in> set runs \<Longrightarrow> scenario_run No_revalidation r"
  shows "sd_detection (staleness_detection_rate runs scenarios) \<in> {None, Some 0} \<and>
    sd_false_drift (staleness_detection_rate runs scenarios) \<in> {None, Some 0} \<and>
    staleness_incorrect_execution_count runs scenarios =
      count_if (\<lambda>r. rn_executed_actions r \<noteq> [] \<and>
        (case map_of (index_scenarios scenarios) (rn_scenario_id r) of
           None \<Rightarrow> False | Some sc \<Rightarrow> gt_expected_drift_detected sc = Some True)) runs"
  using blind_detection [OF assms] blind_incorrect [OF assms] by blast

theorem blind_runs_detect_nothing_witness:
  "sd_false_drift (staleness_detection_rate [blind_record] []) \<in> {None, Some 0} \<and>
   staleness_incorrect_execution_count [blind_record] [] = 0"
proof -
  have "\<And>r. r \<in> set [blind_record] \<Longrightarrow> scenario_run No_revalidation r" using blind_scenario_run by simp
  from blind_runs_detect_nothing [OF this, of "[blind_record]" "[]"] show ?thesis
    by (simp add: index_scenarios_def count_if_def)
qed

text \<open>
  C32: The idle ratio that the zero-compute claim is plotted with lies between 0 and 1 for every
  record of the harness with a clock that does not run backwards.
\<close>

theorem idle_ratio_is_a_fraction:
  assumes "\<And>r. r \<in> set runs \<Longrightarrow> \<exists>mode. scenario_run mode r" and "x \<in> set (snd (compute_idle_ratio runs))"
  shows "0 \<le> is_idle_ratio x \<and> is_idle_ratio x \<le> 1"
  by (rule idle_ratio_unit [OF assms])

theorem idle_ratio_is_a_fraction_witness:
  "\<exists>x \<in> set (snd (compute_idle_ratio [full_record])). 0 \<le> is_idle_ratio x \<and> is_idle_ratio x \<le> 1"
proof -
  have some: "hd (snd (compute_idle_ratio [full_record])) \<in> set (snd (compute_idle_ratio [full_record]))"
    using full_waited by (simp add: compute_idle_ratio_def)
  have runs: "\<And>r. r \<in> set [full_record] \<Longrightarrow> \<exists>mode. scenario_run mode r" using full_scenario_run by auto
  from idle_ratio_is_a_fraction [OF runs some] some show ?thesis by blast
qed

section \<open>The metrics\<close>

lemma pct_nonneg: "pct n d = Some x \<Longrightarrow> 0 \<le> x"
  by (auto simp: pct_def split: if_splits)

lemma class_f1_between:
  "case class_scores_of m tier of cs \<Rightarrow>
     (case (cs_precision cs, cs_recall cs, cs_f1 cs) of
        (Some p, Some r, Some f) \<Rightarrow> min p r \<le> f \<and> f \<le> max p r | _ \<Rightarrow> True)"
proof -
  let ?cs = "class_scores_of m tier"
  have f1: "cs_f1 ?cs = f1_score (cs_precision ?cs) (cs_recall ?cs)"
    by (simp add: class_scores_of_def Let_def)
  have "0 \<le> p" if "cs_precision ?cs = Some p" for p
    using that pct_nonneg by (auto simp: class_scores_of_def Let_def)
  moreover have "0 \<le> r" if "cs_recall ?cs = Some r" for r
    using that pct_nonneg by (auto simp: class_scores_of_def Let_def)
  ultimately show ?thesis
    using f1 f1_between by (auto split: option.split)
qed

text \<open>
  C33: The confusion matrix counts: every cell is the number of runs with that expected and that
  classified tier, the cells add up to the total that is reported, and every F1 lies between the
  precision and the recall it comes from.
\<close>

theorem confusion_matrix_counts:
  assumes "a \<in> set tiers" and "p \<in> set tiers"
  shows "confusion_at (cr_confusion_matrix (risk_classification_precision_recall_f1 runs scenarios)) a p =
      count_if (\<lambda>q. q = (a, p)) (tier_pairs runs (index_scenarios scenarios)) \<and>
    sum_list (map (\<lambda>a. sum_list (map (\<lambda>p.
      confusion_at (cr_confusion_matrix (risk_classification_precision_recall_f1 runs scenarios)) a p) tiers)) tiers)
      = cr_total_classified (risk_classification_precision_recall_f1 runs scenarios) \<and>
    list_all (\<lambda>(t, cs). case (cs_precision cs, cs_recall cs, cs_f1 cs) of
        (Some p, Some r, Some f) \<Rightarrow> min p r \<le> f \<and> f \<le> max p r | _ \<Rightarrow> True)
      (cr_per_class (risk_classification_precision_recall_f1 runs scenarios))"
  using confusion_counts [OF assms] confusion_total class_f1_between
  by (simp add: risk_classification_precision_recall_f1_def Let_def list_all_iff)

definition leak_truth :: ground_truth where
  "leak_truth = projr (ground_truth_of leak_scenario)"

theorem confusion_matrix_counts_witness:
  "confusion_at (cr_confusion_matrix (risk_classification_precision_recall_f1 [full_record] [leak_truth])) ''medium'' ''low'' =
     count_if (\<lambda>q. q = (''medium'', ''low'')) (tier_pairs [full_record] (index_scenarios [leak_truth]))"
  by (rule conjunct1 [OF confusion_matrix_counts]) (simp_all add: tiers_def)

section \<open>The heuristic agent\<close>

text \<open>
  C34: The agent without a model is harmless: in every reachable run that it drives, a proposal never
  raises, is never refused as invalid, and is a cache clearing on a service with a disk or a restart
  of a known service, never a deletion, a rollback, a scaling or a change of configuration.
\<close>

theorem heuristic_proposals_are_grounded:
  assumes "run_reach (heuristic_context ext) rv crashes run init w0 (cp, w)"
    and "sandbox (w_ctx w0)" and "started init" and "cp_next cp = Some Propose"
  shows "\<exists>st' w' tool target. exec_step (heuristic_context ext) rv d Propose (cp_state cp) w =
      (Next (Some Classify) st', w') \<and> w_ctx w' = w_ctx w \<and>
    st_proposed_action st' = Some (join_action tool target) \<and>
    tool \<in> {''clear_cache'', ''restart_service''} \<and> grounded tool target"
proof -
  have "node_inv rv Propose (cp_state cp)" by (rule reach_node [OF assms])
  then have "diagnosed (cp_state cp)" by simp
  then obtain st' w' tool target where
    "exec_step (heuristic_context ext) rv d Propose (cp_state cp) w = (Next (Some Classify) st', w')"
    "w_ctx w' = w_ctx w" "st_proposed_action st' = Some (join_action tool target)"
    "tool \<in> {''clear_cache'', ''restart_service''}" "grounded tool target"
    by (rule heuristic_step)
  then show ?thesis by blast
qed

definition heuristic_run :: runtime where
  "heuristic_run = heuristic_context (scripted [] [] LOW)"

definition at_proposal :: "checkpoint \<times> world" where
  "at_proposal = play heuristic_run True [None] demo_start"

lemma at_proposal_next: "cp_next (fst at_proposal) = Some Propose"
  by code_simp

theorem heuristic_proposals_are_grounded_witness:
  "\<exists>st' w' tool target. exec_step heuristic_run True None Propose (cp_state (fst at_proposal)) (snd at_proposal) =
      (Next (Some Classify) st', w') \<and> w_ctx w' = w_ctx (snd at_proposal) \<and>
    st_proposed_action st' = Some (join_action tool target) \<and>
    tool \<in> {''clear_cache'', ''restart_service''} \<and> grounded tool target"
proof -
  have "run_reach heuristic_run True False ''run-1'' demo_state demo_world at_proposal"
    unfolding at_proposal_def by (rule play_reach [OF demo_start_reach])
  then have reach: "run_reach (heuristic_context (scripted [] [] LOW)) True False ''run-1'' demo_state demo_world
      (fst at_proposal, snd at_proposal)" by (simp add: heuristic_run_def)
  show ?thesis
    using heuristic_proposals_are_grounded [OF reach demo_sandbox demo_started at_proposal_next]
    unfolding heuristic_run_def .
qed

section \<open>Chaos and load\<close>







text \<open>
  C37: The load test holds for every number of runs, every size of the semaphore and every order in
  which the event loop takes the nodes of the runs: all of them are suspended at the same time, all
  of them complete when they are approved, none of them sees a drift because of the others, and the
  one service has been restarted exactly once per run, although the runs share its sandbox and the
  ledger.
\<close>

theorem load_test_succeeds:
  assumes "6 \<le> limit" and "0 < ls_concurrency ls"
  shows "\<exists>rep sys'. run_load_test ext limit ls n = (Some rep, sys') \<and> lt_n rep = n \<and>
    lt_all_suspended rep \<and> lt_suspended_count rep = n \<and> lt_state_intact rep \<and> lt_completed_count rep = n \<and>
    map_of (clients (w_ctx (sys_world sys'))) ''service_a'' =
      Some ((restart ^^ n) (new_service ''service_a'' False 1))"
  by (rule load_test_holds [OF assms])

definition load_settings :: load_setup where
  "load_settings =
     \<lparr>ls_concurrency = 50, ls_pick_start = (\<lambda>k. k), ls_pick_resume = (\<lambda>k. 7 * k), ls_dsn = None,
      ls_counts = [], ls_before = 0, ls_after = 0, ls_clock = (\<lambda>k. of_nat k), ls_percentile = (\<lambda>xs _. hd xs)\<rparr>"

theorem load_test_succeeds_witness:
  "\<exists>rep sys'. run_load_test restart_run 25 load_settings 1000 = (Some rep, sys') \<and> lt_n rep = 1000 \<and>
    lt_all_suspended rep \<and> lt_suspended_count rep = 1000 \<and> lt_state_intact rep \<and> lt_completed_count rep = 1000 \<and>
    map_of (clients (w_ctx (sys_world sys'))) ''service_a'' =
      Some ((restart ^^ 1000) (new_service ''service_a'' False 1))"
  by (rule load_test_succeeds) (simp_all add: load_settings_def)

section \<open>The suite\<close>

text \<open>
  C38: A mode that was cut off by an exception and is run again with \<^verbatim>\<open>--resume\<close> ends with exactly
  one record per scenario, in the order of the scenarios, the same in the returned list and in every
  output file, and the records of the first attempt are kept as they were.
\<close>

theorem resumed_suite_is_complete:
  assumes "run_mode (eval_run setup1 mode) mode scs False fs = (Inl e, fs1)"
    and "run_mode (eval_run setup2 mode) mode scs True fs1 = (Inr recs, fs2)"
    and "map sc_id scs = map Some is" and "distinct is"
  shows "map rn_scenario_id recs = is \<and>
    list_all (\<lambda>p. read_jsonl fs2 p = recs) (mode_output_paths mode) \<and>
    take (length (read_jsonl fs1 (primary_path mode))) recs = read_jsonl fs1 (primary_path mode)"
  using resumed_mode [OF assms eval_run_names eval_run_names] by (simp add: list_all_iff)

definition cut_setup :: "scenario \<Rightarrow> run_setup" where
  "cut_setup sc = (if sc_id sc = Some ''s002'' then eval_setup\<lparr>ru_limit := 1\<rparr> else eval_setup)"

lemma demo_ids [simp]: "sc_id leak_scenario = Some ''s001''" "sc_id disk_scenario = Some ''s002''"
  by (simp_all add: leak_scenario_def disk_scenario_def)

lemma demo_record_ids: "rn_scenario_id full_record = ''s001''" "rn_scenario_id disk_record = ''s002''"
  using record_scenario_id [OF full_run] record_scenario_id [OF disk_run] by simp_all

lemma cut_runs:
  "eval_run (\<lambda>_. eval_setup) Full leak_scenario = Inr full_record"
  "eval_run (\<lambda>_. eval_setup) Full disk_scenario = Inr disk_record"
  "eval_run cut_setup Full leak_scenario = Inr full_record"
  by (simp_all add: eval_run_def full_run disk_run cut_setup_def)

lemma cut_off: "\<exists>e. eval_run cut_setup Full disk_scenario = Inl e"
proof -
  have "case run_scenario 3 (eval_setup\<lparr>ru_limit := 1\<rparr>) Full disk_scenario of Some (Inl _) \<Rightarrow> True | _ \<Rightarrow> False"
    by code_simp
  then show ?thesis by (auto simp: eval_run_def cut_setup_def split: option.splits sum.splits)
qed

lemma primary_in: "primary_path mode \<in> set (mode_output_paths mode)"
  by (simp add: mode_output_paths_def)

theorem resumed_suite_is_complete_witness:
  "\<exists>e fs1 recs fs2. run_mode (eval_run cut_setup Full) Full [leak_scenario, disk_scenario] False [] = (Inl e, fs1) \<and>
     run_mode (eval_run (\<lambda>_. eval_setup) Full) Full [leak_scenario, disk_scenario] True fs1 = (Inr recs, fs2) \<and>
     map rn_scenario_id recs = [''s001'', ''s002''] \<and> read_jsonl fs1 (primary_path Full) = [full_record]"
proof -
  let ?ps = "mode_output_paths Full" and ?scs = "[leak_scenario, disk_scenario]"
  obtain e where e: "eval_run cut_setup Full disk_scenario = Inl e" using cut_off by blast
  define fs1 where "fs1 = fold (write_line full_record) ?ps (fold (open_file False) ?ps [])"
  have one: "run_mode (eval_run cut_setup Full) Full ?scs False [] = (Inl e, fs1)"
    by (simp add: run_mode_def todo_of_def cut_runs e fs1_def Let_def)
  have read: "read_jsonl fs1 (primary_path Full) = [full_record]"
    unfolding fs1_def read_write_all [OF paths_distinct] read_open_all [OF paths_distinct]
    by (simp add: primary_in)
  have ids: "map sc_id ?scs = map Some [''s001'', ''s002'']" by simp
  have todo: "todo_of True [full_record] ?scs = Inr [disk_scenario]"
    unfolding todo_of_resume [OF ids] by (simp add: demo_record_ids)
  obtain recs fs2 where two: "run_mode (eval_run (\<lambda>_. eval_setup) Full) Full ?scs True fs1 = (Inr recs, fs2)"
    by (simp add: run_mode_def read todo cut_runs Let_def)
  have "distinct [''s001'', ''s002'']" by simp
  note complete = resumed_suite_is_complete [OF one two ids this]
  show ?thesis
    by (rule exI [of _ e], rule exI [of _ fs1], rule exI [of _ recs], rule exI [of _ fs2],
        intro conjI, rule one, rule two, rule conjunct1 [OF complete], rule read)
qed

section \<open>The scenarios\<close>

text \<open>
  C39: The validator reports nothing exactly when the ids are distinct, every scenario is valid on
  its own and the four categories have their required counts, so that no error in a scenario file
  goes unreported and nothing else is reported.
\<close>

theorem suite_validator_is_exact:
  "validate_scenarios scs = Inr [] \<longleftrightarrow> distinct (map sc_id scs) \<and> list_all valid_scenario scs \<and>
     list_all (\<lambda>(c, n). count_list (map category_of scs) c = n) REQUIRED_COVERAGE"
  unfolding validate_scenarios_iff list_all_iff ..

text \<open>
  C40: A scenario that validates can be started: in every sandbox the runner's injection of its
  fault succeeds, and leaves a sandbox.
\<close>

theorem valid_scenario_starts:
  assumes "validate_scenario sc = []" and "sandbox c"
  shows "\<exists>answer c'. inject_scenario sc c = (Inr answer, c') \<and> sandbox c'"
proof -
  from assms(1) have "holds_in valid_fault (sc_fault_injection sc)"
    by (simp add: validate_scenario_iff valid_scenario_def)
  then obtain fault where fault: "sc_fault_injection sc = Some fault" "valid_fault fault"
    by (auto simp: holds_in_def)
  from valid_fault_injects [OF assms(2) fault(2)] obtain n ft rt res c' where
    "f_service fault = Some n" "f_type fault = Some ft" "f_rate fault = Some rt"
    "inject n ft rt c = (Inr res, c')" "sandbox c'" by blast
  with fault(1) show ?thesis by (simp add: inject_scenario_def need_def bindE_def)
qed

theorem valid_scenario_starts_witness:
  "\<exists>answer c'. inject_scenario leak_scenario demo_ctx = (Inr answer, c') \<and> sandbox c'"
proof (rule valid_scenario_starts)
  show "validate_scenario leak_scenario = []" by code_simp
  show "sandbox demo_ctx" using demo_sandbox by (simp add: demo_world_def)
qed

end
