(* ===== verification/Wiring.thy ===== *)
theory Wiring
  imports Chaos LLM_Clients
begin

text \<open>
  How the processes are put together from their environment variables and arguments: the production
  app (\<^verbatim>\<open>src/api/main.py\<close>, \<^verbatim>\<open>src/api/__main__.py\<close>), the default fault injector
  (\<^verbatim>\<open>src/env/fault_injector.py\<close>), a mock service process (\<^verbatim>\<open>src/env/mock_service/app.py\<close>), the ones
  the chaos harness starts (\<^verbatim>\<open>src/chaos/harness.py\<close>), the agent process (\<^verbatim>\<open>src/chaos/agent_process.py\<close>)
  and the event loop (\<^verbatim>\<open>src/durability/checkpointer.py\<close>). An HTTP client is its base URL, a Postgres
  store the address of its database.
\<close>

section \<open>Clients from the environment\<close>

text \<open>\<^verbatim>\<open>os.environ[k]\<close>\<close>

definition environ_item :: "environment \<Rightarrow> string \<Rightarrow> string result" where
  "environ_item env k = dict_get env k (KeyError k)"

definition DEFAULT_SERVICE_ENV_VARS :: "(string, string) dict" where
  "DEFAULT_SERVICE_ENV_VARS =
     [(''service_a'', ''SERVICE_A_URL''), (''service_b'', ''SERVICE_B_URL''), (''service_c'', ''SERVICE_C_URL'')]"

definition service_clients :: "environment \<Rightarrow> (string, string) dict result" where
  "service_clients env =
     collect (map (\<lambda>(service, env_var). bindR (environ_item env env_var) (\<lambda>url. Inr (service, url)))
       DEFAULT_SERVICE_ENV_VARS)"

record injector =
  ij_clients :: "(string, string) dict"
  ij_database_dsn :: "string option"

definition build_default_injector :: "environment \<Rightarrow> injector result" where
  "build_default_injector env =
     bindR (service_clients env) (\<lambda>cs. Inr \<lparr>ij_clients = cs, ij_database_dsn = map_of env ''DATABASE_URL''\<rparr>)"

section \<open>The production app\<close>

record production_app =
  pa_clients :: "(string, string) dict"
  pa_store :: string
  pa_records :: string
  pa_reasoner :: backend
  pa_risk_classifier :: backend
  pa_audit_store :: string
  pa_run_registry :: string
  pa_checkpointer :: string

definition build_production_app :: "environment \<Rightarrow> production_app result" where
  "build_production_app env =
     bindR (environ_item env ''DATABASE_URL'') (\<lambda>dsn.
     bindR (service_clients env) (\<lambda>cs.
       Inr \<lparr>pa_clients = cs, pa_store = dsn, pa_records = dsn, pa_reasoner = Anthropic ''claude-sonnet-5'',
            pa_risk_classifier = Anthropic ''claude-sonnet-5'', pa_audit_store = dsn, pa_run_registry = dsn,
            pa_checkpointer = dsn\<rparr>))"

text \<open>\<^verbatim>\<open>int(text)\<close>: surrounding white space, a sign, digits with single underscores between them.\<close>

definition is_space :: "char \<Rightarrow> bool" where
  "is_space c \<longleftrightarrow> (let n = of_char c :: nat in n \<in> {9, 10, 11, 12, 13, 28, 29, 30, 31, 32})"

definition strip :: "string \<Rightarrow> string" where
  "strip s = rev (dropWhile is_space (rev (dropWhile is_space s)))"

fun read_digits :: "nat \<Rightarrow> bool \<Rightarrow> string \<Rightarrow> nat option" where
  "read_digits n after_digit [] = (if after_digit then Some n else None)"
| "read_digits n after_digit (c # cs) =
     (let k = of_char c :: nat in
      if 48 \<le> k \<and> k \<le> 57 then read_digits (10 * n + (k - 48)) True cs
      else if c = CHR ''_'' \<and> after_digit then read_digits n False cs
      else None)"

definition py_int :: "string \<Rightarrow> int result" where
  "py_int text =
     (let s = strip text;
          read = (\<lambda>sign cs. case read_digits 0 False cs of
            None \<Rightarrow> Inl (ValueError (''invalid literal for int() with base 10: '' @ py_repr text))
          | Some n \<Rightarrow> Inr (sign * int n))
      in case s of
           [] \<Rightarrow> read 1 s
         | c # cs \<Rightarrow> (if c = CHR ''-'' then read (- 1) cs else if c = CHR ''+'' then read 1 cs else read 1 s))"

record server_config =
  uv_app :: production_app
  uv_host :: string
  uv_port :: int

definition serve :: "environment \<Rightarrow> server_config result" where
  "serve env =
     bindR (build_production_app env) (\<lambda>app.
     bindR (py_int (env_or env ''API_PORT'' ''8000'')) (\<lambda>port.
       Inr \<lparr>uv_app = app, uv_host = env_or env ''API_HOST'' ''0.0.0.0'', uv_port = port\<rparr>))"

datatype event_loop = Default_loop | Selector_event_loop

definition run_async :: "string \<Rightarrow> event_loop" where
  "run_async platform = (if platform = ''win32'' then Selector_event_loop else Default_loop)"

section \<open>The mock services\<close>

definition create_app :: "string \<Rightarrow> bool \<Rightarrow> int \<Rightarrow> service_state" where
  "create_app name disk reps = new_service name disk reps"

definition module_app :: "environment \<Rightarrow> service_state" where
  "module_app env =
     create_app (env_or env ''SERVICE_NAME'' ''service_a'') (env_or env ''SERVICE_ROLE'' ''compute'' = ''disk'')
       BASELINE_REPLICAS"

definition MOCK_SERVICE_ROLES :: "(string, string) dict" where
  "MOCK_SERVICE_ROLES = [(''service_a'', ''compute''), (''service_b'', ''compute''), (''service_c'', ''disk'')]"

text \<open>\<^verbatim>\<open>{**os.environ, **extra}\<close>\<close>

definition overriding :: "environment \<Rightarrow> environment \<Rightarrow> environment" where
  "overriding env extra = fold (\<lambda>(k, v). AList.update k v) extra env"

definition services_start :: "environment \<Rightarrow> (string, service_state) dict" where
  "services_start env =
     map (\<lambda>(name, role). (name, module_app (overriding env [(''SERVICE_NAME'', name), (''SERVICE_ROLE'', role)])))
       MOCK_SERVICE_ROLES"

definition local_url :: "(string, nat) dict \<Rightarrow> string \<Rightarrow> string result" where
  "local_url ports service =
     bindR (dict_get ports service (KeyError service)) (\<lambda>port. Inr (''http://127.0.0.1:'' @ show_nat port))"

definition env_vars :: "(string, nat) dict \<Rightarrow> environment result" where
  "env_vars ports =
     bindR (local_url ports ''service_a'') (\<lambda>a.
     bindR (local_url ports ''service_b'') (\<lambda>b.
     bindR (local_url ports ''service_c'') (\<lambda>c.
       Inr [(''SERVICE_A_URL'', a), (''SERVICE_B_URL'', b), (''SERVICE_C_URL'', c)])))"

section \<open>The agent process\<close>

text \<open>\<^verbatim>\<open>sys.argv\<close> selects what the process does.\<close>

datatype agent_call = Call_start string string | Call_resume string string pyval

definition arg :: "string list \<Rightarrow> nat \<Rightarrow> string result" where
  "arg argv i = (if i < length argv then Inr (argv ! i) else Inl IndexError)"

definition agent_main :: "(string \<Rightarrow> pyval option) \<Rightarrow> string list \<Rightarrow> agent_call result" where
  "agent_main loads argv =
     bindR (arg argv 1) (\<lambda>mode.
       if mode = ''start'' then
         bindR (arg argv 2) (\<lambda>dsn. bindR (arg argv 3) (\<lambda>run_id. Inr (Call_start dsn run_id)))
       else if mode = ''resume'' then
         bindR (arg argv 2) (\<lambda>dsn. bindR (arg argv 3) (\<lambda>run_id. bindR (arg argv 4) (\<lambda>text.
           (case loads text of None \<Rightarrow> Inl JSONDecodeError | Some v \<Rightarrow> Inr (Call_resume dsn run_id v)))))
       else Inl (ValueError (''unknown mode '' @ py_repr mode)))"

text \<open>The reasoner that the process is scripted with: its tool and its target.\<close>

definition scripted_reasoner :: "environment \<Rightarrow> string \<times> string" where
  "scripted_reasoner env = (env_or env ''CHAOS_TOOL'' ''restart_service'', env_or env ''CHAOS_TARGET'' ''service_a'')"

text \<open>\<^verbatim>\<open>main\<close> of the harness: the database, or the parser's error, and the exit code.\<close>

definition harness_dsn :: "environment \<Rightarrow> string option \<Rightarrow> string option" where
  "harness_dsn env given =
     (let dsn = (case given of None \<Rightarrow> map_of env ''DATABASE_URL'' | Some d \<Rightarrow> Some d)
      in if truthy dsn then dsn else None)"

definition harness_exit :: "kill_point_result list \<Rightarrow> nat" where
  "harness_exit results = (if list_all kp_passed results then 0 else 1)"

section \<open>What the wiring guarantees\<close>

lemma collect_clients:
  "service_clients env = Inr cs \<longleftrightarrow>
     (\<exists>a b c. map_of env ''SERVICE_A_URL'' = Some a \<and> map_of env ''SERVICE_B_URL'' = Some b \<and>
        map_of env ''SERVICE_C_URL'' = Some c \<and> cs = [(''service_a'', a), (''service_b'', b), (''service_c'', c)])"
  by (auto simp: service_clients_def DEFAULT_SERVICE_ENV_VARS_def environ_item_def bindR_Inr_iff)

text \<open>Every known service has a client, and everything that lasts goes to one database.\<close>

lemma production_one_database:
  assumes "build_production_app env = Inr app"
  shows "map fst (pa_clients app) = KNOWN_SERVICES \<and>
    {pa_store app, pa_records app, pa_audit_store app, pa_run_registry app, pa_checkpointer app} = {pa_store app}"
  using assms
  by (auto simp: build_production_app_def bindR_Inr_iff collect_clients KNOWN_SERVICES_def SERVICE_ROLES_def)

text \<open>The processes of the harness are the services of the sandbox at their baseline.\<close>

lemma services_start_baseline:
  "services_start env = map (\<lambda>n. (n, new_service n (has_disk n) BASELINE_REPLICAS)) KNOWN_SERVICES"
  by (simp add: services_start_def MOCK_SERVICE_ROLES_def KNOWN_SERVICES_def SERVICE_ROLES_def has_disk_def
      module_app_def create_app_def env_or_def overriding_def AList.update_conv')

text \<open>The agent process reaches them through the variables that the harness sets for it.\<close>

lemma env_vars_reach:
  assumes "env_vars ports = Inr extra"
  shows "\<exists>cs. service_clients (overriding env extra) = Inr cs \<and> map fst cs = KNOWN_SERVICES \<and>
    list_all (\<lambda>(service, url). local_url ports service = Inr url) cs"
  using assms
  by (auto simp: env_vars_def bindR_Inr_iff collect_clients overriding_def AList.update_conv'
      KNOWN_SERVICES_def SERVICE_ROLES_def)

text \<open>A port that was printed is read back.\<close>

lemma read_digits_append:
  "read_digits n b (map digit_char ds @ cs) =
     read_digits (fold (\<lambda>d n. 10 * n + d) ds n) (b \<or> ds \<noteq> []) cs" if "list_all (\<lambda>d. d < 10) ds"
  using that
proof (induction ds arbitrary: n b)
  case (Cons d ds)
  then have "(of_char (digit_char d) :: nat) = 48 + d" by (simp add: digit_char_def)
  with Cons show ?case by simp
qed simp

lemma show_nat_digits:
  obtains ds where "show_nat n = map digit_char ds" "ds \<noteq> []" "list_all (\<lambda>d. d < 10) ds"
    "fold (\<lambda>d m. 10 * m + d) ds 0 = n"
proof -
  have "\<exists>ds. show_nat n = map digit_char ds \<and> ds \<noteq> [] \<and> list_all (\<lambda>d. d < 10) ds \<and>
      fold (\<lambda>d m. 10 * m + d) ds 0 = n"
  proof (induction n rule: show_nat.induct)
    case (1 n)
    show ?case
    proof (cases "n < 10")
      case True
      then show ?thesis by (intro exI [of _ "[n]"]) (simp add: show_nat.simps)
    next
      case False
      with 1 obtain ds where "show_nat (n div 10) = map digit_char ds" "list_all (\<lambda>d. d < 10) ds"
        "fold (\<lambda>d m. 10 * m + d) ds 0 = n div 10" by blast
      with False show ?thesis
        by (intro exI [of _ "ds @ [n mod 10]"]) (subst show_nat.simps, simp)
    qed
  qed
  with that show ?thesis by blast
qed

lemma digit_char_plain:
  "d < 10 \<Longrightarrow> \<not> is_space (digit_char d) \<and> digit_char d \<noteq> CHR ''-'' \<and> digit_char d \<noteq> CHR ''+''"
proof -
  assume d: "d < 10"
  then have n: "(of_char (digit_char d) :: nat) = 48 + d" by (simp add: digit_char_def)
  then have "digit_char d \<noteq> CHR ''-''" "digit_char d \<noteq> CHR ''+''" by auto
  with n show ?thesis by (simp add: is_space_def)
qed

lemma strip_digits: "list_all (\<lambda>d. d < 10) ds \<Longrightarrow> strip (map digit_char ds) = map digit_char ds"
proof -
  assume ds: "list_all (\<lambda>d. d < 10) ds"
  have "dropWhile is_space (map digit_char xs) = map digit_char xs" if "list_all (\<lambda>d. d < 10) xs" for xs
    using that digit_char_plain by (cases xs) simp_all
  from this [OF ds] this [of "rev ds"] ds show ?thesis
    by (simp add: strip_def rev_map list_all_rev)
qed

lemma py_int_show_nat: "py_int (show_nat n) = Inr (int n)"
proof -
  obtain ds where ds: "show_nat n = map digit_char ds" "ds \<noteq> []" "list_all (\<lambda>d. d < 10) ds"
    "fold (\<lambda>d m. 10 * m + d) ds 0 = n" by (rule show_nat_digits)
  from ds(2) obtain e es where es: "ds = e # es" by (cases ds) simp_all
  with ds(3) have "digit_char e \<noteq> CHR ''-''" "digit_char e \<noteq> CHR ''+''" using digit_char_plain by simp_all
  moreover have "read_digits 0 False (map digit_char ds) = Some n"
    using read_digits_append [OF ds(3), of 0 False "[]"] ds(2,4) by simp
  ultimately show ?thesis
    unfolding ds(1) using strip_digits [OF ds(3)] es by (simp add: py_int_def Let_def)
qed

end
