(* ===== verification/Spec2Isabelle.thy ===== *)
theory Spec2Isabelle
  imports Demo Sandbox_Properties Service_Properties Evaluation_Properties Wiring
begin

text \<open>
  A verification library for \<^bold>\<open>Interlock\<close>, the durable, approval-gated remediation agent of
  \<^verbatim>\<open>src/src/\<close>: an agent that diagnoses a sandboxed production environment, proposes a
  remediation, has its risk classified, executes it or waits for a human, verifies the result and
  rolls back or replans, with an audit record per transition. All paths below are under
  \<^verbatim>\<open>src/src/\<close>.

  \<^bold>\<open>The parts and their theories.\<close>

  \<^item> \<^theory_text>\<open>Prelude\<close>, \<^theory_text>\<open>Pyval\<close>: results and the result-state monad for raising code, the exceptions of the
    source, dictionaries as association lists, \<^verbatim>\<open>split(":", 1)\<close>, slices, formatting and \<^verbatim>\<open>repr\<close>; Python
    values and \<^verbatim>\<open>json.dumps\<close>.
  \<^item> The sandbox: \<^theory_text>\<open>Mock_Service\<close> (\<^verbatim>\<open>env/registry.py\<close>, \<^verbatim>\<open>env/mock_service/state.py\<close>: one record per
    service), \<^theory_text>\<open>Mock_App\<close> (\<^verbatim>\<open>env/mock_service/app.py\<close>: a response and the new state per endpoint),
    \<^theory_text>\<open>Fault_Injector\<close> (\<^verbatim>\<open>env/fault_injector.py\<close>, \<^verbatim>\<open>env/db/reset.py\<close>).
  \<^item> The tools: \<^theory_text>\<open>Ledger\<close> (\<^verbatim>\<open>_run_idempotent\<close> of \<^verbatim>\<open>tools/mutating.py\<close> over both stores of executed
    actions, \<^verbatim>\<open>tools/context.py\<close>), \<^theory_text>\<open>Record_Store\<close> (both record repositories), \<^theory_text>\<open>Tool_Context\<close>,
    \<^theory_text>\<open>Tools\<close> (\<^verbatim>\<open>tools/mutating.py\<close>, \<^verbatim>\<open>tools/readonly.py\<close>), \<^theory_text>\<open>Execution\<close> (\<^verbatim>\<open>agent/execution.py\<close>), with
    the facts on actions and compensations in \<^theory_text>\<open>Actions\<close> and \<^theory_text>\<open>Compensation\<close>.
  \<^item> The agent: \<^theory_text>\<open>Observations\<close> (\<^verbatim>\<open>agent/observations.py\<close>), \<^theory_text>\<open>Fingerprint\<close>
    (\<^verbatim>\<open>revalidation/fingerprint.py\<close>), \<^theory_text>\<open>Risk\<close> (\<^verbatim>\<open>risk/policy.py\<close>), \<^theory_text>\<open>Agent_State\<close>
    (\<^verbatim>\<open>agent/state.py\<close>: the state keys as optional fields, an update as a list of entries), \<^theory_text>\<open>Nodes\<close>
    (\<^verbatim>\<open>agent/nodes.py\<close>: one function per node and per routing), \<^theory_text>\<open>Audit_Log\<close> (\<^verbatim>\<open>audit/\<close>), \<^theory_text>\<open>Graph\<close>
    (\<^verbatim>\<open>agent/graph.py\<close> as a step relation over checkpoints and the world, and \<open>drive\<close>, one invocation
    of the graph with a step limit).
  \<^item> The service: \<^theory_text>\<open>Workflow\<close> (\<^verbatim>\<open>start_workflow\<close>, \<^verbatim>\<open>resume_workflow\<close> over the threads of the
    checkpointer), \<^theory_text>\<open>Api\<close> (\<^verbatim>\<open>api/run_registry.py\<close>, \<^verbatim>\<open>api/main.py\<close>).
  \<^item> The evaluation: \<^theory_text>\<open>Scenario_Suite\<close> (\<^verbatim>\<open>eval/scenario_validation.py\<close>), \<^theory_text>\<open>Heuristics\<close> and \<^theory_text>\<open>Runner\<close>
    (\<^verbatim>\<open>eval/runner.py\<close>), \<^theory_text>\<open>Metrics\<close> (\<^verbatim>\<open>eval/metrics.py\<close>), \<^theory_text>\<open>Load_Test\<close> (\<^verbatim>\<open>eval/load_test.py\<close>), \<^theory_text>\<open>Suite\<close>
    (\<^verbatim>\<open>eval/run_suite.py\<close>), \<^theory_text>\<open>Chaos\<close> (\<^verbatim>\<open>chaos/\<close>).
  \<^item> The language models: \<^theory_text>\<open>LLM_Clients\<close> (\<^verbatim>\<open>agent/diagnosis.py\<close>, \<^verbatim>\<open>risk/classifier.py\<close>,
    \<^verbatim>\<open>llm/ollama_client.py\<close>, and of \<^verbatim>\<open>eval/runner.py\<close> the choice of a backend and the counting of its
    calls): what is sent, how an answer is read, the labels in the results.
  \<^item> The processes: \<^theory_text>\<open>Wiring\<close> (\<^verbatim>\<open>build_production_app\<close> of \<^verbatim>\<open>api/main.py\<close>, \<^verbatim>\<open>api/__main__.py\<close>, the services
    and the agent process of \<^verbatim>\<open>chaos/\<close>): what they read of their environment and arguments.

  \<^bold>\<open>The interfaces.\<close> Six locales state what one part relies on of another, each interpreted on
  the model of the code: \<open>idempotency_ledger\<close> (in memory, Postgres and the context's own),
  \<open>records_repository\<close> (in memory, Postgres, context), \<open>audit_store\<close>, \<open>run_registry\<close> (in memory,
  Postgres), \<open>graph_engine\<close>, the contract of LangGraph's \<^verbatim>\<open>ainvoke\<close> with durability \<^verbatim>\<open>sync\<close>, and
  \<open>burst_contract\<close>, what the tasks of a burst of the load test keep of each other's facts, interpreted
  on its two bursts.

  \<^bold>\<open>What is proved.\<close> \<^theory_text>\<open>Control\<close> has the invariant of every node and its preservation by every
  step; \<^theory_text>\<open>Runs\<close> reachability with interference by the environment, by other runs and by crashes, and
  the rank that every step lowers; \<^theory_text>\<open>Audit_Trail\<close> the invariant of the log; \<^theory_text>\<open>Recovery\<close> that repeated
  nodes are harmless and which nodes cannot raise; \<^theory_text>\<open>Lifecycle\<close> and \<^theory_text>\<open>Approved_Run\<close> whole runs; \<^theory_text>\<open>Chaos_Trials\<close>,
  \<^theory_text>\<open>Runner_Facts\<close> and \<^theory_text>\<open>Metrics_Facts\<close> the evaluation's; \<^theory_text>\<open>Load_Turns\<close> and \<^theory_text>\<open>Load_Facts\<close> the bursts of the
  load test for every order of turns. The properties are in this theory (the gate,
  revalidation, exactly-once, termination, two whole runs) and in \<^theory_text>\<open>Sandbox_Properties\<close>,
  \<^theory_text>\<open>Service_Properties\<close> and \<^theory_text>\<open>Evaluation_Properties\<close>; \<^theory_text>\<open>Demo\<close> and \<^theory_text>\<open>Eval_Demo\<close> hold the concrete runs on
  which they are instantiated.

  \<^bold>\<open>Bounds.\<close> The graph is bounded by its replanning cycles (3): a run completes at most 35 nodes,
  and one invocation needs at most 26 steps for a start and 25 for a resumption, so that \<open>drive\<close>
  with this fuel always stops by itself; both bounds are reached. The approval loop of the runner
  takes at most 3 rounds, which is the fuel of \<open>run_scenario\<close>. A burst of \<open>n\<close> calls gets \<open>n * (limit + 2)\<close>
  turns, enough for every order of turns because each turn brings one task nearer to its end.

  \<^bold>\<open>Parameters.\<close> The runtime record holds what the code takes from outside: the answers of the
  reasoner and of the classifier, clocks, the text of floats, the hash, the coercions of pydantic.
  Floats are rationals. The step limit of LangGraph is an argument. \<^verbatim>\<open>numpy.percentile\<close> is an argument
  of the metrics, and so are the clock, the run ids and the counts of tokens and calls of the runner,
  and what the load test measures of its process. The language model clients take the services, the
  prompts, the JSON schemas and \<^verbatim>\<open>json.loads\<close>.

  \<^bold>\<open>Not modelled.\<close> The texts of the prompts and the connection to the language models, which are
  third-party clients. The Postgres saver of LangGraph behind \<^verbatim>\<open>durability/checkpointer.py\<close>; the server
  loops, \<^verbatim>\<open>argparse\<close>, and the ports, subprocesses and time-outs of \<^verbatim>\<open>chaos/harness.py\<close>, where a kill
  happens exactly when the mark is printed; interleavings inside a node: a node is one step, in the
  graph with interference, in the load test and in the crashes; the tests and the front end.

  \<^bold>\<open>What the model shows against the documentation.\<close> The redundancy floor looks at the restart
  count of the first sweep of a run and never fires within it, but fires for a run that starts over
  after a crash: the chaos trials that kill in \<^verbatim>\<open>EXECUTING\<close> and \<^verbatim>\<open>ROLLING_BACK\<close> cannot pass. The same action
  proposed again in a run is answered from the ledger without effect. A configuration key that was
  not set cannot be rolled back. Replays from the Postgres ledger raise. A crash between an effect
  and its row in the ledger is outside the exactly-once guarantee.
\<close>

section \<open>The approval gate\<close>

text \<open>
  C1: Whatever the environment, other runs and crashes do, a node that changes the environment
  (\<^verbatim>\<open>execute\<close>, and after it \<^verbatim>\<open>rolling_back\<close>) is only pending in a run whose action was
  classified as low risk and is none of the forced-high tools, or for which a human decision
  \<^verbatim>\<open>approved\<close> or \<^verbatim>\<open>edited\<close> is recorded; the idempotency key is then the one of this run and
  this action.
\<close>

theorem execution_is_cleared:
  assumes "run_reach rt rv crashes run init w0 (cp, w)"
    and "sandbox (w_ctx w0)" and "started init"
    and "cp_next cp \<in> {Some Execute, Some Rolling_back}"
  shows "cleared (cp_state cp) \<and> keyed (cp_state cp)"
  using reach_node [OF assms(1-3)] assms(4) by auto

theorem execution_is_cleared_witness:
  "cleared (cp_state (fst at_restart)) \<and> keyed (cp_state (fst at_restart))"
  by (rule execution_is_cleared [of restart_run True True "''run-1''" demo_state demo_world _ "snd at_restart"])
    (use at_nexts in \<open>simp_all add: at_restart_reach\<close>)

text \<open>
  C2: The tools that destroy data or leave a bad deploy in place (\<^verbatim>\<open>delete_records\<close> and
  \<^verbatim>\<open>rollback_deployment\<close>) are never executed without a recorded human decision \<^verbatim>\<open>approved\<close> or
  \<^verbatim>\<open>edited\<close>, whatever tier the classifier returned.
\<close>

theorem destructive_needs_human:
  assumes "run_reach rt rv crashes run init w0 (cp, w)"
    and "sandbox (w_ctx w0)" and "started init"
    and "cp_next cp = Some Execute" and "st_proposed_action (cp_state cp) = Some a"
    and "split_head a = ''delete_records'' \<or> split_head a = ''rollback_deployment''"
  shows "st_approval_decision (cp_state cp) \<in> {Some Approved, Some Edited}"
proof -
  from assms(6) have "split_head a \<in> set FORCED_HIGH_TOOLS" by (auto simp: FORCED_HIGH_TOOLS_def)
  with reach_node [OF assms(1-4)] assms(5) show ?thesis
    by (simp add: cleared_def low_risk_def said_yes_def)
qed

theorem destructive_needs_human_witness:
  "st_approval_decision (cp_state (fst at_delete)) \<in> {Some Approved, Some Edited}"
  by (rule destructive_needs_human [of delete_run False True "''run-1''" demo_state demo_world _ "snd at_delete"
        "''delete_records:session''"])
    (use at_nexts in \<open>simp_all add: at_delete_reach split_head_def\<close>)

text \<open>
  C3: The audit log of a run that did not crash: with a clock that does not go back, its records
  form a complete chain, its last record holds the current state of the run, and it shows for
  every execution the clearance it rests on: a low classification, a human yes, or a
  revalidation that itself follows a human yes.
\<close>

theorem audit_log_complete_and_gated:
  assumes "run_reach rt rv False run init w0 (cp, w)" and "mono (rt_clock rt)"
    and "st_run_id init = Some run" and "run_log run w0 = []"
  shows "is_complete_chain (run_log run w) \<and> log_gated (run_log run w) \<and>
    replay_run (run_log run w) = List.map_filter ar_to_state (run_log run w) \<and>
    (run_log run w = [] \<or> ar_to_state (last (run_log run w)) = st_status (cp_state cp))"
  using reach_log_inv [OF assms] by (auto simp: log_inv_def Let_def replay_run_def ordered_id)

theorem audit_log_complete_and_gated_witness:
  "is_complete_chain (run_log ''run-1'' (snd at_delete)) \<and> log_gated (run_log ''run-1'' (snd at_delete)) \<and>
   replay_run (run_log ''run-1'' (snd at_delete)) = List.map_filter ar_to_state (run_log ''run-1'' (snd at_delete)) \<and>
   (run_log ''run-1'' (snd at_delete) = [] \<or>
      ar_to_state (last (run_log ''run-1'' (snd at_delete))) = st_status (cp_state (fst at_delete)))"
  by (rule audit_log_complete_and_gated [of delete_run False _ demo_state demo_world])
    (simp_all add: at_delete_reach)

section \<open>Revalidation\<close>

text \<open>
  C4: After an approval, the revalidation sweeps the sandbox again without changing it, and goes
  on to the execution exactly when the fingerprint of the action in the fresh sweep is the one
  the state holds; otherwise the run replans. The fresh fingerprint replaces the old one.
\<close>

theorem revalidation_decides:
  assumes "sandbox (w_ctx w)" and "sound st" and "st_proposed_action st = Some a"
    and "exec_step rt rv d Revalidate st w = (Next nx st', w')"
  shows "\<exists>ob fp. gather_observations (rt_log_clock rt (w_tick w)) (w_ctx w) = Inr ob \<and>
    compute_fingerprint (rt_float rt) (rt_digest rt) ob a = Inr fp \<and>
    nx = Some (if Some fp = st_state_fingerprint st then Prepare else Replan) \<and>
    st_observations st' = Some ob \<and> st_state_fingerprint st' = Some fp \<and> w_ctx w' = w_ctx w"
proof -
  from assms(4) obtain u c where fn: "revalidate rt (w_tick w) st (w_ctx w) = (Inr u, c)"
    and w': "w_ctx w' = c" and st': "st' = merge st u" and nx: "graph_next rv Revalidate st' = Inr nx"
    by (rule exec_step_Next) auto
  from revalidate_update [OF fn] assms(3) nx st' w' show ?thesis
    by (auto simp: route_simps bindR_Inr_iff)
qed

theorem revalidation_decides_witness:
  "\<exists>nx st' w' ob fp. exec_step delete_run True None Revalidate (cp_state (fst at_revalidate)) (snd at_revalidate)
      = (Next nx st', w') \<and>
    compute_fingerprint (rt_float delete_run) (rt_digest delete_run) ob ''delete_records:session'' = Inr fp \<and>
    nx = Some (if Some fp = st_state_fingerprint (cp_state (fst at_revalidate)) then Prepare else Replan) \<and>
    w_ctx w' = w_ctx (snd at_revalidate)"
proof -
  let ?st = "cp_state (fst at_revalidate)" and ?w = "snd at_revalidate"
  have reach: "run_reach delete_run True False ''run-1'' demo_state demo_world (fst at_revalidate, ?w)"
    using at_revalidate_reach by simp
  have sb: "sandbox (w_ctx ?w)" using reach_inv [OF reach] by simp
  have inv: "node_inv True Revalidate ?st" using reach_node [OF reach] at_nexts by simp
  have a: "st_proposed_action ?st = Some ''delete_records:session''" using at_nexts by simp
  obtain nx st' w' where ex: "exec_step delete_run True None Revalidate ?st ?w = (Next nx st', w')"
    by (rule step_runs [OF sb inv, of delete_run None]) simp_all
  from inv have "sound ?st" by simp
  from revalidation_decides [OF sb this a ex] obtain ob fp where
    "compute_fingerprint (rt_float delete_run) (rt_digest delete_run) ob ''delete_records:session'' = Inr fp"
    "nx = Some (if Some fp = st_state_fingerprint ?st then Prepare else Replan)" "w_ctx w' = w_ctx ?w"
    by (elim exE conjE)
  with ex show ?thesis by (intro exI conjI)
qed

text \<open>
  C5: No false drift: two sweeps that find the target service in the same state, at whatever
  times and whatever happened to the other services and to the records, give an action on that
  service the same fingerprint.
\<close>

theorem unrelated_changes_are_no_drift:
  assumes "sandbox c" and "sandbox c'" and "target \<in> set KNOWN_SERVICES"
    and "map_of (clients c) target = map_of (clients c') target"
    and "gather_observations lg c = Inr ob" and "gather_observations lg' c' = Inr ob'"
    and "split_action a = Inr (tool, target)" and "tool \<noteq> ''delete_records''"
  shows "compute_fingerprint fr digest ob a = compute_fingerprint fr digest ob' a"
  by (rule sweep_fingerprint [OF assms])

theorem unrelated_changes_are_no_drift_witness:
  "\<exists>ob ob'. gather_observations (\<lambda>_. ''t'') demo_ctx = Inr ob \<and>
     gather_observations (\<lambda>_. ''t'') (snd (http_post ''service_b'' (app_admin_fault SERVICE_DOWN RATE_HIGH) demo_ctx)) = Inr ob' \<and>
     compute_fingerprint (\<lambda>_. ''f'') (\<lambda>s. s) ob ''restart_service:service_a'' =
     compute_fingerprint (\<lambda>_. ''f'') (\<lambda>s. s) ob' ''restart_service:service_a''"
proof -
  let ?c' = "snd (http_post ''service_b'' (app_admin_fault SERVICE_DOWN RATE_HIGH) demo_ctx)"
  have sb: "sandbox demo_ctx" using demo_sandbox by (simp add: demo_world_def)
  then have sb': "sandbox ?c'" by (simp add: sandbox_http_post)
  obtain ob where ob: "gather_observations (\<lambda>_. ''t'') demo_ctx = Inr ob"
    using gather_full_sweep [OF sb] by blast
  obtain ob' where ob': "gather_observations (\<lambda>_. ''t'') ?c' = Inr ob'"
    using gather_full_sweep [OF sb'] by blast
  have same: "map_of (clients demo_ctx) ''service_a'' = map_of (clients ?c') ''service_a''"
    by (simp add: demo_ctx_def)
  have "compute_fingerprint (\<lambda>_. ''f'') (\<lambda>s. s) ob ''restart_service:service_a'' =
      compute_fingerprint (\<lambda>_. ''f'') (\<lambda>s. s) ob' ''restart_service:service_a''"
    by (rule unrelated_changes_are_no_drift [OF sb sb' _ same ob ob', of _ "''restart_service''"])
      (simp_all add: KNOWN_SERVICES_def SERVICE_ROLES_def split_action_def split_colon_def)
  with ob ob' show ?thesis by blast
qed

section \<open>Effects happen once\<close>





text \<open>
  C7: Once the ledger holds the key of a run and an action, no later execution of that action in
  that run touches the environment, whatever its parameters are by then: also when the action is
  proposed a second time, in a later cycle, the tool only answers from the ledger.
\<close>

theorem action_runs_once_per_run:
  assumes "run_reach rt rv crashes run init w0 (cp, w)"
    and "sandbox (w_ctx w0)" and "started init"
    and "cp = \<lparr>cp_state = st, cp_next = Some Execute\<rparr>"
    and "st_run_id st = Some r" and "st_proposed_action st = Some a"
    and "ctx_get (w_ctx w) (r @ '':'' @ a) = Some row"
    and "exec_step rt rv d Execute st w = (res, w')"
  shows "w_ctx w' = w_ctx w"
proof -
  have "node_inv rv Execute st" using reach_node [OF assms(1-3), of Execute] assms(4) by simp
  then have "st_idempotency_key st = Some (r @ '':'' @ a)" using assms(5,6) by (simp add: keyed_def)
  then have same: "snd (execute rt st (w_ctx w)) = w_ctx w"
    using execute_known_key [OF _ _ assms(7), of rt st] by (metis prod.collapse)
  obtain q w1 where q: "with_audit rt Execute (node_fn rt d (w_tick w) Execute) st w = (q, w1)"
    by (cases "with_audit rt Execute (node_fn rt d (w_tick w) Execute) st w")
  then have "w_ctx w1 = snd (execute rt st (w_ctx w))"
    by (auto simp: with_audit_def Let_def split: prod.splits sum.splits)
  moreover have "w1 = w'" using assms(8) q by (auto simp: exec_step_def split: sum.splits)
  ultimately show ?thesis using same by simp
qed

theorem action_runs_once_per_run_witness:
  "w_ctx (snd (exec_step restart_run True None Execute (cp_state (fst at_restart)) after_crash))
     = w_ctx after_crash"
proof -
  let ?st = "cp_state (fst at_restart)"
  obtain row where row: "ctx_get (w_ctx after_crash) (''run-1'' @ '':'' @ ''restart_service:service_a'') = Some row"
    using after_crash_ledger by auto
  show ?thesis
    by (rule action_runs_once_per_run [OF after_crash_reach demo_sandbox demo_started refl _ _ row])
      (use at_restart_inv at_nexts in \<open>simp_all add: prod_eq_iff\<close>)
qed

text \<open>
  C8: A rollback that crashed after the compensation and before its checkpoint is run again: the
  second compensation succeeds as well and leaves the services and the rows as the first left
  them, for every kind of compensation a tool registers.
\<close>

theorem rollback_retry_is_harmless:
  assumes "sandbox c" and "rolling_back rt st c = (Inr u, c1)"
  shows "\<exists>u' c2. rolling_back rt st c1 = (Inr u', c2) \<and> clients c2 = clients c1 \<and>
    ctx_content c2 = ctx_content c1"
  using rolling_back_again [OF assms] by metis

theorem rollback_retry_is_harmless_witness:
  "\<exists>u c1 u' c2. rolling_back restart_run (demo_state\<lparr>st_compensation := Some (make_compensation ''scale_service''
        [(''service'', PStr ''service_a''), (''replicas'', PInt 3)])\<rparr>) demo_ctx = (Inr u, c1) \<and>
     rolling_back restart_run (demo_state\<lparr>st_compensation := Some (make_compensation ''scale_service''
        [(''service'', PStr ''service_a''), (''replicas'', PInt 3)])\<rparr>) c1 = (Inr u', c2) \<and>
     clients c2 = clients c1"
proof -
  let ?st = "demo_state\<lparr>st_compensation := Some (make_compensation ''scale_service''
        [(''service'', PStr ''service_a''), (''replicas'', PInt 3)])\<rparr>"
  have s: "map_of (clients demo_ctx) ''service_a'' = Some demo_a" by (simp add: demo_ctx_def)
  obtain u c1 where rb: "rolling_back restart_run ?st demo_ctx = (Inr u, c1)"
    by (simp add: rolling_back_def bindE_def undo_scale [OF s])
  have sb: "sandbox demo_ctx" using demo_sandbox by (simp add: demo_world_def)
  from rollback_retry_is_harmless [OF sb rb] obtain u' c2 where
    "rolling_back restart_run ?st c1 = (Inr u', c2)" "clients c2 = clients c1" by (elim exE conjE)
  with rb show ?thesis by (intro exI conjI)
qed

section \<open>Termination\<close>



text \<open>
  C10: The graph library never reaches its step limit when it is 26 for a new run and 25 for a
  resumed one: the run then suspends, ends or raises, whatever the reasoners answer.
\<close>

theorem every_invocation_stops:
  assumes "0 \<le> cycles st" and "25 \<le> k"
  shows "fst (drive rt rv (Suc k) None Diagnose st w) \<noteq> Library_error \<and>
    fst (drive rt rv k (Some h) Await st w) \<noteq> Library_error"
proof -
  have l: "left st \<le> 3" using assms(1) by (simp add: left_def MAX_REPLAN_CYCLES_def)
  then have "rank_auto Diagnose st \<le> Suc k" "8 * left st + 1 \<le> k" using assms(2) by simp_all
  then show ?thesis using drive_enough drive_resume_enough by blast
qed

theorem every_invocation_stops_witness:
  "fst (drive restart_run True (Suc 25) None Diagnose demo_state demo_world) \<noteq> Library_error \<and>
   fst (drive restart_run True 25 (Some yes_decision) Await demo_state demo_world) \<noteq> Library_error"
  by (rule every_invocation_stops) (simp_all add: cycles_def demo_state_def empty_state_def)



text \<open>
  C12: The run that the sandbox is made for: a reasoner that proposes the restart of a service
  which the classifier finds low risk, and a disk that is not full, takes seven nodes, without a
  human, to \<^verbatim>\<open>COMPLETED\<close>, and the service has been restarted.
\<close>

theorem healing_run_completes:
  assumes "sandbox (w_ctx w)" and "restarts rt svc" and "started st" and "st_run_id st = Some run"
    and "map_of (clients (w_ctx w)) svc = Some s"
    and "MIN_REDUNDANT_REPLICAS \<le> replicas s \<or> restart_count s < 1"
    and "ctx_get (w_ctx w) (restart_key run svc) = None"
    and "svc_has_disk s \<longrightarrow> disk_pct s < DEGRADED_THRESHOLD"
  shows "\<exists>cp w'. drive rt rv (k + 7) None Diagnose st w = (Returned, cp, w') \<and>
    st_final_state (cp_state cp) = Some COMPLETED \<and>
    map_of (clients (w_ctx w')) svc = Some (restart s) \<and> status (restart s) = ''healthy''"
proof -
  obtain cp w' where "drive rt rv (k + 7) None Diagnose st w = (Returned, cp, w')"
    "st_final_state (cp_state cp) = Some COMPLETED"
    "clients (w_ctx w') = AList.update svc (restart s) (clients (w_ctx w))"
    by (rule healing_run [OF assms, where rv = rv and k = k]) blast
  moreover have "status (restart s) = ''healthy''" using assms(8) by (simp add: restart_status)
  ultimately show ?thesis by (intro exI [of _ cp] exI [of _ w']) (simp add: AList.update_conv')
qed

theorem healing_run_completes_witness:
  "\<exists>cp w'. drive restart_run True (0 + 7) None Diagnose demo_state demo_world = (Returned, cp, w') \<and>
     st_final_state (cp_state cp) = Some COMPLETED \<and>
     map_of (clients (w_ctx w')) ''service_a'' = Some (restart demo_a) \<and> status (restart demo_a) = ''healthy''"
  by (rule healing_run_completes [of _ _ _ _ "''run-1''"])
    (simp_all add: restart_run_restarts, simp_all add: demo_state_def empty_state_def demo_world_def
      demo_ctx_def demo_a_def new_service_def KNOWN_SERVICES_def SERVICE_ROLES_def ctx_get_def mem_get_def)

end
